(* ===== verification/Tracker_Prelude.thy ===== *)
theory Tracker_Prelude
  imports Main "HOL-Library.Word"
begin

text \<open>
  Shared vocabulary of the development: names for Go's fixed-width integers, the conversions
  between Go strings and byte slices, the error values the packages return, the outcome of a
  call that may panic, and the generic lemmas on lists, maps and words that the component
  theories rely on.
\<close>

unbundle bit_operations_syntax

section \<open>Types\<close>

type_synonym byte = "8 word"
type_synonym u16 = "16 word"
type_synonym u32 = "32 word"
type_synonym u64 = "64 word"
type_synonym bytes = "byte list"

named_theorems wire_simps \<open>how conversions and encodings split over concatenation\<close>
named_theorems ref_defs \<open>the reference instances and initial states that concrete examples evaluate\<close>

section \<open>Strings and byte slices\<close>

text \<open>
  A Go string is a sequence of bytes; an Isabelle character is a byte, so both directions of
  the conversion are maps.
\<close>

definition bytes_of_string :: "string \<Rightarrow> bytes" where
  "bytes_of_string s = map (\<lambda>c. word_of_nat (of_char c)) s"

definition string_of_bytes :: "bytes \<Rightarrow> string" where
  "string_of_bytes b = map (\<lambda>x. char_of (unat x)) b"

lemma unat_byte_less [simp]: "unat (x :: byte) < 256"
  using unsigned_less [of x] by simp

lemma unat_word_of_char [simp]: "unat (word_of_nat (of_char c) :: byte) = of_char c"
  by (simp add: unat_of_nat of_char_mod_256)

lemma string_of_bytes_of_string [simp]: "string_of_bytes (bytes_of_string s) = s"
  by (induction s) (auto simp: bytes_of_string_def string_of_bytes_def)

lemma bytes_of_string_of_bytes [simp]: "bytes_of_string (string_of_bytes b) = b"
  by (induction b) (auto simp: bytes_of_string_def string_of_bytes_def)

lemma length_bytes_of_string [simp]: "length (bytes_of_string s) = length s"
  by (simp add: bytes_of_string_def)

lemma length_string_of_bytes [simp]: "length (string_of_bytes b) = length b"
  by (simp add: string_of_bytes_def)

lemma bytes_string_Nil [simp]: "bytes_of_string s = [] \<longleftrightarrow> s = []" "bytes_of_string [] = []" "string_of_bytes [] = []"
  by (simp_all add: bytes_of_string_def string_of_bytes_def)

lemma bytes_of_string_append [wire_simps]: "bytes_of_string (s @ t) = bytes_of_string s @ bytes_of_string t"
  by (simp add: bytes_of_string_def)

lemma string_of_bytes_append [wire_simps]: "string_of_bytes (a @ b) = string_of_bytes a @ string_of_bytes b"
  by (simp add: string_of_bytes_def)

lemma bytes_of_string_inject [simp]: "bytes_of_string s = bytes_of_string t \<longleftrightarrow> s = t"
  by (metis string_of_bytes_of_string)

section \<open>Lists\<close>

lemma count_list_replicate [simp]: "count_list (replicate n x) y = (if x = y then n else 0)"
  by (induction n) auto

lemma find_SomeD: "find P xs = Some x \<Longrightarrow> x \<in> set xs \<and> P x"
  by (induction xs) (auto split: if_splits)

text \<open>Counting up to a bound does not wrap around.\<close>

lemma unat_Suc_less:
  assumes "i < (n :: u64)"
  shows "unat (i + 1) = Suc (unat i)"
proof -
  have "Suc (unat i) < 2 ^ 64" using assms unsigned_less [where 'a = nat, of n] by (simp add: word_less_nat_alt)
  then show ?thesis by (simp add: unat_word_ariths)
qed

section \<open>Errors and panics\<close>

text \<open>
  The ways a command payload can be malformed (package \<^verbatim>\<open>handler\<close>); every one of them wraps
  \<^verbatim>\<open>ErrBadPayload\<close>.
\<close>

datatype bad_payload =
    NotSingleVarint
  | MissingCount
  | TruncatedId u64 u64
  | MissingAlgoLen
  | AlgoLenExceeds u64 nat

text \<open>The gRPC status codes the server produces itself.\<close>

datatype status_code = InvalidArgument | Internal | Unimplemented

text \<open>
  The error values of the tracker's packages, one constructor per \<^verbatim>\<open>errors.New\<close> or
  \<^verbatim>\<open>fmt.Errorf\<close> format. \<open>ErrExternal\<close> is an error made by code outside the repository
  (the database, the bitmap library, Raft, gRPC); only its identity matters.
\<close>

datatype go_error =
    ErrUnknownGroup string
  | ErrAlgoMismatch string string
  | ErrNilRemote
  | ErrParse string go_error
  | ErrBufferTooShort
  | ErrPrecisionMismatch u16
  | ErrUnknownCommand "string option"
  | ErrBadPayload bad_payload
  | ErrNilAdder
  | ErrNotFound
  | ErrStatus status_code "go_error option"
  | ErrOpenStore go_error
  | ErrWrap string go_error
  | ErrExternal string

text \<open>A Go \<^verbatim>\<open>error\<close> result: \<open>None\<close> is \<^verbatim>\<open>nil\<close>.\<close>

type_synonym err = "go_error option"

text \<open>The result of a call that may panic instead of returning.\<close>

datatype 'a outcome = Return 'a | Panic string

text \<open>Sequencing of fallible steps: the first error is the result.\<close>

definition and_then :: "go_error + 'a \<Rightarrow> ('a \<Rightarrow> go_error + 'b) \<Rightarrow> go_error + 'b" where
  "and_then r f = (case r of Inl e \<Rightarrow> Inl e | Inr x \<Rightarrow> f x)"

lemma and_then_simps [simp]: "and_then (Inl e) f = Inl e" "and_then (Inr x) f = f x"
  by (simp_all add: and_then_def)

end
