(* ===== verification/Go_Binary.thy ===== *)
theory Go_Binary
  imports Tracker_Prelude
begin

text \<open>
  The parts of Go's \<^verbatim>\<open>encoding/binary\<close> and \<^verbatim>\<open>math/bits\<close> that the tracker calls:
  unsigned varints (\<^verbatim>\<open>AppendUvarint\<close>, \<^verbatim>\<open>Uvarint\<close>), little-endian integers of 16 and 64
  bits, and \<^verbatim>\<open>LeadingZeros64\<close>. The main facts are the round trips and the length bounds.
\<close>

section \<open>Unsigned varints\<close>

text \<open>The constant \<^verbatim>\<open>binary.MaxVarintLen64\<close>.\<close>

definition MaxVarintLen64 :: nat where
  "MaxVarintLen64 = 10"

text \<open>
  \<^verbatim>\<open>binary.AppendUvarint\<close>: seven bits per byte, least significant group first, the top bit of
  a byte set when another byte follows.
\<close>

function AppendUvarint :: "bytes \<Rightarrow> u64 \<Rightarrow> bytes" where
  "AppendUvarint buf x =
     (if 0x80 \<le> x then AppendUvarint (buf @ [ucast x OR 0x80]) (drop_bit 7 x)
      else buf @ [ucast x])"
  by pat_completeness auto

lemma unat_drop_bit_7: "unat (drop_bit 7 (x :: u64)) = unat x div 128"
  by (simp add: drop_bit_eq_div unat_div)

termination AppendUvarint
proof (relation "measure (\<lambda>(buf, x). unat x)")
  fix buf and x :: u64
  assume "0x80 \<le> x"
  then have "128 \<le> unat x" by (simp add: word_le_nat_alt)
  then show "((buf @ [ucast x OR 0x80], drop_bit 7 x), (buf, x)) \<in> measure (\<lambda>(buf, x). unat x)"
    by (simp add: unat_drop_bit_7)
qed simp

declare AppendUvarint.simps [simp del]

text \<open>
  \<^verbatim>\<open>binary.Uvarint\<close> as its loop: position \<open>i\<close>, accumulated value \<open>x\<close>, shift \<open>s\<close>. The second
  component of the result is the number of bytes read, 0 when the buffer is too small and
  negative when the value overflows 64 bits.
\<close>

fun Uvarint_loop :: "nat \<Rightarrow> u64 \<Rightarrow> nat \<Rightarrow> bytes \<Rightarrow> u64 \<times> int" where
  "Uvarint_loop i x s [] = (0, 0)"
| "Uvarint_loop i x s (b # bs) =
     (if i = MaxVarintLen64 then (0, - (int i + 1))
      else if b < 0x80 then
        (if i = MaxVarintLen64 - 1 \<and> 1 < b then (0, - (int i + 1))
         else (x OR push_bit s (ucast b), int i + 1))
      else Uvarint_loop (Suc i) (x OR push_bit s (ucast (b AND 0x7f))) (s + 7) bs)"

definition Uvarint :: "bytes \<Rightarrow> u64 \<times> int" where
  "Uvarint buf = Uvarint_loop 0 0 0 buf"

lemma AppendUvarint_prefix: "AppendUvarint (pre @ buf) x = pre @ AppendUvarint buf x"
proof (induction buf x rule: AppendUvarint.induct)
  case (1 buf x)
  then show ?case
    by (cases "0x80 \<le> x")
      (simp_all add: AppendUvarint.simps [of "pre @ buf" x] AppendUvarint.simps [of buf x])
qed

lemma AppendUvarint_append: "AppendUvarint buf x = buf @ AppendUvarint [] x"
  using AppendUvarint_prefix [of buf "[]" x] by simp

lemma AppendUvarint_small: "x < 0x80 \<Longrightarrow> AppendUvarint [] x = [ucast x]"
  by (subst AppendUvarint.simps) (simp add: not_le [symmetric])

lemma AppendUvarint_large:
  "0x80 \<le> x \<Longrightarrow> AppendUvarint [] x = (ucast x OR 0x80) # AppendUvarint [] (drop_bit 7 x)"
  using AppendUvarint_append [of "[ucast x OR 0x80]" "drop_bit 7 x"]
  by (simp add: AppendUvarint.simps [of "[]" x])

lemma AppendUvarint_nonempty [simp]: "AppendUvarint [] x \<noteq> []"
  by (cases "0x80 \<le> x") (auto simp: AppendUvarint_large AppendUvarint_small)

lemma ucast_small_byte: "(x :: u64) < 0x80 \<Longrightarrow> ucast (ucast x :: byte) = x"
  by (simp add: word_unat_eq_iff unsigned_ucast_eq unsigned_take_bit_eq word_less_nat_alt take_bit_nat_eq_self)

lemma bit_128: "bit (128 :: int) n \<longleftrightarrow> n = 7"
  using bit_exp_iff [where 'a = int, of 7 n] by auto

lemma continuation_byte: "\<not> (ucast (x :: u64) OR 0x80 :: byte) < 0x80"
  by (simp add: not_less le_word_or1)

lemma small_byte_less: "(x :: u64) < 0x80 \<Longrightarrow> (ucast x :: byte) < 0x80"
  by (simp add: word_less_nat_alt unsigned_ucast_eq unsigned_take_bit_eq take_bit_nat_eq_self)

lemma payload_bits: "((ucast (x :: u64) OR 0x80 :: byte) AND 0x7f) = ucast (take_bit 7 x)"
proof -
  have e: "(0x7f :: byte) = mask 7"
    by (simp add: mask_eq_exp_minus_1)
  show ?thesis
    unfolding e by (rule bit_word_eqI) (auto simp: bit_simps bit_128)
qed

lemma varint_step:
  "push_bit s (ucast ((ucast (x :: u64) OR 0x80 :: byte) AND 0x7f)) OR push_bit (s + 7) (drop_bit 7 x)
   = (push_bit s x :: u64)"
  unfolding payload_bits
proof (rule bit_word_eqI)
  fix n
  show "bit (push_bit s (ucast (ucast (take_bit 7 x) :: byte)) OR push_bit (s + 7) (drop_bit 7 x) :: u64) n
    = bit (push_bit s x) n"
    by (cases "s + 7 \<le> n") (auto simp: bit_simps)
qed

lemma varint_shift_bound:
  assumes "unat (x :: u64) < 2 ^ (64 - 7 * i)" and "Suc i \<le> 9"
  shows "unat (drop_bit 7 x) < 2 ^ (64 - 7 * Suc i)"
proof -
  define k where "k = 64 - 7 * Suc i"
  have "64 - 7 * i = 7 + k" using assms(2) by (simp add: k_def)
  then have "unat x < 2 ^ k * 128" using assms(1) by (simp add: power_add)
  then have "unat x div 128 < 2 ^ k" by (rule less_mult_imp_div_less)
  then show ?thesis unfolding k_def [symmetric] by (simp add: drop_bit_eq_div unat_div)
qed

lemma Uvarint_loop_AppendUvarint:
  assumes "i \<le> 9" and "unat x < 2 ^ (64 - 7 * i)"
  shows "Uvarint_loop i acc (7 * i) (AppendUvarint [] x @ rest)
    = (acc OR push_bit (7 * i) x, int i + int (length (AppendUvarint [] x)))"
  using assms
proof (induction x arbitrary: i acc rule: measure_induct_rule [where f = unat])
  case (less x)
  show ?case
  proof (cases "0x80 \<le> x")
    case True
    then have x: "128 \<le> unat x" by (simp add: word_le_nat_alt)
    have "i \<noteq> 9" using less.prems(2) x by auto
    then have i: "Suc i \<le> 9" using less.prems(1) by simp
    let ?acc = "acc OR push_bit (7 * i) (ucast ((ucast x OR 0x80 :: byte) AND 0x7f))"
    have small: "unat (drop_bit 7 x) < unat x" using x by (simp add: unat_drop_bit_7)
    have bound: "unat (drop_bit 7 x) < 2 ^ (64 - 7 * Suc i)"
      using less.prems(2) i by (rule varint_shift_bound)
    have "Uvarint_loop i acc (7 * i) (AppendUvarint [] x @ rest)
        = Uvarint_loop (Suc i) ?acc (7 * Suc i) (AppendUvarint [] (drop_bit 7 x) @ rest)"
      using True i by (simp add: AppendUvarint_large MaxVarintLen64_def continuation_byte add.commute)
    also have "\<dots> = (?acc OR push_bit (7 * Suc i) (drop_bit 7 x),
        int (Suc i) + int (length (AppendUvarint [] (drop_bit 7 x))))"
      by (rule less.IH [OF small i bound])
    also have "?acc OR push_bit (7 * Suc i) (drop_bit 7 x) = acc OR push_bit (7 * i) x"
      using varint_step [of "7 * i" x] by (simp add: or.assoc add.commute)
    finally show ?thesis using True by (simp add: AppendUvarint_large)
  next
    case False
    then have x: "x < 0x80" by simp
    have "\<not> 1 < (ucast x :: byte)" if "i = 9"
      using less.prems(2) that
      by (simp add: word_less_nat_alt unsigned_ucast_eq unsigned_take_bit_eq take_bit_nat_eq_self)
    with x less.prems(1) show ?thesis
      by (auto simp: AppendUvarint_small MaxVarintLen64_def ucast_small_byte small_byte_less)
  qed
qed

lemma Uvarint_AppendUvarint [wire_simps]:
  "Uvarint (AppendUvarint [] x @ rest) = (x, int (length (AppendUvarint [] x)))"
  using Uvarint_loop_AppendUvarint [of 0 x 0 rest] unsigned_less [of x] by (simp add: Uvarint_def)

lemma length_AppendUvarint_loop:
  "n \<le> 9 \<Longrightarrow> unat x < 2 ^ (7 * n + 1) \<Longrightarrow> length (AppendUvarint [] x) \<le> Suc n"
proof (induction n arbitrary: x)
  case 0
  then have "x < 0x80" by (simp add: word_less_nat_alt)
  then show ?case by (simp add: AppendUvarint_small)
next
  case (Suc n)
  show ?case
  proof (cases "0x80 \<le> x")
    case True
    have "unat x < 2 ^ (7 * n + 1) * 128" using Suc.prems(2) by (simp add: power_add)
    then have "unat x div 128 < 2 ^ (7 * n + 1)" by (rule less_mult_imp_div_less)
    with Suc.IH [of "drop_bit 7 x"] Suc.prems(1) True show ?thesis
      by (simp add: AppendUvarint_large unat_drop_bit_7)
  next
    case False
    then show ?thesis by (simp add: AppendUvarint_small)
  qed
qed

lemma length_AppendUvarint: "length (AppendUvarint [] x) \<le> MaxVarintLen64"
  using length_AppendUvarint_loop [of 9 x] unsigned_less [of x] by (simp add: MaxVarintLen64_def)

text \<open>The bytes read by a successful \<^verbatim>\<open>Uvarint\<close> lie inside the buffer.\<close>

lemma Uvarint_loop_read:
  "Uvarint_loop i x s buf = (v, n) \<Longrightarrow> 0 < n \<Longrightarrow> int i < n \<and> n \<le> int i + int (length buf)"
proof (induction i x s buf rule: Uvarint_loop.induct)
  case (2 i x s b bs)
  then show ?case by (force split: if_splits)
qed simp

lemma Uvarint_read: "Uvarint buf = (v, n) \<Longrightarrow> 0 < n \<Longrightarrow> n \<le> int (length buf)"
  unfolding Uvarint_def by (drule (1) Uvarint_loop_read) simp

lemma Uvarint_Nil [simp]: "Uvarint [] = (0, 0)"
  by (simp add: Uvarint_def)

section \<open>Little-endian integers\<close>

definition PutUint16 :: "u16 \<Rightarrow> bytes" where
  "PutUint16 v = [ucast v, ucast (drop_bit 8 v)]"

definition Uint16 :: "bytes \<Rightarrow> u16" where
  "Uint16 b = ucast (b ! 0) OR push_bit 8 (ucast (b ! 1))"

definition PutUint64 :: "u64 \<Rightarrow> bytes" where
  "PutUint64 v = map (\<lambda>i. ucast (drop_bit (8 * i) v)) [0..<8]"

lemma length_PutUint16 [simp]: "length (PutUint16 v) = 2"
  by (simp add: PutUint16_def)

lemma length_PutUint64 [simp]: "length (PutUint64 v) = 8"
  by (simp add: PutUint64_def)

lemma Uint16_PutUint16 [simp]: "Uint16 (PutUint16 v @ b) = v"
  unfolding Uint16_def PutUint16_def
proof (simp, rule bit_word_eqI)
  fix n
  show "bit (ucast (ucast v :: byte) OR push_bit 8 (ucast (ucast (drop_bit 8 v) :: byte)) :: u16) n = bit v n"
    if "n < LENGTH(16)"
    using that by (cases "n < 8") (auto simp: bit_simps)
qed

lemma Uint16_PutUint16_exact [simp]: "Uint16 (PutUint16 v) = v"
  using Uint16_PutUint16 [of v "[]"] by simp

lemma PutUint16_Uint16: "length b = 2 \<Longrightarrow> Uint16 b = v \<Longrightarrow> b = PutUint16 v"
proof -
  assume b: "length b = 2" "Uint16 b = v"
  then obtain c d where cd: "b = [c, d]" by (auto simp: numeral_2_eq_2 length_Suc_conv)
  then have v: "v = ucast c OR push_bit 8 (ucast d)" using b by (simp add: Uint16_def)
  have "ucast v = c" and "ucast (drop_bit 8 v) = d"
    unfolding v by (rule bit_word_eqI; auto simp: bit_simps dest: bit_imp_le_length)+
  with cd show ?thesis by (simp add: PutUint16_def)
qed

lemma PutUint64_inject: "PutUint64 v = PutUint64 w \<Longrightarrow> v = w"
proof (rule bit_word_eqI)
  fix n
  assume eq: "PutUint64 v = PutUint64 w" and n: "n < LENGTH(64)"
  then have "n div 8 < 8" by simp
  with eq have "(ucast (drop_bit (8 * (n div 8)) v) :: byte) = ucast (drop_bit (8 * (n div 8)) w)"
    unfolding PutUint64_def by (metis (no_types, lifting) diff_zero length_upt nth_map nth_upt plus_nat.add_0)
  then have "bit (ucast (drop_bit (8 * (n div 8)) v) :: byte) (n mod 8)
    = bit (ucast (drop_bit (8 * (n div 8)) w) :: byte) (n mod 8)" by simp
  then show "bit v n = bit w n" by (simp add: bit_simps)
qed

definition Uint64 :: "bytes \<Rightarrow> u64" where
  "Uint64 bs = foldr (\<lambda>b acc. push_bit 8 acc OR ucast b) bs 0"

lemma bit_Uint64:
  "bit (Uint64 bs) n \<longleftrightarrow> n < 64 \<and> n div 8 < length bs \<and> bit (bs ! (n div 8)) (n mod 8)"
proof (induction bs arbitrary: n)
  case Nil
  then show ?case by (simp add: Uint64_def)
next
  case (Cons b bs)
  have U: "Uint64 (b # bs) = push_bit 8 (Uint64 bs) OR ucast b" by (simp add: Uint64_def)
  show ?case
  proof (cases "n < 8")
    case True
    then show ?thesis by (simp add: U bit_simps)
  next
    case False
    then have n: "n div 8 = Suc ((n - 8) div 8)" "n mod 8 = (n - 8) mod 8"
      by (simp_all add: le_div_geq le_mod_geq)
    have "\<not> bit b n" using False bit_imp_le_length [of b n] by auto
    with False Cons.IH [of "n - 8"] show ?thesis by (auto simp: U bit_simps n)
  qed
qed

lemma Uint64_PutUint64 [simp]: "Uint64 (PutUint64 v) = v"
proof (rule bit_word_eqI)
  fix n assume "n < LENGTH(64)"
  then have "n div 8 < 8" by simp
  then show "bit (Uint64 (PutUint64 v)) n = bit v n"
    using \<open>n < LENGTH(64)\<close> by (simp add: bit_Uint64 PutUint64_def bit_simps del: upt_Suc)
qed

section \<open>Leading zeros\<close>

text \<open>\<^verbatim>\<open>bits.Len64\<close>: the number of bits needed to represent \<open>x\<close>; \<^verbatim>\<open>bits.LeadingZeros64\<close> is its
  complement to 64.\<close>

function Len64 :: "u64 \<Rightarrow> nat" where
  "Len64 x = (if x = 0 then 0 else Suc (Len64 (drop_bit 1 x)))"
  by pat_completeness auto

lemma unat_drop_bit_1: "unat (drop_bit (Suc 0) (x :: u64)) = unat x div 2"
  by (simp add: drop_bit_eq_div unat_div)

termination Len64
  by (relation "measure unat") (auto simp: unat_drop_bit_1 unat_gt_0)

declare Len64.simps [simp del]

definition LeadingZeros64 :: "u64 \<Rightarrow> nat" where
  "LeadingZeros64 x = 64 - Len64 x"

lemma Len64_0 [simp]: "Len64 0 = 0"
  by (simp add: Len64.simps)

lemma Len64_le_iff: "Len64 x \<le> n \<longleftrightarrow> unat x < 2 ^ n"
proof (induction n arbitrary: x)
  case 0
  show ?case by (cases "x = 0") (auto simp: Len64.simps [of x] unat_eq_zero)
next
  case (Suc n)
  show ?case
    using Suc.IH [of "drop_bit 1 x"]
    by (cases "x = 0") (auto simp: Len64.simps [of x] unat_drop_bit_1)
qed

lemma Len64_le_64: "Len64 x \<le> 64"
  using Len64_le_iff [of x 64] unsigned_less [of x] by simp

lemma LeadingZeros64_ge_iff: "n \<le> 64 \<Longrightarrow> n \<le> LeadingZeros64 x \<longleftrightarrow> unat x < 2 ^ (64 - n)"
  using Len64_le_iff [of x "64 - n"] Len64_le_64 [of x] by (auto simp: LeadingZeros64_def)

section \<open>Copying slices\<close>

text \<open>The built-in \<^verbatim>\<open>copy(dst, src)\<close> overwrites as many leading elements of \<open>dst\<close> as both
  slices have.\<close>

definition go_copy :: "'a list \<Rightarrow> 'a list \<Rightarrow> 'a list" where
  "go_copy dst src = take (length dst) src @ drop (length src) dst"

lemma length_go_copy [simp]: "length (go_copy dst src) = length dst"
  by (simp add: go_copy_def)

lemma go_copy_same_length [simp]: "length src = length dst \<Longrightarrow> go_copy dst src = src"
  by (simp add: go_copy_def)

lemma go_copy_long: "length dst \<le> length src \<Longrightarrow> go_copy dst src = take (length dst) src"
  by (simp add: go_copy_def)

end
