(* ===== verification/Sketch_Spec.thy ===== *)
theory Sketch_Spec
  imports Go_Binary
begin

text \<open>
  Package \<^verbatim>\<open>internal/cardinality\<close>, file \<^verbatim>\<open>sketch.go\<close>: the \<^verbatim>\<open>Sketch\<close> and \<^verbatim>\<open>Algorithm\<close>
  interfaces. A Go interface is the record of its methods over a type \<open>'s\<close> of sketch values;
  a method with a pointer receiver takes the receiver and returns its new value. The locale
  \<open>sketch_contract\<close> states what an algorithm promises: seen through its observable part, a
  sketch is a point of a join semilattice, inserting an id joins the point of that id, and
  merging joins two sketches. Everything the engine needs is proved once from these laws.
\<close>

section \<open>The interfaces\<close>

record 's sketch_methods =
  sk_AlgoName :: "'s \<Rightarrow> string"
  sk_Add :: "'s \<Rightarrow> u64 \<Rightarrow> 's"
  sk_Cardinality :: "'s \<Rightarrow> u64"
  sk_Merge :: "'s \<Rightarrow> 's \<Rightarrow> 's outcome"
  sk_Bytes :: "'s \<Rightarrow> bytes"
  sk_Clone :: "'s \<Rightarrow> 's"

record 's algorithm = "'s sketch_methods" +
  alg_Name :: string
  alg_New :: 's
  alg_Parse :: "bytes \<Rightarrow> go_error + 's"

section \<open>The contract\<close>

locale sketch_contract =
  fixes alg :: "'s algorithm"
    and inv :: "'s \<Rightarrow> bool"
    and view :: "'s \<Rightarrow> 'v"
    and join :: "'v \<Rightarrow> 'v \<Rightarrow> 'v"
    and point :: "u64 \<Rightarrow> 'v"
    and bot :: 'v
  assumes inv_new: "inv (alg_New alg)"
    and view_new: "view (alg_New alg) = bot"
    and inv_add: "inv s \<Longrightarrow> inv (sk_Add alg s x)"
    and view_add: "inv s \<Longrightarrow> view (sk_Add alg s x) = join (view s) (point x)"
    and merge_ok: "inv s \<Longrightarrow> inv t \<Longrightarrow>
      \<exists>r. sk_Merge alg s t = Return r \<and> inv r \<and> view r = join (view s) (view t)"
    and inv_clone: "inv s \<Longrightarrow> inv (sk_Clone alg s)"
    and view_clone: "inv s \<Longrightarrow> view (sk_Clone alg s) = view s"
    and parse_bytes: "inv s \<Longrightarrow>
      \<exists>t. alg_Parse alg (sk_Bytes alg s) = Inr t \<and> view t = view s"
    and inv_parse: "alg_Parse alg buf = Inr t \<Longrightarrow> inv t"
    and card_view: "inv s \<Longrightarrow> inv t \<Longrightarrow> view s = view t \<Longrightarrow>
      sk_Cardinality alg s = sk_Cardinality alg t"
    and algo_name: "inv s \<Longrightarrow> sk_AlgoName alg s = alg_Name alg"
    and join_assoc: "join (join a b) c = join a (join b c)"
    and join_commute: "join a b = join b a"
    and join_idem: "join a a = a"
    and join_bot: "inv s \<Longrightarrow> join (view s) bot = view s"
begin

lemma join_left_commute: "join a (join b c) = join b (join a c)"
  by (simp only: join_assoc [symmetric] join_commute [of a b])

lemma join_left_idem: "join a (join a b) = join a b"
  by (simp only: join_assoc [symmetric] join_idem)

lemmas join_ac = join_assoc join_commute join_left_commute

lemma bot_join: "inv s \<Longrightarrow> join bot (view s) = view s"
  by (simp only: join_commute [of bot] join_bot)

text \<open>Inserting ids one after the other.\<close>

definition add_all :: "u64 list \<Rightarrow> 's \<Rightarrow> 's" where
  "add_all xs s = fold (\<lambda>x s. sk_Add alg s x) xs s"

definition absorb :: "u64 list \<Rightarrow> 'v \<Rightarrow> 'v" where
  "absorb xs v = fold (\<lambda>x v. join v (point x)) xs v"

lemma add_all_simps [simp]:
  "add_all [] s = s" "add_all (x # xs) s = add_all xs (sk_Add alg s x)"
  by (simp_all add: add_all_def)

lemma absorb_simps [simp]:
  "absorb [] v = v" "absorb (x # xs) v = absorb xs (join v (point x))"
  by (simp_all add: absorb_def)

lemma add_all_append: "add_all (xs @ ys) s = add_all ys (add_all xs s)"
  by (simp add: add_all_def)

lemma absorb_append: "absorb (xs @ ys) v = absorb ys (absorb xs v)"
  by (simp add: absorb_def)

lemma absorb_join: "absorb xs (join a b) = join a (absorb xs b)"
  by (induction xs arbitrary: b) (simp_all add: join_assoc)

lemma inv_add_all: "inv s \<Longrightarrow> inv (add_all xs s)"
  by (induction xs arbitrary: s) (simp_all add: inv_add)

lemma view_add_all: "inv s \<Longrightarrow> view (add_all xs s) = absorb xs (view s)"
  by (induction xs arbitrary: s) (simp_all add: inv_add view_add)

lemma absorb_join_bot:
  "absorb ys (absorb xs bot) = join (absorb xs bot) (absorb ys bot)"
proof -
  have "absorb xs bot = view (add_all xs (alg_New alg))"
    by (simp add: view_add_all inv_new view_new)
  then have "join (absorb xs bot) bot = absorb xs bot"
    by (simp add: join_bot inv_add_all inv_new)
  then show ?thesis using absorb_join [of ys "absorb xs bot" bot] by simp
qed

text \<open>An id that is already in the list changes nothing, so only the set of ids counts.\<close>

lemma absorb_member: "x \<in> set xs \<Longrightarrow> join (absorb xs v) (point x) = absorb xs v"
proof (induction xs arbitrary: v)
  case (Cons y ys)
  show ?case
  proof (cases "x = y")
    case True
    have "join (absorb (y # ys) v) (point y) = absorb ys (join (point y) (join v (point y)))"
      by (simp only: absorb_simps absorb_join join_commute [of _ "point y"])
    also have "join (point y) (join v (point y)) = join v (point y)"
      by (simp only: join_commute [of v] join_left_idem)
    finally show ?thesis using True by simp
  next
    case False
    with Cons show ?thesis by simp
  qed
qed simp

lemma absorb_subset: "set xs \<subseteq> set ys \<Longrightarrow> absorb xs (absorb ys v) = absorb ys v"
  by (induction xs) (simp_all add: absorb_member)

lemma absorb_twice: "absorb xs (absorb ys v) = absorb ys (absorb xs v)"
proof (induction xs arbitrary: v)
  case (Cons x xs)
  have "join (absorb ys v) (point x) = absorb ys (join v (point x))"
    by (simp only: absorb_join join_commute [of _ "point x"])
  with Cons show ?case by simp
qed simp

lemma absorb_set_eq:
  assumes "set xs = set ys"
  shows "absorb xs v = absorb ys v"
proof -
  have "absorb xs v = absorb ys (absorb xs v)" using assms by (simp add: absorb_subset)
  also have "\<dots> = absorb xs (absorb ys v)" by (rule absorb_twice)
  also have "\<dots> = absorb ys v" using assms by (simp add: absorb_subset)
  finally show ?thesis .
qed

lemma add_all_set_eq:
  "inv s \<Longrightarrow> inv t \<Longrightarrow> view s = view t \<Longrightarrow> set xs = set ys \<Longrightarrow>
   view (add_all xs s) = view (add_all ys t)"
  by (simp add: view_add_all absorb_set_eq [of xs ys])

text \<open>Merging the sketches of two id lists gives the sketch of their union.\<close>

lemma merge_add_all:
  "\<exists>r. sk_Merge alg (add_all xs (alg_New alg)) (add_all ys (alg_New alg)) = Return r
     \<and> inv r \<and> view r = view (add_all (xs @ ys) (alg_New alg))"
proof -
  let ?s = "add_all xs (alg_New alg)" and ?t = "add_all ys (alg_New alg)"
  have s: "inv ?s" and t: "inv ?t" by (simp_all add: inv_add_all inv_new)
  then obtain r where r: "sk_Merge alg ?s ?t = Return r" "inv r" "view r = join (view ?s) (view ?t)"
    using merge_ok by blast
  have "view (add_all (xs @ ys) (alg_New alg)) = absorb ys (join (view ?s) bot)"
    using s by (simp add: add_all_append view_add_all join_bot)
  also have "\<dots> = join (view ?s) (view ?t)"
    by (simp add: absorb_join view_add_all inv_new view_new)
  finally show ?thesis using r by auto
qed

end

end
