(* ===== verification/Sketch_Values.thy ===== *)
theory Sketch_Values
  imports Sketch_Spec
begin

text \<open>
  The concrete sketch values of the two packages \<^verbatim>\<open>hll\<close> and \<^verbatim>\<open>bitmap\<close>, and the interface
  value that holds either of them: a Go interface value carries its dynamic type, which is what
  the type assertions in the two \<^verbatim>\<open>Merge\<close> methods inspect. The roaring bitmap library is
  outside the repository; its bitmap type is the parameter \<open>'rb\<close>.
\<close>

record hll_sketch =
  regs :: bytes
  idBuf :: bytes

record 'rb bitmap_sketch =
  rb :: 'rb

datatype 'rb Sketch = HLLSketch hll_sketch | BitmapSketch "'rb bitmap_sketch"

end
