(* ===== verification/Go_Float.thy ===== *)
theory Go_Float
  imports Complex_Main Tracker_Prelude
begin

text \<open>
  Go's \<^verbatim>\<open>float64\<close> arithmetic on the non-negative finite values the estimator computes with:
  the exact real result rounded to the nearest binary64 number, ties to even. Values beyond the
  largest finite number do not occur (the estimator stays below \<open>2 ^ 300\<close>), so infinities are
  left out. The facts used downstream are that rounding is monotone and that it is exact on
  numbers with at most 53 significant bits.
\<close>

section \<open>Rounding\<close>

definition round_half_even :: "real \<Rightarrow> int" where
  "round_half_even x =
     (let f = \<lfloor>x\<rfloor>; d = x - of_int f
      in if d < 1/2 then f else if 1/2 < d then f + 1 else if even f then f else f + 1)"

text \<open>Exponent of the unit in the last place of \<open>x\<close>; \<open>-1074\<close> is that of the subnormal numbers.\<close>

definition ulp_exp :: "real \<Rightarrow> int" where
  "ulp_exp x = max (- 1074) (\<lfloor>log 2 \<bar>x\<bar>\<rfloor> - 52)"

definition fl64 :: "real \<Rightarrow> real" where
  "fl64 x = (if x = 0 then 0
     else of_int (round_half_even (x / 2 powi ulp_exp x)) * 2 powi ulp_exp x)"

text \<open>\<^verbatim>\<open>math.Round\<close> on a non-negative value: to the nearest integer, halves up.\<close>

definition math_Round :: "real \<Rightarrow> real" where
  "math_Round x = of_int \<lfloor>x + 1/2\<rfloor>"

text \<open>
  The conversion \<^verbatim>\<open>uint64(f)\<close> truncates; the language leaves the result for a value outside
  the range of the type to the implementation, which is the parameter \<open>oob\<close>.
\<close>

definition uint64_of_float :: "(real \<Rightarrow> u64) \<Rightarrow> real \<Rightarrow> u64" where
  "uint64_of_float oob x = (if 0 \<le> x \<and> x < 2 ^ 64 then word_of_int \<lfloor>x\<rfloor> else oob x)"

lemma round_half_even_of_int [simp]: "round_half_even (of_int k) = k"
  by (simp add: round_half_even_def)

lemma round_half_even_mono: "x \<le> y \<Longrightarrow> round_half_even x \<le> round_half_even y"
proof -
  assume xy: "x \<le> y"
  then have f: "\<lfloor>x\<rfloor> \<le> \<lfloor>y\<rfloor>" by (rule floor_mono)
  show ?thesis
  proof (cases "\<lfloor>x\<rfloor> = \<lfloor>y\<rfloor>")
    case True
    then show ?thesis using xy by (auto simp: round_half_even_def Let_def)
  next
    case False
    with f have "\<lfloor>x\<rfloor> + 1 \<le> \<lfloor>y\<rfloor>" by simp
    then show ?thesis by (auto simp: round_half_even_def Let_def)
  qed
qed

lemma round_half_even_nonneg: "0 \<le> x \<Longrightarrow> 0 \<le> round_half_even x"
  using round_half_even_mono [of "of_int 0" x] by (metis of_int_0 round_half_even_of_int)

lemma fl64_0 [simp]: "fl64 0 = 0"
  by (simp add: fl64_def)

lemma fl64_nonneg: "0 \<le> x \<Longrightarrow> 0 \<le> fl64 x"
  by (simp add: fl64_def round_half_even_nonneg)

text \<open>Rounding is exact on the multiples of the unit in the last place.\<close>

lemma fl64_exact:
  assumes "x = of_int k * 2 powi m" and "ulp_exp x \<le> m"
  shows "fl64 x = x"
proof (cases "x = 0")
  case False
  define u :: real where "u = 2 powi ulp_exp x"
  define n where "n = nat (m - ulp_exp x)"
  have u: "u \<noteq> 0" by (simp add: u_def)
  have "m = int n + ulp_exp x" using assms(2) by (simp add: n_def)
  then have "(2::real) powi m = 2 ^ n * u" by (simp add: power_int_add u_def)
  then have "x = of_int (k * 2 ^ n) * u" using assms(1) by simp
  then have "x / u = of_int (k * 2 ^ n)" using u by (metis nonzero_mult_div_cancel_right)
  then have "round_half_even (x / u) = k * 2 ^ n" by (simp only: round_half_even_of_int)
  with \<open>x = of_int (k * 2 ^ n) * u\<close> False show ?thesis by (simp add: fl64_def u_def)
qed simp

lemma ulp_exp_le: "0 < x \<Longrightarrow> x < 2 powi (m + 53) \<Longrightarrow> - 1074 \<le> m \<Longrightarrow> ulp_exp x \<le> m"
proof -
  assume x: "0 < x" "x < 2 powi (m + 53)" "- 1074 \<le> m"
  have "x < 2 powr of_int (m + 53)" using x(2) by (subst powr_real_of_int') simp_all
  then have "log 2 x < of_int (m + 53)" using x(1) by (simp add: log_less_iff)
  then have "\<lfloor>log 2 x\<rfloor> < m + 53" by (simp add: floor_less_iff)
  then show ?thesis using x by (simp add: ulp_exp_def)
qed

lemma fl64_exact_bits:
  assumes "\<bar>k\<bar> < 2 ^ 53" and "- 1074 \<le> m" and "0 \<le> k"
  shows "fl64 (of_int k * 2 powi m) = of_int k * 2 powi m"
proof (cases "k = 0")
  case False
  then have pos: "0 < of_int k * (2::real) powi m" using assms by simp
  have "of_int k * (2::real) powi m < 2 ^ 53 * 2 powi m"
    using assms(1,3) by simp
  also have "\<dots> = 2 powi (m + 53)" by (simp add: power_int_add)
  finally have "ulp_exp (of_int k * 2 powi m) \<le> m"
    using pos assms(2) by (intro ulp_exp_le)
  then show ?thesis by (intro fl64_exact [OF refl])
qed simp

lemma fl64_of_nat: "n < 2 ^ 53 \<Longrightarrow> fl64 (of_nat n) = of_nat n"
  using fl64_exact_bits [of "int n" 0] by simp

lemma fl64_1 [simp]: "fl64 1 = 1"
  using fl64_of_nat [of 1] by simp

text \<open>Monotonicity: within one binade by the monotone integer rounding, across binades because
  the power of two between them is representable.\<close>

lemma powi_ulp_pos [simp]: "0 < (2::real) powi k"
  by simp

lemma ulp_exp_mono: "0 < x \<Longrightarrow> x \<le> y \<Longrightarrow> ulp_exp x \<le> ulp_exp y"
proof -
  assume "0 < x" "x \<le> y"
  then have "\<lfloor>log 2 x\<rfloor> \<le> \<lfloor>log 2 y\<rfloor>" by (intro floor_mono) simp
  with \<open>0 < x\<close> \<open>x \<le> y\<close> show ?thesis by (simp add: ulp_exp_def)
qed

lemma scaled_upper:
  assumes "0 < x" shows "x / 2 powi ulp_exp x \<le> of_int (2 ^ 53)"
proof -
  have "\<lfloor>log 2 x\<rfloor> + 1 \<le> ulp_exp x + 53" using assms by (simp add: ulp_exp_def)
  then have "log 2 x < of_int (ulp_exp x + 53)" by linarith
  then have "x < 2 powr of_int (ulp_exp x + 53)" using assms by (simp add: log_less_iff)
  also have "\<dots> = 2 powi (ulp_exp x + 53)" by (rule powr_real_of_int') simp_all
  also have "\<dots> = 2 ^ 53 * 2 powi ulp_exp x" by (simp add: power_int_add)
  finally show ?thesis by (simp add: divide_le_eq)
qed

lemma scaled_lower:
  assumes "0 < x" and "- 1074 < ulp_exp x" shows "of_int (2 ^ 52) \<le> x / 2 powi ulp_exp x"
proof -
  have "ulp_exp x + 52 = \<lfloor>log 2 x\<rfloor>" using assms by (simp add: ulp_exp_def max_def split: if_splits)
  then have "of_int (ulp_exp x + 52) \<le> log 2 x" by (simp only: of_int_floor_le)
  then have "2 powr of_int (ulp_exp x + 52) \<le> x" using assms by (simp add: le_log_iff)
  moreover have "2 powr of_int (ulp_exp x + 52) = (2::real) powi (ulp_exp x + 52)"
    by (rule powr_real_of_int') simp_all
  moreover have "\<dots> = 2 ^ 52 * 2 powi ulp_exp x" by (simp add: power_int_add)
  ultimately show ?thesis by (simp add: le_divide_eq)
qed

lemma fl64_mono_pos:
  assumes "0 < x" and "x \<le> y"
  shows "fl64 x \<le> fl64 y"
proof (cases "ulp_exp x = ulp_exp y")
  case True
  have "x / 2 powi ulp_exp y \<le> y / 2 powi ulp_exp y"
    using assms(2) by (simp add: divide_right_mono)
  then have "round_half_even (x / 2 powi ulp_exp y) \<le> round_half_even (y / 2 powi ulp_exp y)"
    by (rule round_half_even_mono)
  then show ?thesis using assms True by (simp add: fl64_def mult_right_mono)
next
  case False
  with ulp_exp_mono [OF assms] have lt: "ulp_exp x + 1 \<le> ulp_exp y" by simp
  have y: "0 < y" using assms by simp
  have "- 1074 \<le> ulp_exp x" by (simp add: ulp_exp_def)
  with lt have sub: "- 1074 < ulp_exp y" by simp
  have "fl64 x \<le> 2 ^ 53 * 2 powi ulp_exp x"
    using round_half_even_mono [OF scaled_upper [OF assms(1)]] assms(1)
    by (simp only: round_half_even_of_int) (simp add: fl64_def)
  also have "\<dots> = 2 ^ 52 * 2 powi (ulp_exp x + 1)" by (simp add: power_int_add)
  also have "\<dots> \<le> 2 ^ 52 * 2 powi ulp_exp y" using lt by (simp add: power_int_increasing)
  also have "\<dots> \<le> fl64 y"
    using round_half_even_mono [OF scaled_lower [OF y sub]] y
    by (simp only: round_half_even_of_int) (simp add: fl64_def)
  finally show ?thesis .
qed

lemma fl64_mono: "0 \<le> x \<Longrightarrow> x \<le> y \<Longrightarrow> fl64 x \<le> fl64 y"
  by (cases "x = 0") (auto intro: fl64_mono_pos fl64_nonneg)

lemma fl64_le_bits:
  "0 \<le> x \<Longrightarrow> x \<le> of_int k * 2 powi m \<Longrightarrow> \<bar>k\<bar> < 2 ^ 53 \<Longrightarrow> 0 \<le> k \<Longrightarrow> - 1074 \<le> m \<Longrightarrow>
   fl64 x \<le> of_int k * 2 powi m"
  using fl64_mono [of x "of_int k * 2 powi m"] by (simp add: fl64_exact_bits)

lemma fl64_ge_bits:
  "of_int k * 2 powi m \<le> x \<Longrightarrow> \<bar>k\<bar> < 2 ^ 53 \<Longrightarrow> 0 \<le> k \<Longrightarrow> - 1074 \<le> m \<Longrightarrow>
   of_int k * 2 powi m \<le> fl64 x"
  using fl64_mono [of "of_int k * 2 powi m" x] by (simp add: fl64_exact_bits)

lemma fl64_le_nat: "0 \<le> x \<Longrightarrow> x \<le> of_nat n \<Longrightarrow> n < 2 ^ 53 \<Longrightarrow> fl64 x \<le> of_nat n"
  using fl64_mono [of x "of_nat n"] by (simp add: fl64_of_nat)

lemma fl64_ge_nat: "of_nat n \<le> x \<Longrightarrow> n < 2 ^ 53 \<Longrightarrow> of_nat n \<le> fl64 x"
  using fl64_mono [of "of_nat n" x] by (simp add: fl64_of_nat)

lemma math_Round_0 [simp]: "math_Round 0 = 0"
  by (simp add: math_Round_def)

lemma math_Round_mono: "x \<le> y \<Longrightarrow> math_Round x \<le> math_Round y"
  by (simp add: math_Round_def floor_mono)

lemma uint64_of_float_0 [simp]: "uint64_of_float oob 0 = 0"
  by (simp add: uint64_of_float_def)

end
