(* ===== verification/HLL.thy ===== *)
theory HLL
  imports Sketch_Values Go_Float
begin

text \<open>
  Package \<^verbatim>\<open>internal/cardinality/hll\<close>: HyperLogLog with 14 bits of precision. The hash
  function \<^verbatim>\<open>murmur3.Sum64\<close> is outside the repository and a parameter, as are the last bits
  of \<^verbatim>\<open>math.Log\<close> and the implementation-defined conversion of an out-of-range float; the
  three are the fields of \<open>hll_env\<close>. The theory shows that a sketch is the pointwise maximum
  of the register values of its ids, so that insertion order and repetition do not matter and
  \<^verbatim>\<open>Merge\<close> is union, that the byte format round-trips, and what the estimator returns.
\<close>

section \<open>The operations\<close>

record hll_env =
  murmur3_Sum64 :: "bytes \<Rightarrow> u64"
  math_Log :: "real \<Rightarrow> real"
  float_oob :: "real \<Rightarrow> u64"

definition hll_algoName :: string where
  "hll_algoName = ''hll''"

definition precision :: nat where
  "precision = 14"

definition numRegs :: nat where
  "numRegs = push_bit precision 1"

definition alphaMM :: real where
  "alphaMM = fl64 (fl64 (fl64 (fl64 0.7213 / fl64 (1 + fl64 (fl64 1.079 / fl64 (real numRegs))))
     * real numRegs) * real numRegs)"

definition hll_New :: hll_sketch where
  "hll_New = \<lparr>regs = replicate numRegs 0, idBuf = replicate 8 0\<rparr>"

definition hll_Parse :: "bytes \<Rightarrow> go_error + hll_sketch" where
  "hll_Parse b =
     (if length b < 2 + numRegs then Inl ErrBufferTooShort
      else let p = Uint16 (take 2 b)
        in if p \<noteq> word_of_nat precision then Inl (ErrPrecisionMismatch p)
        else Inr (hll_New\<lparr>regs := go_copy (regs hll_New) (drop 2 b)\<rparr>))"

definition hll_idx :: "u64 \<Rightarrow> nat" where
  "hll_idx hash = unat (drop_bit (64 - precision) hash)"

definition hll_w :: "u64 \<Rightarrow> u64" where
  "hll_w hash = push_bit precision hash OR (push_bit precision 1 - 1)"

definition hll_rho :: "u64 \<Rightarrow> byte" where
  "hll_rho hash = word_of_nat (LeadingZeros64 (hll_w hash)) + 1"

definition hll_Add :: "hll_env \<Rightarrow> hll_sketch \<Rightarrow> u64 \<Rightarrow> hll_sketch" where
  "hll_Add env s x =
     (let s = s\<lparr>idBuf := PutUint64 x\<rparr>;
          hash = murmur3_Sum64 env (idBuf s);
          idx = hll_idx hash;
          rho = hll_rho hash
      in if regs s ! idx < rho then s\<lparr>regs := (regs s)[idx := rho]\<rparr> else s)"

text \<open>The loop of \<^verbatim>\<open>Cardinality\<close>: the sum of \<open>2\<close> to the negated registers, and the number of
  zero registers.\<close>

fun hll_sum :: "bytes \<Rightarrow> real \<Rightarrow> nat \<Rightarrow> real \<times> nat" where
  "hll_sum [] acc zeros = (acc, zeros)"
| "hll_sum (v # vs) acc zeros =
     hll_sum vs (fl64 (acc + 2 powi (- int (unat v)))) (if v = 0 then zeros + 1 else zeros)"

definition hll_Cardinality :: "hll_env \<Rightarrow> hll_sketch \<Rightarrow> u64" where
  "hll_Cardinality env s =
     (let (acc, zeros) = hll_sum (regs s) 0 0;
          est = fl64 (alphaMM / acc);
          est = (if est \<le> 2.5 * real numRegs \<and> 0 < zeros
                 then fl64 (real numRegs * math_Log env (fl64 (real numRegs / real zeros)))
                 else est)
      in uint64_of_float (float_oob env) (math_Round est))"

definition hll_merge_step :: "bytes \<Rightarrow> nat \<Rightarrow> bytes \<Rightarrow> bytes" where
  "hll_merge_step os i rs = (if rs ! i < os ! i then rs[i := os ! i] else rs)"

definition hll_Merge :: "hll_sketch \<Rightarrow> 'rb Sketch \<Rightarrow> hll_sketch outcome" where
  "hll_Merge s other =
     (case other of
        HLLSketch ov \<Rightarrow>
          Return (s\<lparr>regs := fold (hll_merge_step (regs ov)) [0..<length (regs s)] (regs s)\<rparr>)
      | BitmapSketch _ \<Rightarrow> Panic ''hll: merge with non-hll sketch'')"

definition hll_Bytes :: "hll_sketch \<Rightarrow> bytes" where
  "hll_Bytes s =
     (let b = replicate (2 + numRegs) 0
      in PutUint16 (word_of_nat precision) @ go_copy (drop 2 b) (regs s))"

definition hll_Clone :: "hll_sketch \<Rightarrow> hll_sketch" where
  "hll_Clone s = hll_New\<lparr>regs := go_copy (regs hll_New) (regs s)\<rparr>"

text \<open>The Go type of the struct: an array of \<^verbatim>\<open>numRegs\<close> registers and an 8-byte buffer.\<close>

definition hll_wf :: "hll_sketch \<Rightarrow> bool" where
  "hll_wf s \<longleftrightarrow> length (regs s) = numRegs \<and> length (idBuf s) = 8"

section \<open>Index and rank of a hash\<close>

lemma numRegs_eq: "numRegs = 16384"
  by (simp add: numRegs_def precision_def)

lemma numRegs_pos [simp]: "0 < numRegs"
  by (simp add: numRegs_eq)

lemma hll_idx_eq: "hll_idx h = unat h div 2 ^ 50"
  by (simp add: hll_idx_def precision_def drop_bit_eq_div unat_div)

lemma hll_idx_less [simp]: "hll_idx h < numRegs"
proof -
  have "unat h < 2 ^ 14 * 2 ^ 50" using unsigned_less [of h] by simp
  then have "unat h div 2 ^ 50 < 2 ^ 14" by (rule less_mult_imp_div_less)
  then show ?thesis by (simp add: hll_idx_eq numRegs_eq)
qed

lemma unat_hll_w: "unat (hll_w h) = unat (take_bit 50 h) * 2 ^ 14 + (2 ^ 14 - 1)"
proof -
  let ?L = "take_bit 50 (unat h)"
  have "(push_bit precision 1 - 1 :: u64) = mask 14"
    by (simp add: precision_def mask_eq_exp_minus_1)
  moreover have "unat (mask 14 :: u64) = mask 14"
    by (simp add: mask_eq_exp_minus_1)
  ultimately have "unat (hll_w h) = push_bit 14 ?L OR mask 14"
    by (simp add: hll_w_def precision_def unsigned_or_eq unsigned_push_bit_eq take_bit_push_bit)
  also have "\<dots> = push_bit 14 ?L + mask 14"
    by (rule disjunctive_add_eq_or [symmetric]) (auto simp: bit_eq_iff bit_simps)
  finally show ?thesis
    by (simp add: unsigned_take_bit_eq push_bit_eq_mult mask_eq_exp_minus_1)
qed

lemma leading_zeros_hll_w:
  assumes "n \<le> 50"
  shows "n \<le> LeadingZeros64 (hll_w h) \<longleftrightarrow> unat (take_bit 50 h) < 2 ^ (50 - n)"
proof -
  have "64 - n = (50 - n) + 14" using assms by simp
  then have "(2::nat) ^ (64 - n) = 2 ^ (50 - n) * 2 ^ 14" by (simp only: power_add)
  moreover have "unat (take_bit 50 h) * 2 ^ 14 + (2 ^ 14 - 1) < k * 2 ^ 14
    \<longleftrightarrow> unat (take_bit 50 h) < k" for k
    by auto
  ultimately show ?thesis
    using assms by (simp only: LeadingZeros64_ge_iff unat_hll_w)
qed

lemma leading_zeros_hll_w_le: "LeadingZeros64 (hll_w h) \<le> 50"
proof (rule ccontr)
  assume "\<not> ?thesis"
  then have "51 \<le> LeadingZeros64 (hll_w h)" by simp
  then show False by (subst (asm) LeadingZeros64_ge_iff) (simp_all add: unat_hll_w)
qed

lemma unat_hll_rho: "unat (hll_rho h) = Suc (LeadingZeros64 (hll_w h))"
proof -
  have "hll_rho h = word_of_nat (Suc (LeadingZeros64 (hll_w h)))" by (simp add: hll_rho_def)
  moreover have "Suc (LeadingZeros64 (hll_w h)) < 2 ^ 8" using leading_zeros_hll_w_le [of h] by simp
  ultimately show ?thesis by (simp add: unat_of_nat del: of_nat_Suc)
qed

lemma hll_rho_ge: "1 \<le> unat (hll_rho h)" and hll_rho_le: "unat (hll_rho h) \<le> 51"
  using leading_zeros_hll_w_le [of h] by (simp_all add: unat_hll_rho)

lemma hll_rho_pos [simp]: "0 < hll_rho h"
  using hll_rho_ge [of h] by (simp add: word_less_nat_alt)

lemma hll_rho_gt_iff: "n \<le> 50 \<Longrightarrow> n < unat (hll_rho h) \<longleftrightarrow> unat (take_bit 50 h) < 2 ^ (50 - n)"
  using leading_zeros_hll_w [of n h] by (simp add: unat_hll_rho less_Suc_eq_le)

section \<open>Registers as a join semilattice\<close>

definition join_regs :: "bytes \<Rightarrow> bytes \<Rightarrow> bytes" where
  "join_regs a b = map2 max a b"

definition hll_point :: "hll_env \<Rightarrow> u64 \<Rightarrow> bytes" where
  "hll_point env x =
     (let h = murmur3_Sum64 env (PutUint64 x) in (replicate numRegs 0)[hll_idx h := hll_rho h])"

lemma join_regs_assoc: "join_regs (join_regs a b) c = join_regs a (join_regs b c)"
  by (rule nth_equalityI) (auto simp: join_regs_def max.assoc)

lemma join_regs_commute: "join_regs a b = join_regs b a"
  by (rule nth_equalityI) (auto simp: join_regs_def max.commute)

lemma join_regs_idem: "join_regs a a = a"
  by (rule nth_equalityI) (auto simp: join_regs_def)

lemma join_regs_zero: "length a = numRegs \<Longrightarrow> join_regs a (replicate numRegs 0) = a"
  by (rule nth_equalityI) (auto simp: join_regs_def max_def)

lemma length_join_regs [simp]: "length (join_regs a b) = min (length a) (length b)"
  by (simp add: join_regs_def)

lemma nth_join_regs [simp]:
  "i < length a \<Longrightarrow> i < length b \<Longrightarrow> join_regs a b ! i = max (a ! i) (b ! i)"
  by (simp add: join_regs_def)

lemma length_hll_point [simp]: "length (hll_point env x) = numRegs"
  by (simp add: hll_point_def Let_def)

lemma hll_wf_New: "hll_wf hll_New"
  by (simp add: hll_wf_def hll_New_def)

lemma hll_wf_Add: "hll_wf s \<Longrightarrow> hll_wf (hll_Add env s x)"
  by (auto simp: hll_wf_def hll_Add_def Let_def)

lemma regs_hll_Add:
  assumes "hll_wf s"
  shows "regs (hll_Add env s x) = join_regs (regs s) (hll_point env x)"
proof (rule nth_equalityI)
  show "length (regs (hll_Add env s x)) = length (join_regs (regs s) (hll_point env x))"
    using assms by (simp add: hll_wf_def hll_Add_def Let_def)
  fix i assume "i < length (regs (hll_Add env s x))"
  then have "i < numRegs" using hll_wf_Add [OF assms, of env x] by (simp add: hll_wf_def)
  then show "regs (hll_Add env s x) ! i = join_regs (regs s) (hll_point env x) ! i"
    using assms
    by (cases "i = hll_idx (murmur3_Sum64 env (PutUint64 x))")
      (auto simp: hll_wf_def hll_Add_def hll_point_def Let_def max_def not_less)
qed

text \<open>The merge loop computes the pointwise maximum.\<close>

lemma hll_merge_loop:
  "n \<le> length rs \<Longrightarrow> length os = length rs \<Longrightarrow>
   fold (hll_merge_step os) [0..<n] rs = join_regs (take n rs) (take n os) @ drop n rs"
proof (induction n)
  case (Suc n)
  then have IH: "fold (hll_merge_step os) [0..<n] rs = join_regs (take n rs) (take n os) @ drop n rs"
    by simp
  let ?r = "join_regs (take n rs) (take n os) @ drop n rs"
  have "drop n rs = rs ! n # drop (Suc n) rs"
    using Suc.prems by (simp add: Cons_nth_drop_Suc)
  then have "hll_merge_step os n ?r = join_regs (take (Suc n) rs) (take (Suc n) os) @ drop (Suc n) rs"
    using Suc.prems
    by (auto simp: hll_merge_step_def join_regs_def take_Suc_conv_app_nth nth_append max_def
        list_update_append)
  with IH Suc.prems show ?case by simp
qed (simp add: join_regs_def)

lemma hll_Merge_HLL:
  "hll_wf s \<Longrightarrow> hll_wf t \<Longrightarrow>
   hll_Merge s (HLLSketch t) = Return (s\<lparr>regs := join_regs (regs s) (regs t)\<rparr>)"
  by (simp add: hll_Merge_def hll_wf_def hll_merge_loop)

section \<open>What a sketch holds\<close>

text \<open>
  The reference definition: register \<open>j\<close> of the sketch of a set of ids is the largest rank among
  the ids whose hash selects register \<open>j\<close>, and 0 when there is none.
\<close>

definition hll_hash :: "hll_env \<Rightarrow> u64 \<Rightarrow> u64" where
  "hll_hash env x = murmur3_Sum64 env (PutUint64 x)"

definition hll_register :: "hll_env \<Rightarrow> u64 set \<Rightarrow> nat \<Rightarrow> byte" where
  "hll_register env A j = Max (insert 0 {hll_rho (hll_hash env x) |x. x \<in> A \<and> hll_idx (hll_hash env x) = j})"

lemma nth_hll_point:
  "j < numRegs \<Longrightarrow> hll_point env x ! j
     = (if hll_idx (hll_hash env x) = j then hll_rho (hll_hash env x) else 0)"
  by (simp add: hll_point_def hll_hash_def Let_def nth_list_update)

lemma hll_register_empty: "hll_register env {} j = 0"
  by (simp add: hll_register_def)

lemma hll_register_insert:
  assumes "finite A" and "j < numRegs"
  shows "hll_register env (insert x A) j = max (hll_register env A j) (hll_point env x ! j)"
proof -
  let ?R = "\<lambda>A. {hll_rho (hll_hash env x) |x. x \<in> A \<and> hll_idx (hll_hash env x) = j}"
  have fin: "finite (?R A)" using assms(1) by simp
  show ?thesis
  proof (cases "hll_idx (hll_hash env x) = j")
    case True
    then have "insert 0 (?R (insert x A)) = insert (hll_rho (hll_hash env x)) (insert 0 (?R A))" by auto
    with fin True assms(2) show ?thesis
      by (simp add: hll_register_def nth_hll_point max.commute)
  next
    case False
    then have "?R (insert x A) = ?R A" by auto
    with fin False assms(2) show ?thesis
      by (simp add: hll_register_def nth_hll_point max_def)
  qed
qed

lemma hll_register_Un:
  assumes "finite A" and "finite B"
  shows "hll_register env (A \<union> B) j = max (hll_register env A j) (hll_register env B j)"
proof -
  let ?R = "\<lambda>A. {hll_rho (hll_hash env x) |x. x \<in> A \<and> hll_idx (hll_hash env x) = j}"
  have "insert 0 (?R (A \<union> B)) = insert 0 (?R A) \<union> insert 0 (?R B)" by auto
  then show ?thesis using assms by (simp only: hll_register_def) (rule Max_Un; simp)
qed

lemma hll_wf_fold: "hll_wf s \<Longrightarrow> hll_wf (fold (\<lambda>x s. hll_Add env s x) xs s)"
  by (induction xs arbitrary: s) (simp_all add: hll_wf_Add)

lemma hll_regs_fold:
  assumes "hll_wf s" and "\<And>j. j < numRegs \<Longrightarrow> regs s ! j = hll_register env A j" and "finite A"
    and "j < numRegs"
  shows "regs (fold (\<lambda>x s. hll_Add env s x) xs s) ! j = hll_register env (A \<union> set xs) j"
  using assms
proof (induction xs arbitrary: s A)
  case (Cons x xs)
  have "regs (hll_Add env s x) ! i = hll_register env (insert x A) i" if "i < numRegs" for i
    using that Cons.prems by (simp add: regs_hll_Add hll_wf_def hll_register_insert)
  with Cons.IH [of "hll_Add env s x" "insert x A"] Cons.prems show ?case
    by (simp add: hll_wf_Add)
qed simp

lemma hll_regs_eq:
  "regs (fold (\<lambda>x s. hll_Add env s x) xs hll_New) = map (hll_register env (set xs)) [0..<numRegs]"
proof (rule nth_equalityI)
  show len: "length (regs (fold (\<lambda>x s. hll_Add env s x) xs hll_New))
      = length (map (hll_register env (set xs)) [0..<numRegs])"
    using hll_wf_fold [OF hll_wf_New] by (simp add: hll_wf_def)
  fix j assume "j < length (regs (fold (\<lambda>x s. hll_Add env s x) xs hll_New))"
  then have "j < numRegs" using len by simp
  then show "regs (fold (\<lambda>x s. hll_Add env s x) xs hll_New) ! j
      = map (hll_register env (set xs)) [0..<numRegs] ! j"
    using hll_regs_fold [of hll_New env "{}" j xs]
    by (simp add: hll_wf_New hll_register_empty) (simp add: hll_New_def)
qed

section \<open>The byte format\<close>

lemma length_regs_New [simp]: "length (regs hll_New) = numRegs"
  by (simp add: hll_New_def)

lemma hll_Bytes_eq: "hll_wf s \<Longrightarrow> hll_Bytes s = PutUint16 14 @ regs s"
  by (simp add: hll_Bytes_def hll_wf_def precision_def)

lemma hll_Parse_eq:
  "hll_Parse b =
    (if length b < 2 + numRegs then Inl ErrBufferTooShort
     else if Uint16 (take 2 b) \<noteq> 14 then Inl (ErrPrecisionMismatch (Uint16 (take 2 b)))
     else Inr \<lparr>regs = take numRegs (drop 2 b), idBuf = replicate 8 0\<rparr>)"
  by (simp add: hll_Parse_def Let_def precision_def go_copy_long hll_New_def)

lemma hll_wf_Parse: "hll_Parse b = Inr s \<Longrightarrow> hll_wf s"
  by (auto simp: hll_Parse_eq hll_wf_def split: if_splits)

lemma hll_Parse_Bytes:
  "hll_wf s \<Longrightarrow> hll_Parse (hll_Bytes s @ rest) = Inr (s\<lparr>idBuf := replicate 8 0\<rparr>)"
  by (simp add: hll_Bytes_eq hll_Parse_eq hll_wf_def)

lemma hll_Clone_eq: "hll_wf s \<Longrightarrow> hll_Clone s = s\<lparr>idBuf := replicate 8 0\<rparr>"
  by (simp add: hll_Clone_def hll_wf_def hll_New_def)

lemma hll_wf_Clone: "hll_wf s \<Longrightarrow> hll_wf (hll_Clone s)"
  by (simp add: hll_Clone_eq) (simp add: hll_wf_def)

lemma regs_hll_Clone: "hll_wf s \<Longrightarrow> regs (hll_Clone s) = regs s"
  by (simp add: hll_Clone_eq)

lemma regs_hll_New: "regs hll_New = replicate numRegs 0"
  by (simp add: hll_New_def)

lemma join_regs_bot: "hll_wf s \<Longrightarrow> join_regs (regs s) (replicate numRegs 0) = regs s"
  by (simp add: hll_wf_def join_regs_zero)

section \<open>The estimator\<close>

lemma hll_sum_zeros:
  "snd (hll_sum vs acc z) = z + count_list vs 0"
  by (induction vs arbitrary: acc z) auto

lemma hll_sum_replicate_zero:
  "m + n < 2 ^ 53 \<Longrightarrow> fst (hll_sum (replicate n 0) (real m) z) = real (m + n)"
proof (induction n arbitrary: m z)
  case (Suc n)
  then have "fl64 (real m + 1) = real (Suc m)"
    using fl64_of_nat [of "Suc m"] by (simp add: add.commute)
  with Suc.IH [of "Suc m"] Suc.prems show ?case by simp
qed simp

lemma alphaMM_nonneg: "0 \<le> alphaMM"
  unfolding alphaMM_def
  by (intro fl64_nonneg mult_nonneg_nonneg divide_nonneg_nonneg add_nonneg_nonneg) simp_all

text \<open>The constant stays below three quarters of the square of the number of registers.\<close>

lemma alphaMM_le: "alphaMM \<le> 201326592"
proof -
  define a where "a = fl64 0.7213"
  define d where "d = fl64 (1 + fl64 (fl64 1.079 / fl64 (real numRegs)))"
  define q where "q = fl64 (a / d)"
  have a: "0 \<le> a" "a \<le> 3 / 4"
    using fl64_le_bits [of "0.7213" 3 "- 2"] by (simp_all add: a_def fl64_nonneg)
  have d: "1 \<le> d"
    using fl64_ge_nat [of 1] by (simp add: d_def fl64_nonneg)
  have "a / d \<le> a / 1" using a d by (intro divide_left_mono) simp_all
  then have "a / d \<le> 3 / 4" using a by linarith
  moreover have "of_int 3 * 2 powi (- 2) = (3 / 4 :: real)" by simp
  ultimately have "0 \<le> a / d" "a / d \<le> of_int 3 * 2 powi (- 2)" using a d by simp_all
  then have q: "0 \<le> q" "q \<le> 3 / 4"
    using fl64_le_bits [of "a / d" 3 "- 2"] by (simp_all add: q_def fl64_nonneg)
  then have r: "0 \<le> fl64 (q * real numRegs)" "fl64 (q * real numRegs) \<le> 12288"
    using fl64_le_nat [of "q * real numRegs" 12288] by (simp_all add: fl64_nonneg numRegs_eq)
  then have "fl64 (fl64 (q * real numRegs) * real numRegs) \<le> 201326592"
    using fl64_le_nat [of "fl64 (q * real numRegs) * real numRegs" 201326592]
    by (simp add: numRegs_eq)
  then show ?thesis by (simp add: alphaMM_def q_def a_def d_def)
qed

text \<open>A lower bound on the sum when every register is at most \<open>k\<close>.\<close>

lemma hll_sum_lower:
  assumes "\<forall>v \<in> set vs. unat v \<le> k" and "k \<le> 1000" and "n + length vs < 2 ^ 53"
    and "real n * 2 powi (- int k) \<le> acc"
  shows "real (n + length vs) * 2 powi (- int k) \<le> fst (hll_sum vs acc z)"
  using assms
proof (induction vs arbitrary: n acc z)
  case (Cons v vs)
  have "unat v \<le> k" using Cons.prems(1) by simp
  then have "- int k \<le> - int (unat v)" by (simp only: neg_le_iff_le of_nat_le_iff)
  then have "2 powi (- int k) \<le> (2::real) powi (- int (unat v))"
    by (rule power_int_increasing) simp
  with Cons.prems(4) have "of_int (int (Suc n)) * 2 powi (- int k) \<le> acc + 2 powi (- int (unat v))"
    by (simp add: algebra_simps)
  then have "of_int (int (Suc n)) * 2 powi (- int k) \<le> fl64 (acc + 2 powi (- int (unat v)))"
    using Cons.prems(2,3) by (intro fl64_ge_bits) simp_all
  then have "real (Suc n + length vs) * 2 powi (- int k)
      \<le> fst (hll_sum vs (fl64 (acc + 2 powi (- int (unat v)))) (if v = 0 then z + 1 else z))"
    using Cons.prems by (intro Cons.IH) simp_all
  then show ?case by simp
qed simp

lemma hll_est_bound:
  assumes "hll_wf s" and "\<forall>v \<in> set (regs s). unat v \<le> 50"
  shows "0 \<le> fl64 (alphaMM / fst (hll_sum (regs s) 0 0))"
    and "fl64 (alphaMM / fst (hll_sum (regs s) 0 0)) \<le> 3 * 2 ^ 62"
proof -
  let ?S = "fst (hll_sum (regs s) 0 0)"
  have S: "1 / 2 ^ 36 \<le> ?S"
    using hll_sum_lower [of "regs s" 50 0 0 0] assms
    by (simp add: hll_wf_def numRegs_eq power_int_minus)
  then have pos: "0 < ?S" by (rule less_le_trans [rotated]) simp
  have "alphaMM / ?S \<le> 201326592 / (1 / 2 ^ 36)"
    using S pos alphaMM_le alphaMM_nonneg by (intro frac_le) simp_all
  moreover have "0 \<le> alphaMM / ?S" using pos alphaMM_nonneg by simp
  ultimately show "0 \<le> fl64 (alphaMM / ?S)" "fl64 (alphaMM / ?S) \<le> 3 * 2 ^ 62"
    using fl64_le_bits [of "alphaMM / ?S" 3 62] by (simp_all add: fl64_nonneg)
qed

text \<open>The documented behaviour of \<^verbatim>\<open>math.Log\<close> the estimator relies on: the logarithm of 1 is 0,
  it is monotone from there on, and at the number of registers it is still below that number.\<close>

definition log_spec :: "(real \<Rightarrow> real) \<Rightarrow> bool" where
  "log_spec f \<longleftrightarrow> f 1 = 0 \<and> (\<forall>x y. 1 \<le> x \<longrightarrow> x \<le> y \<longrightarrow> f x \<le> f y)
     \<and> f (real numRegs) \<le> real numRegs"

lemma log_spec_rounded_ln: "log_spec (\<lambda>x. fl64 (ln x))"
proof -
  have "ln (real numRegs) \<le> real numRegs" using ln_le_minus_one [of "real numRegs"] by simp
  then have "fl64 (ln (real numRegs)) \<le> real numRegs"
    by (intro fl64_le_nat) (simp_all add: numRegs_eq)
  then show ?thesis by (auto simp: log_spec_def intro: fl64_mono)
qed

definition hll_linear :: "hll_sketch \<Rightarrow> bool" where
  "hll_linear s \<longleftrightarrow> fl64 (alphaMM / fst (hll_sum (regs s) 0 0)) \<le> 2.5 * real numRegs
     \<and> 0 \<in> set (regs s)"

lemma hll_Cardinality_cases:
  "hll_Cardinality env s = uint64_of_float (float_oob env) (math_Round
     (if hll_linear s
      then fl64 (real numRegs * math_Log env (fl64 (real numRegs / real (count_list (regs s) 0))))
      else fl64 (alphaMM / fst (hll_sum (regs s) 0 0))))"
proof -
  have "snd (hll_sum (regs s) 0 0) = count_list (regs s) 0"
    by (simp add: hll_sum_zeros)
  then show ?thesis
    by (auto simp: hll_Cardinality_def hll_linear_def case_prod_beta Let_def count_list_0_iff
        simp flip: neq0_conv)
qed

lemma linear_est_bounds:
  assumes "hll_wf s" and "log_spec f" and "0 \<in> set (regs s)"
  shows "0 \<le> fl64 (real numRegs * f (fl64 (real numRegs / real (count_list (regs s) 0))))"
    and "fl64 (real numRegs * f (fl64 (real numRegs / real (count_list (regs s) 0)))) \<le> 268435456"
proof -
  let ?z = "count_list (regs s) 0"
  let ?r = "fl64 (real numRegs / real ?z)"
  have z: "0 < ?z" "?z \<le> numRegs"
    using assms(1,3) count_le_length [of "regs s" 0] by (auto simp: hll_wf_def count_list_0_iff simp flip: neq0_conv)
  then have "1 \<le> real numRegs / real ?z" "real numRegs / real ?z \<le> real numRegs"
    by (simp_all add: le_divide_eq divide_le_eq)
  then have r: "1 \<le> ?r" "?r \<le> real numRegs"
    using fl64_ge_nat [of 1 "real numRegs / real ?z"] fl64_le_nat [of "real numRegs / real ?z" numRegs]
    by (simp_all add: numRegs_eq)
  then have f: "0 \<le> f ?r" "f ?r \<le> real numRegs"
    using assms(2) unfolding log_spec_def by (metis order_refl, metis order_trans)
  then have "real numRegs * f ?r \<le> 268435456" by (simp add: numRegs_eq)
  with f show "0 \<le> fl64 (real numRegs * f ?r)" "fl64 (real numRegs * f ?r) \<le> 268435456"
    using fl64_le_nat [of "real numRegs * f ?r" 268435456] by (simp_all add: fl64_nonneg)
qed

lemma hll_sum_antimono:
  assumes "list_all2 (\<le>) vs ws" and "b \<le> a" and "0 \<le> b"
  shows "fst (hll_sum ws b y) \<le> fst (hll_sum vs a z)"
  using assms
proof (induction vs ws arbitrary: a b y z rule: list_all2_induct)
  case (Cons v vs w ws)
  then have "unat v \<le> unat w" by (simp add: word_le_nat_alt)
  then have "- int (unat w) \<le> - int (unat v)" by (simp only: neg_le_iff_le of_nat_le_iff)
  then have "(2::real) powi (- int (unat w)) \<le> 2 powi (- int (unat v))"
    by (rule power_int_increasing) simp
  with Cons.prems have "fl64 (b + 2 powi (- int (unat w))) \<le> fl64 (a + 2 powi (- int (unat v)))"
    by (intro fl64_mono) simp_all
  with Cons.prems show ?case by (simp add: Cons.IH fl64_nonneg)
qed simp

lemma count_zero_antimono:
  "list_all2 (\<le>) vs (ws :: bytes) \<Longrightarrow> count_list ws 0 \<le> count_list vs 0"
  by (induction rule: list_all2_induct) (auto simp: word_le_nat_alt unat_eq_zero)

lemma uint64_of_float_mono:
  assumes "0 \<le> x" and "x \<le> y" and "y < 2 ^ 64"
  shows "uint64_of_float oob x \<le> uint64_of_float oob y"
proof -
  have "0 \<le> \<lfloor>x\<rfloor>" "\<lfloor>x\<rfloor> \<le> \<lfloor>y\<rfloor>" "\<lfloor>y\<rfloor> < 2 ^ 64"
    using assms by (simp_all add: floor_mono floor_less_iff)
  then show ?thesis
    using assms by (simp add: uint64_of_float_def word_le_def uint_word_of_int_eq take_bit_int_eq_self)
qed

definition hll_estimate :: "hll_env \<Rightarrow> hll_sketch \<Rightarrow> real" where
  "hll_estimate env s =
     (if hll_linear s
      then fl64 (real numRegs * math_Log env (fl64 (real numRegs / real (count_list (regs s) 0))))
      else fl64 (alphaMM / fst (hll_sum (regs s) 0 0)))"

lemma hll_Cardinality_estimate:
  "hll_Cardinality env s = uint64_of_float (float_oob env) (math_Round (hll_estimate env s))"
  by (simp add: hll_Cardinality_cases hll_estimate_def)

lemma hll_estimate_range:
  assumes "hll_wf s" and "\<forall>v \<in> set (regs s). unat v \<le> 50" and "log_spec (math_Log env)"
  shows "0 \<le> hll_estimate env s" and "hll_estimate env s \<le> 3 * 2 ^ 62"
  using hll_est_bound [OF assms(1,2)] linear_est_bounds [OF assms(1,3)]
  by (auto simp: hll_estimate_def hll_linear_def)

lemma math_Round_range:
  "0 \<le> x \<Longrightarrow> x \<le> 3 * 2 ^ 62 \<Longrightarrow> 0 \<le> math_Round x \<and> math_Round x < 2 ^ 64"
proof -
  assume "0 \<le> x" "x \<le> 3 * 2 ^ 62"
  then have "x + 1 / 2 < 2 ^ 64" by simp
  then have "of_int \<lfloor>x + 1 / 2\<rfloor> < (2 ^ 64 :: real)"
    using of_int_floor_le [of "x + 1 / 2"] by (rule le_less_trans [rotated])
  then show ?thesis using \<open>0 \<le> x\<close> by (simp add: math_Round_def)
qed

lemma hll_estimate_mono:
  assumes wf: "hll_wf s" "hll_wf t" and le: "list_all2 (\<le>) (regs s) (regs t)"
    and small: "\<forall>v \<in> set (regs t). unat v \<le> 50" and spec: "log_spec (math_Log env)"
    and same: "hll_linear s = hll_linear t"
  shows "hll_estimate env s \<le> hll_estimate env t"
proof (cases "hll_linear t")
  case True
  let ?z = "\<lambda>s. real (count_list (regs s) 0)"
  have t: "0 < ?z t" "?z t \<le> ?z s"
    using True count_zero_antimono [OF le]
    by (simp_all add: hll_linear_def count_list_0_iff flip: neq0_conv)
  moreover have "?z s \<le> real numRegs"
    using wf(1) count_le_length [of "regs s" 0] by (simp add: hll_wf_def)
  ultimately have "1 \<le> real numRegs / ?z s"
    by (simp add: le_divide_eq)
  moreover have "real numRegs / ?z s \<le> real numRegs / ?z t"
    using t by (intro divide_left_mono mult_pos_pos) simp_all
  ultimately have "1 \<le> real numRegs / ?z s" "real numRegs / ?z s \<le> real numRegs / ?z t"
    by simp_all
  then have "1 \<le> fl64 (real numRegs / ?z s)" "fl64 (real numRegs / ?z s) \<le> fl64 (real numRegs / ?z t)"
    using fl64_ge_nat [of 1 "real numRegs / ?z s"] by (simp_all add: fl64_mono)
  then have "0 \<le> math_Log env (fl64 (real numRegs / ?z s))"
    "math_Log env (fl64 (real numRegs / ?z s)) \<le> math_Log env (fl64 (real numRegs / ?z t))"
    using spec unfolding log_spec_def by (metis order_refl, metis)
  then show ?thesis
    using True same by (simp add: hll_estimate_def fl64_mono)
next
  case False
  have "1 / 2 ^ 36 \<le> fst (hll_sum (regs t) 0 0)"
    using hll_sum_lower [of "regs t" 50 0 0 0] wf(2) small
    by (simp add: hll_wf_def numRegs_eq power_int_minus)
  then have "0 < fst (hll_sum (regs t) 0 0)" by (rule less_le_trans [rotated]) simp
  with hll_sum_antimono [OF le, of 0 0] alphaMM_nonneg
  have "0 \<le> alphaMM / fst (hll_sum (regs s) 0 0)"
    "alphaMM / fst (hll_sum (regs s) 0 0) \<le> alphaMM / fst (hll_sum (regs t) 0 0)"
    by (simp_all add: divide_nonneg_nonneg frac_le order_trans [of 0 "fst (hll_sum (regs t) 0 0)"])
  then show ?thesis
    using False same by (simp add: hll_estimate_def fl64_mono)
qed

lemma real_hll_Cardinality:
  assumes "hll_wf s" and "\<forall>v \<in> set (regs s). unat v \<le> 50" and "log_spec (math_Log env)"
  shows "real (unat (hll_Cardinality env s)) = math_Round (hll_estimate env s)"
proof -
  let ?k = "\<lfloor>hll_estimate env s + 1 / 2\<rfloor>"
  have r: "0 \<le> math_Round (hll_estimate env s)" "math_Round (hll_estimate env s) < 2 ^ 64"
    using math_Round_range [OF hll_estimate_range [OF assms]] by simp_all
  then have k: "0 \<le> ?k" "?k < 2 ^ 64" by (simp_all add: math_Round_def)
  then have "unat (hll_Cardinality env s) = nat ?k"
    using r by (simp add: hll_Cardinality_estimate uint64_of_float_def math_Round_def
        unat_eq_nat_uint uint_word_of_int_eq take_bit_int_eq_self)
  with k show ?thesis by (simp add: math_Round_def)
qed

lemma regs_le_Add: "hll_wf s \<Longrightarrow> list_all2 (\<le>) (regs s) (regs (hll_Add env s x))"
  by (simp add: list_all2_conv_all_nth regs_hll_Add hll_wf_def)

lemma hll_linear_small:
  assumes "hll_wf s" and "\<forall>v \<in> set (regs s). unat v \<le> 1"
  shows "fl64 (alphaMM / fst (hll_sum (regs s) 0 0)) \<le> 24576"
proof -
  let ?S = "fst (hll_sum (regs s) 0 0)"
  have S: "8192 \<le> ?S"
    using hll_sum_lower [of "regs s" 1 0 0 0] assms by (simp add: hll_wf_def numRegs_eq)
  have "alphaMM / ?S \<le> 201326592 / 8192"
    using S alphaMM_le alphaMM_nonneg by (intro frac_le) simp_all
  moreover have "0 \<le> alphaMM / ?S" using S alphaMM_nonneg by simp
  ultimately show ?thesis using fl64_le_nat [of "alphaMM / ?S" 24576] by simp
qed

section \<open>Properties\<close>

text \<open>C6: after inserting any sequence of ids into a new sketch, the registers are exactly the
  reference registers of the set of ids: the maximum rank per register. Order and repetition of
  the insertions leave no trace.\<close>

theorem hll_registers_spec:
  "regs (fold (\<lambda>x s. hll_Add env s x) xs hll_New) = map (hll_register env (set xs)) [0..<numRegs]"
  by (rule hll_regs_eq)

text \<open>C21: for every 64-bit hash the register index is in range (no index panic), and the rank
  stored is one more than the number of leading zeros of the low 50 bits of the hash, between
  1 and 51, so the conversion to \<^verbatim>\<open>uint8\<close> never wraps.\<close>

theorem hll_rank_spec:
  "hll_idx h < numRegs
   \<and> unat (hll_rho h) = Suc (50 - Len64 (take_bit 50 h))
   \<and> 1 \<le> unat (hll_rho h) \<and> unat (hll_rho h) \<le> 51"
proof -
  have "n < unat (hll_rho h) \<longleftrightarrow> n < Suc (50 - Len64 (take_bit 50 h))" for n
  proof (cases "n \<le> 50")
    case True
    have "Len64 (take_bit 50 h) \<le> 50"
      using take_bit_nat_less_exp [of 50 "unat h"] by (simp add: Len64_le_iff unsigned_take_bit_eq)
    with True show ?thesis by (auto simp: hll_rho_gt_iff Len64_le_iff [symmetric])
  next
    case False
    then show ?thesis using hll_rho_le [of h] by simp
  qed
  then have "unat (hll_rho h) = Suc (50 - Len64 (take_bit 50 h))"
    by (meson less_irrefl linorder_neqE_nat)
  then show ?thesis using hll_rho_le [of h] by simp
qed

text \<open>C22: \<^verbatim>\<open>Parse\<close> accepts a buffer exactly when it starts with the serialisation of some sketch;
  it then returns that sketch (with a zero scratch buffer) and ignores what follows. In
  particular \<^verbatim>\<open>Parse\<close> inverts \<^verbatim>\<open>Bytes\<close>.\<close>

theorem hll_Parse_iff_Bytes:
  "hll_Parse b = Inr s \<longleftrightarrow>
     hll_wf s \<and> idBuf s = replicate 8 0 \<and> (\<exists>rest. b = hll_Bytes s @ rest)"
proof
  assume p: "hll_Parse b = Inr s"
  then have wf: "hll_wf s" by (rule hll_wf_Parse)
  from p have len: "2 + numRegs \<le> length b" and hdr: "Uint16 (take 2 b) = 14"
    and s: "s = \<lparr>regs = take numRegs (drop 2 b), idBuf = replicate 8 0\<rparr>"
    by (auto simp: hll_Parse_eq split: if_splits)
  have "take 2 b = PutUint16 14" using len hdr by (intro PutUint16_Uint16) simp_all
  then have "b = PutUint16 14 @ take numRegs (drop 2 b) @ drop numRegs (drop 2 b)"
    by (metis append_take_drop_id)
  then have "b = hll_Bytes s @ drop numRegs (drop 2 b)"
    using wf s by (simp add: hll_Bytes_eq)
  with wf s show "hll_wf s \<and> idBuf s = replicate 8 0 \<and> (\<exists>rest. b = hll_Bytes s @ rest)" by auto
qed (auto simp: hll_Parse_Bytes)

text \<open>C12: merging the sketches of two id sequences with \<^verbatim>\<open>Merge\<close> returns a sketch with the
  registers of the union of their ids.\<close>

theorem hll_Merge_union:
  "\<exists>r. hll_Merge (fold (\<lambda>x s. hll_Add env s x) xs hll_New)
         (HLLSketch (fold (\<lambda>x s. hll_Add env s x) ys hll_New) :: 'rb Sketch) = Return r
     \<and> regs r = map (hll_register env (set xs \<union> set ys)) [0..<numRegs]"
  by (simp add: hll_Merge_HLL hll_wf_fold hll_wf_New hll_regs_eq join_regs_def hll_register_Un
      map2_map_map)

text \<open>The estimate of an empty sketch is 0.\<close>

lemma hll_Cardinality_New: "log_spec (math_Log env) \<Longrightarrow> hll_Cardinality env hll_New = 0"
proof -
  assume spec: "log_spec (math_Log env)"
  have total: "fst (hll_sum (regs hll_New) 0 0) = real numRegs"
    using hll_sum_replicate_zero [of 0 numRegs 0] by (simp add: hll_New_def numRegs_eq)
  have "alphaMM / real numRegs \<le> real 12288" using alphaMM_le by (simp add: numRegs_eq)
  then have "fl64 (alphaMM / real numRegs) \<le> 12288"
    using fl64_le_nat [of "alphaMM / real numRegs" 12288] alphaMM_nonneg by simp
  then have "hll_linear hll_New" using total by (simp add: hll_linear_def) (simp add: hll_New_def numRegs_eq)
  moreover have "count_list (regs hll_New) 0 = numRegs" by (simp add: hll_New_def)
  ultimately have "hll_estimate env hll_New = 0"
    using spec by (simp add: hll_estimate_def log_spec_def)
  then show ?thesis by (simp add: hll_Cardinality_estimate)
qed

definition example_env :: "u64 \<Rightarrow> hll_env" where
  "example_env h = \<lparr>murmur3_Sum64 = (\<lambda>_. h), math_Log = (\<lambda>x. fl64 (ln x)), float_oob = (\<lambda>_. 0)\<rparr>"

lemma example_env_log: "log_spec (math_Log (example_env h))"
  by (simp add: example_env_def log_spec_rounded_ln)

lemma hll_Cardinality_New_example: "hll_Cardinality (example_env 0) hll_New = 0"
  by (rule hll_Cardinality_New) (rule example_env_log)

text \<open>C35: as long as no register exceeds 50, the estimate fits in 64 bits: \<^verbatim>\<open>Cardinality\<close> returns
  the rounded estimate itself, on every platform, whichever branch of the small-range correction
  is taken.\<close>

theorem hll_Cardinality_exact:
  assumes "hll_wf s" and "\<forall>v \<in> set (regs s). unat v \<le> 50" and "log_spec (math_Log env)"
  shows "real (unat (hll_Cardinality env s)) = math_Round (hll_estimate env s)"
  using assms by (rule real_hll_Cardinality)

theorem hll_Cardinality_exact_witness:
  "real (unat (hll_Cardinality (example_env 0) hll_New)) = math_Round (hll_estimate (example_env 0) hll_New)"
  by (rule hll_Cardinality_exact [OF hll_wf_New _ example_env_log]) (simp add: hll_New_def)

text \<open>C36: inserting an id never lowers the reported cardinality as long as the insertion does not
  cross the boundary between linear counting and the raw estimate.\<close>

theorem hll_Cardinality_Add_mono:
  assumes "hll_wf s" and "\<forall>v \<in> set (regs s). unat v \<le> 50"
    and "\<forall>v \<in> set (regs (hll_Add env s x)). unat v \<le> 50"
    and "log_spec (math_Log env)" and "hll_linear (hll_Add env s x) = hll_linear s"
  shows "hll_Cardinality env s \<le> hll_Cardinality env (hll_Add env s x)"
proof -
  have "hll_estimate env s \<le> hll_estimate env (hll_Add env s x)"
    using assms by (intro hll_estimate_mono hll_wf_Add regs_le_Add) simp_all
  then have "real (unat (hll_Cardinality env s)) \<le> real (unat (hll_Cardinality env (hll_Add env s x)))"
    using real_hll_Cardinality [OF assms(1,2,4)]
      real_hll_Cardinality [OF hll_wf_Add [OF assms(1)] assms(3,4)]
    by (simp only: math_Round_mono)
  then show ?thesis by (simp only: of_nat_le_iff word_le_nat_alt)
qed

lemma regs_Add_New_ones:
  "regs (hll_Add (example_env (- 1)) hll_New x) = (replicate numRegs 0)[hll_idx (- 1) := hll_rho (- 1)]"
  using hll_rho_pos [of "- 1"]
  by (simp add: hll_Add_def Let_def example_env_def hll_New_def)

lemma hll_rho_ones: "hll_rho (- 1) = 1"
proof -
  have "\<not> 1 < unat (hll_rho (- 1))" by (simp add: hll_rho_gt_iff mask_eq_exp_minus_1)
  then have "unat (hll_rho (- 1)) = 1" using hll_rho_ge [of "- 1"] by simp
  then show ?thesis by (simp add: word_unat_eq_iff)
qed

theorem hll_Cardinality_Add_mono_witness:
  "hll_Cardinality (example_env (- 1)) hll_New
     \<le> hll_Cardinality (example_env (- 1)) (hll_Add (example_env (- 1)) hll_New 7)"
proof (rule hll_Cardinality_Add_mono [OF hll_wf_New _ _ example_env_log])
  let ?t = "hll_Add (example_env (- 1)) hll_New 7"
  have small: "\<forall>v \<in> set (regs ?t). unat v \<le> 1"
    using set_update_subset_insert [of "replicate numRegs 0" "hll_idx (- 1)" "1 :: byte"]
    by (auto simp: regs_Add_New_ones hll_rho_ones)
  then show "\<forall>v \<in> set (regs ?t). unat v \<le> 50" by fastforce
  have "hll_idx (- 1) \<noteq> 0"
    by (simp add: hll_idx_eq unsigned_minus_1_eq_mask mask_eq_exp_minus_1)
  then have "regs ?t ! 0 = 0" "0 < length (regs ?t)" by (simp_all add: regs_Add_New_ones)
  then have "0 \<in> set (regs ?t)" by (metis nth_mem)
  moreover have "0 \<in> set (regs hll_New)" by (simp add: hll_New_def numRegs_eq)
  moreover have "\<forall>v \<in> set (regs hll_New). unat v \<le> 1" by (simp add: hll_New_def)
  ultimately show "hll_linear ?t = hll_linear hll_New"
    using hll_linear_small [of ?t] hll_linear_small [of hll_New] small
    by (simp add: hll_linear_def hll_wf_New hll_wf_Add numRegs_eq)
qed (simp add: hll_New_def)

text \<open>C40: across that boundary the reported cardinality can drop. When the last empty register of
  a sketch is filled while the raw estimate is still in the small range, \<^verbatim>\<open>Cardinality\<close> switches
  from linear counting to the raw estimate, which is several times smaller.\<close>

theorem hll_Cardinality_Add_can_drop:
  assumes "log_spec (math_Log env)" and "2 \<le> math_Log env (real numRegs)"
    and "hll_rho (hll_hash env x) = 1"
  shows "\<exists>s. hll_wf s \<and> hll_Cardinality env (hll_Add env s x) < hll_Cardinality env s"
proof -
  define i where "i = hll_idx (hll_hash env x)"
  define s where "s = hll_New\<lparr>regs := (replicate numRegs 1)[i := 0]\<rparr>"
  have i: "i < numRegs" by (simp add: i_def)
  have wf: "hll_wf s" by (simp add: hll_wf_def s_def hll_New_def)
  have ones: "regs (hll_Add env s x) = replicate numRegs 1"
    using assms(3) i list_update_id [of "replicate numRegs 1" i]
    by (simp add: hll_Add_def Let_def s_def i_def hll_hash_def)
  have small: "\<forall>v \<in> set (regs s). unat v \<le> 1"
    using set_update_subset_insert [of "replicate numRegs 1" i "0 :: byte"] by (auto simp: s_def)
  have zero: "0 \<in> set (regs s)" using i by (simp add: s_def set_update_memI)
  have cnt: "count_list (regs s) 0 = 1" using i by (simp add: s_def upd_conv_take_nth_drop)
  have lin: "hll_linear s"
    using hll_linear_small [OF wf small] zero by (simp add: hll_linear_def numRegs_eq)
  have "32768 \<le> real numRegs * math_Log env (real numRegs)"
    using assms(2) by (simp add: numRegs_eq)
  then have hi: "32768 \<le> hll_estimate env s"
    using lin cnt fl64_ge_nat [of 32768] fl64_of_nat [of numRegs]
    by (simp add: hll_estimate_def numRegs_eq)
  have "hll_estimate env (hll_Add env s x) \<le> 24576"
    using hll_linear_small [OF hll_wf_Add [OF wf, of env x]] ones by (simp add: hll_estimate_def hll_linear_def)
  then have "math_Round (hll_estimate env (hll_Add env s x)) \<le> 24576"
    using math_Round_mono [of _ 24576] by (simp add: math_Round_def)
  moreover have "32768 \<le> math_Round (hll_estimate env s)"
    using math_Round_mono [OF hi] by (simp add: math_Round_def)
  ultimately have "real (unat (hll_Cardinality env (hll_Add env s x))) < real (unat (hll_Cardinality env s))"
    using real_hll_Cardinality [OF wf _ assms(1)] real_hll_Cardinality [OF hll_wf_Add [OF wf] _ assms(1)]
      small ones by fastforce
  then show ?thesis using wf by (metis of_nat_less_iff word_less_nat_alt)
qed

theorem hll_Cardinality_Add_can_drop_witness:
  "\<exists>s. hll_wf s \<and> hll_Cardinality (example_env (- 1)) (hll_Add (example_env (- 1)) s 7)
     < hll_Cardinality (example_env (- 1)) s"
proof (rule hll_Cardinality_Add_can_drop [OF example_env_log])
  have "exp 2 = exp 1 * exp (1 :: real)" by (simp flip: exp_add)
  also have "\<dots> \<le> 3 * 3" using exp_le by (intro mult_mono) simp_all
  finally have "2 \<le> ln (real numRegs)" by (subst ln_ge_iff) (simp_all add: numRegs_eq)
  then show "2 \<le> math_Log (example_env (- 1)) (real numRegs)"
    using fl64_ge_nat [of 2 "ln (real numRegs)"] by (simp add: example_env_def)
  show "hll_rho (hll_hash (example_env (- 1)) 7) = 1"
    by (simp add: hll_hash_def example_env_def hll_rho_ones)
qed

end
