(* ===== verification/Bitmap.thy ===== *)
theory Bitmap
  imports Sketch_Values
begin

text \<open>
  Package \<^verbatim>\<open>internal/cardinality/bitmap\<close>: the exact sketch, a thin layer over the roaring64
  library. The library is outside the repository; its operations are the fields of the record
  \<open>roaring64\<close> and its documented behaviour is the locale \<open>roaring_spec\<close>, stated through the set
  of values a bitmap holds. A reference bitmap (a set of 64-bit values) shows that the
  behaviour can be implemented.
\<close>

section \<open>The library interface\<close>

record 'rb roaring64 =
  rb_New :: 'rb
  rb_Add :: "'rb \<Rightarrow> u64 \<Rightarrow> 'rb"
  rb_GetCardinality :: "'rb \<Rightarrow> u64"
  rb_MarshalBinary :: "'rb \<Rightarrow> bytes \<times> err"
  rb_UnmarshalBinary :: "'rb \<Rightarrow> bytes \<Rightarrow> 'rb \<times> err"
  rb_Clone :: "'rb \<Rightarrow> 'rb"
  rb_Or :: "'rb \<Rightarrow> 'rb \<Rightarrow> 'rb"

locale roaring_spec =
  fixes R :: "'rb roaring64" and elems :: "'rb \<Rightarrow> u64 set"
  assumes elems_New: "elems (rb_New R) = {}"
    and elems_Add: "elems (rb_Add R b x) = insert x (elems b)"
    and GetCardinality: "rb_GetCardinality R b = word_of_nat (card (elems b))"
    and Unmarshal_Marshal: "\<exists>bs b'. rb_MarshalBinary R b = (bs, None)
      \<and> rb_UnmarshalBinary R (rb_New R) bs = (b', None) \<and> elems b' = elems b"
    and elems_Clone: "elems (rb_Clone R b) = elems b"
    and elems_Or: "elems (rb_Or R b c) = elems b \<union> elems c"

section \<open>The operations\<close>

definition bitmap_algoName :: string where
  "bitmap_algoName = ''bitmap''"

definition newSketch :: "'rb \<Rightarrow> 'rb bitmap_sketch" where
  "newSketch b = \<lparr>rb = b\<rparr>"

definition bitmap_New :: "'rb roaring64 \<Rightarrow> 'rb bitmap_sketch" where
  "bitmap_New R = newSketch (rb_New R)"

definition bitmap_Parse :: "'rb roaring64 \<Rightarrow> bytes \<Rightarrow> go_error + 'rb bitmap_sketch" where
  "bitmap_Parse R b =
     (case rb_UnmarshalBinary R (rb_New R) b of
        (_, Some e) \<Rightarrow> Inl e
      | (r, None) \<Rightarrow> Inr (newSketch r))"

definition bitmap_Add :: "'rb roaring64 \<Rightarrow> 'rb bitmap_sketch \<Rightarrow> u64 \<Rightarrow> 'rb bitmap_sketch" where
  "bitmap_Add R s x = s\<lparr>rb := rb_Add R (rb s) x\<rparr>"

definition bitmap_Cardinality :: "'rb roaring64 \<Rightarrow> 'rb bitmap_sketch \<Rightarrow> u64" where
  "bitmap_Cardinality R s = rb_GetCardinality R (rb s)"

definition bitmap_Bytes :: "'rb roaring64 \<Rightarrow> 'rb bitmap_sketch \<Rightarrow> bytes" where
  "bitmap_Bytes R s = fst (rb_MarshalBinary R (rb s))"

definition bitmap_Clone :: "'rb roaring64 \<Rightarrow> 'rb bitmap_sketch \<Rightarrow> 'rb bitmap_sketch" where
  "bitmap_Clone R s = newSketch (rb_Clone R (rb s))"

definition bitmap_Merge ::
    "'rb roaring64 \<Rightarrow> 'rb bitmap_sketch \<Rightarrow> 'rb Sketch \<Rightarrow> 'rb bitmap_sketch outcome" where
  "bitmap_Merge R s other =
     (case other of
        BitmapSketch ov \<Rightarrow> Return (s\<lparr>rb := rb_Or R (rb s) (rb ov)\<rparr>)
      | HLLSketch _ \<Rightarrow> Panic ''bitmap: merge with non-bitmap sketch'')"

lemmas bitmap_defs = newSketch_def bitmap_New_def bitmap_Add_def bitmap_Cardinality_def
  bitmap_Bytes_def bitmap_Clone_def

context roaring_spec
begin

lemma rb_fold_Add:
  "elems (rb (fold (\<lambda>x s. bitmap_Add R s x) xs s)) = elems (rb s) \<union> set xs"
  by (induction xs arbitrary: s) (auto simp: bitmap_Add_def elems_Add)

lemma Parse_Bytes: "\<exists>t. bitmap_Parse R (bitmap_Bytes R s) = Inr t \<and> elems (rb t) = elems (rb s)"
proof -
  obtain bs b' where "rb_MarshalBinary R (rb s) = (bs, None)"
    "rb_UnmarshalBinary R (rb_New R) bs = (b', None)" "elems b' = elems (rb s)"
    using Unmarshal_Marshal by blast
  then show ?thesis by (simp add: bitmap_Parse_def bitmap_Bytes_def newSketch_def)
qed

lemma Cardinality_fold:
  "bitmap_Cardinality R (fold (\<lambda>x s. bitmap_Add R s x) xs (bitmap_New R)) = word_of_nat (card (set xs))"
  by (simp add: bitmap_Cardinality_def GetCardinality rb_fold_Add)
    (simp add: bitmap_New_def newSketch_def elems_New)

end

section \<open>A reference bitmap\<close>

text \<open>Sets of 64-bit values, serialised as the sorted sequence of their members, eight
  little-endian bytes each.\<close>

definition ref_marshal :: "u64 set \<Rightarrow> bytes" where
  "ref_marshal A = concat (map PutUint64 (sorted_list_of_set A))"

definition ref_unmarshal :: "bytes \<Rightarrow> u64 set \<times> err" where
  "ref_unmarshal b =
     (if length b mod 8 = 0
      then (set (map (\<lambda>i. Uint64 (take 8 (drop (8 * i) b))) [0..<length b div 8]), None)
      else ({}, Some (ErrExternal ''bad bitmap'')))"

definition ref_roaring :: "u64 set roaring64" where
  "ref_roaring = \<lparr>rb_New = {}, rb_Add = (\<lambda>A x. insert x A),
     rb_GetCardinality = (\<lambda>A. word_of_nat (card A)),
     rb_MarshalBinary = (\<lambda>A. (ref_marshal A, None)), rb_UnmarshalBinary = (\<lambda>_. ref_unmarshal),
     rb_Clone = (\<lambda>A. A), rb_Or = (\<union>)\<rparr>"

lemma chunk_concat_PutUint64:
  "i < length xs \<Longrightarrow> take 8 (drop (8 * i) (concat (map PutUint64 xs))) = PutUint64 (xs ! i)"
proof (induction xs arbitrary: i)
  case (Cons x xs)
  then show ?case by (cases i) simp_all
qed simp

lemma length_concat_PutUint64: "length (concat (map PutUint64 xs)) = 8 * length xs"
  by (induction xs) simp_all

lemma ref_unmarshal_marshal: "ref_unmarshal (ref_marshal A) = (A, None)"
proof -
  let ?xs = "sorted_list_of_set A"
  have "map (\<lambda>i. Uint64 (take 8 (drop (8 * i) (ref_marshal A)))) [0..<length ?xs] = ?xs"
    by (rule nth_equalityI) (simp_all add: ref_marshal_def chunk_concat_PutUint64)
  then show ?thesis
    by (simp add: ref_unmarshal_def ref_marshal_def length_concat_PutUint64 del: set_map)
qed

interpretation ref_rb: roaring_spec ref_roaring "\<lambda>A. A"
  by unfold_locales (auto simp: ref_roaring_def ref_unmarshal_marshal)

section \<open>Properties\<close>

text \<open>With a bitmap library that behaves as documented, the count of a bitmap sketch is exact:
  it is the number of distinct ids inserted, whatever their order and repetition (modulo
  \<open>2 ^ 64\<close>).\<close>

lemma bitmap_count_exact:
  assumes "roaring_spec R elems"
  shows "bitmap_Cardinality R (fold (\<lambda>x s. bitmap_Add R s x) xs (bitmap_New R)) = word_of_nat (card (set xs))"
  using assms by (rule roaring_spec.Cardinality_fold)

lemma bitmap_count_exact_example:
  "bitmap_Cardinality ref_roaring
     (fold (\<lambda>x s. bitmap_Add ref_roaring s x) [5, 7, 5] (bitmap_New ref_roaring)) = 2"
  using bitmap_count_exact [OF ref_rb.roaring_spec_axioms, of "[5, 7, 5]"] by (simp add: card_insert_if)

end
