(* ===== verification/Algorithms.thy ===== *)
theory Algorithms
  imports HLL Bitmap
begin

text \<open>
  The two implementations of the \<^verbatim>\<open>Sketch\<close> and \<^verbatim>\<open>Algorithm\<close> interfaces as method tables over
  interface values: a method call dispatches on the dynamic type of its receiver. Both tables
  are shown to satisfy the sketch contract, the HyperLogLog one for every hash function and the
  bitmap one for every bitmap library that behaves as documented.
\<close>

section \<open>Dynamic dispatch\<close>

definition Sketch_AlgoName :: "'rb Sketch \<Rightarrow> string" where
  "Sketch_AlgoName sk = (case sk of HLLSketch _ \<Rightarrow> hll_algoName | BitmapSketch _ \<Rightarrow> bitmap_algoName)"

definition Sketch_Add :: "hll_env \<Rightarrow> 'rb roaring64 \<Rightarrow> 'rb Sketch \<Rightarrow> u64 \<Rightarrow> 'rb Sketch" where
  "Sketch_Add env R sk x =
     (case sk of HLLSketch s \<Rightarrow> HLLSketch (hll_Add env s x)
      | BitmapSketch s \<Rightarrow> BitmapSketch (bitmap_Add R s x))"

definition Sketch_Cardinality :: "hll_env \<Rightarrow> 'rb roaring64 \<Rightarrow> 'rb Sketch \<Rightarrow> u64" where
  "Sketch_Cardinality env R sk =
     (case sk of HLLSketch s \<Rightarrow> hll_Cardinality env s | BitmapSketch s \<Rightarrow> bitmap_Cardinality R s)"

primrec map_outcome :: "('a \<Rightarrow> 'b) \<Rightarrow> 'a outcome \<Rightarrow> 'b outcome" where
  "map_outcome f (Return x) = Return (f x)"
| "map_outcome f (Panic msg) = Panic msg"

definition Sketch_Merge :: "'rb roaring64 \<Rightarrow> 'rb Sketch \<Rightarrow> 'rb Sketch \<Rightarrow> 'rb Sketch outcome" where
  "Sketch_Merge R sk other =
     (case sk of HLLSketch s \<Rightarrow> map_outcome HLLSketch (hll_Merge s other)
      | BitmapSketch s \<Rightarrow> map_outcome BitmapSketch (bitmap_Merge R s other))"

definition Sketch_Bytes :: "'rb roaring64 \<Rightarrow> 'rb Sketch \<Rightarrow> bytes" where
  "Sketch_Bytes R sk = (case sk of HLLSketch s \<Rightarrow> hll_Bytes s | BitmapSketch s \<Rightarrow> bitmap_Bytes R s)"

definition Sketch_Clone :: "'rb roaring64 \<Rightarrow> 'rb Sketch \<Rightarrow> 'rb Sketch" where
  "Sketch_Clone R sk =
     (case sk of HLLSketch s \<Rightarrow> HLLSketch (hll_Clone s) | BitmapSketch s \<Rightarrow> BitmapSketch (bitmap_Clone R s))"

section \<open>The two algorithms\<close>

definition hll_Algorithm :: "hll_env \<Rightarrow> 'rb roaring64 \<Rightarrow> 'rb Sketch algorithm" where
  "hll_Algorithm env R = \<lparr>sk_AlgoName = Sketch_AlgoName, sk_Add = Sketch_Add env R,
     sk_Cardinality = Sketch_Cardinality env R, sk_Merge = Sketch_Merge R,
     sk_Bytes = Sketch_Bytes R, sk_Clone = Sketch_Clone R,
     alg_Name = hll_algoName, alg_New = HLLSketch hll_New,
     alg_Parse = (\<lambda>b. case hll_Parse b of Inl e \<Rightarrow> Inl e | Inr s \<Rightarrow> Inr (HLLSketch s))\<rparr>"

definition bitmap_Algorithm :: "hll_env \<Rightarrow> 'rb roaring64 \<Rightarrow> 'rb Sketch algorithm" where
  "bitmap_Algorithm env R = \<lparr>sk_AlgoName = Sketch_AlgoName, sk_Add = Sketch_Add env R,
     sk_Cardinality = Sketch_Cardinality env R, sk_Merge = Sketch_Merge R,
     sk_Bytes = Sketch_Bytes R, sk_Clone = Sketch_Clone R,
     alg_Name = bitmap_algoName, alg_New = BitmapSketch (bitmap_New R),
     alg_Parse = (\<lambda>b. case bitmap_Parse R b of Inl e \<Rightarrow> Inl e | Inr s \<Rightarrow> Inr (BitmapSketch s))\<rparr>"

text \<open>What the Go type system guarantees of an interface value: a HyperLogLog sketch has arrays
  of the declared lengths.\<close>

definition well_typed :: "'rb Sketch \<Rightarrow> bool" where
  "well_typed sk = (case sk of HLLSketch s \<Rightarrow> hll_wf s | BitmapSketch _ \<Rightarrow> True)"

definition hll_inv :: "'rb Sketch \<Rightarrow> bool" where
  "hll_inv sk = (case sk of HLLSketch s \<Rightarrow> hll_wf s | BitmapSketch _ \<Rightarrow> False)"

definition hll_view :: "'rb Sketch \<Rightarrow> bytes" where
  "hll_view sk = (case sk of HLLSketch s \<Rightarrow> regs s | BitmapSketch _ \<Rightarrow> [])"

definition bitmap_inv :: "'rb Sketch \<Rightarrow> bool" where
  "bitmap_inv sk = (case sk of HLLSketch _ \<Rightarrow> False | BitmapSketch _ \<Rightarrow> True)"

definition bitmap_view :: "('rb \<Rightarrow> u64 set) \<Rightarrow> 'rb Sketch \<Rightarrow> u64 set" where
  "bitmap_view elems sk = (case sk of HLLSketch _ \<Rightarrow> {} | BitmapSketch s \<Rightarrow> elems (rb s))"

lemmas Sketch_defs = Sketch_AlgoName_def Sketch_Add_def Sketch_Cardinality_def Sketch_Merge_def
  Sketch_Bytes_def Sketch_Clone_def

lemma hll_invE:
  assumes "hll_inv sk" obtains s where "sk = HLLSketch s" and "hll_wf s"
  using assms by (cases sk) (auto simp: hll_inv_def)

lemma bitmap_invE:
  assumes "bitmap_inv sk" obtains s where "sk = BitmapSketch s"
  using assms by (cases sk) (auto simp: bitmap_inv_def)

lemma hll_inv_HLLSketch [simp]: "hll_inv (HLLSketch s) = hll_wf s"
  by (simp add: hll_inv_def)

lemma hll_view_HLLSketch [simp]: "hll_view (HLLSketch s) = regs s"
  by (simp add: hll_view_def)

lemma hll_Cardinality_regs: "regs s = regs t \<Longrightarrow> hll_Cardinality env s = hll_Cardinality env t"
  by (simp add: hll_Cardinality_def)

text \<open>The dynamic name of a well-typed value decides its representation.\<close>

lemma AlgoName_hll_inv: "well_typed sk \<Longrightarrow> Sketch_AlgoName sk = hll_algoName \<Longrightarrow> hll_inv sk"
  by (cases sk) (auto simp: well_typed_def hll_inv_def Sketch_AlgoName_def hll_algoName_def bitmap_algoName_def)

lemma AlgoName_bitmap_inv: "Sketch_AlgoName sk = bitmap_algoName \<Longrightarrow> bitmap_inv sk"
  by (cases sk) (auto simp: bitmap_inv_def Sketch_AlgoName_def hll_algoName_def bitmap_algoName_def)

section \<open>Both satisfy the contract\<close>

interpretation hll: sketch_contract "hll_Algorithm env R" hll_inv hll_view join_regs
  "hll_point env" "replicate numRegs 0" for env R
proof
  fix s t :: "'a Sketch"
  assume "hll_inv s" "hll_inv t"
  then show "\<exists>r. sk_Merge (hll_Algorithm env R) s t = Return r \<and> hll_inv r
      \<and> hll_view r = join_regs (hll_view s) (hll_view t)"
    by (auto simp: hll_Algorithm_def Sketch_defs hll_Merge_HLL hll_wf_def elim!: hll_invE)
next
  fix buf and t :: "'a Sketch"
  assume "alg_Parse (hll_Algorithm env R) buf = Inr t"
  then show "hll_inv t"
    by (auto simp: hll_Algorithm_def hll_wf_Parse split: sum.splits)
next
  fix s :: "'a Sketch"
  assume "hll_inv s"
  then show "\<exists>t. alg_Parse (hll_Algorithm env R) (sk_Bytes (hll_Algorithm env R) s) = Inr t
      \<and> hll_view t = hll_view s"
    using hll_Parse_Bytes [where rest = "[]"]
    by (auto simp: hll_Algorithm_def Sketch_defs elim!: hll_invE)
qed (auto simp: hll_Algorithm_def Sketch_defs hll_wf_New hll_wf_Add regs_hll_Add hll_wf_Clone
    regs_hll_Clone regs_hll_New join_regs_assoc join_regs_idem join_regs_bot
    intro: join_regs_commute hll_Cardinality_regs elim!: hll_invE)

lemma bitmap_contract:
  assumes "roaring_spec R elems"
  shows "sketch_contract (bitmap_Algorithm env R) bitmap_inv (bitmap_view elems) (\<union>) (\<lambda>x. {x}) {}"
proof -
  note laws = roaring_spec.elems_New [OF assms] roaring_spec.elems_Add [OF assms]
    roaring_spec.GetCardinality [OF assms] roaring_spec.elems_Clone [OF assms]
    roaring_spec.elems_Or [OF assms]
  have parse: "\<exists>t. alg_Parse (bitmap_Algorithm env R) (sk_Bytes (bitmap_Algorithm env R) s) = Inr t
      \<and> bitmap_view elems t = bitmap_view elems s" if "bitmap_inv s" for s
  proof -
    from that obtain b where s: "s = BitmapSketch b" by (rule bitmap_invE)
    obtain t where "bitmap_Parse R (bitmap_Bytes R b) = Inr t" "elems (rb t) = elems (rb b)"
      using roaring_spec.Parse_Bytes [OF assms] by blast
    with s show ?thesis by (simp add: bitmap_Algorithm_def Sketch_defs bitmap_view_def)
  qed
  show ?thesis
    by unfold_locales
      (use parse in \<open>auto simp: bitmap_Algorithm_def Sketch_defs bitmap_defs bitmap_Merge_def laws
        bitmap_view_def bitmap_inv_def split: sum.splits Sketch.splits\<close>)
qed

sublocale roaring_spec \<subseteq> bm: sketch_contract "bitmap_Algorithm env R" bitmap_inv
  "bitmap_view elems" "(\<union>)" "\<lambda>x. {x}" "{}" for env
  by (rule bitmap_contract) (rule roaring_spec_axioms)

end
