(* ===== verification/Go_Gob.thy ===== *)
theory Go_Gob
  imports Go_Binary
begin

text \<open>
  The part of the standard library's \<^verbatim>\<open>encoding/gob\<close> that engine snapshots use: a single value
  of type \<^verbatim>\<open>map[string][]byte\<close>. A stream is a message that defines the map type followed by a
  message that holds the value; a message is its length and its body. Unsigned integers below
  128 are one byte, larger ones a negated byte count and the big-endian bytes without leading
  zeros. The locale \<open>wire_codec\<close> is what the engine relies on: decoding an encoded map gives the
  map back.
\<close>

section \<open>The interface\<close>

locale wire_codec =
  fixes encode :: "(string \<times> bytes) list \<Rightarrow> go_error + bytes"
    and decode :: "bytes \<Rightarrow> go_error + (string \<rightharpoonup> bytes)"
  assumes decode_encode: "distinct (map fst kvs) \<Longrightarrow> encode kvs = Inr b \<Longrightarrow> decode b = Inr (map_of kvs)"

section \<open>Integers\<close>

definition encodeUint :: "u64 \<Rightarrow> bytes" where
  "encodeUint x =
     (if x \<le> 0x7F then [ucast x]
      else let bc = LeadingZeros64 x div 8
           in word_of_int (int bc - 8) # drop bc (rev (PutUint64 x)))"

definition decodeUint :: "bytes \<Rightarrow> go_error + u64 \<times> bytes" where
  "decodeUint bs =
     (case bs of
        [] \<Rightarrow> Inl (ErrExternal ''EOF'')
      | b # rest \<Rightarrow>
          if b \<le> 0x7F then Inr (ucast b, rest)
          else let n = nat (- sint b) in
            if 8 < n then Inl (ErrExternal ''gob: encoded unsigned integer out of range'')
            else if length rest < n then Inl (ErrExternal ''invalid uint data length'')
            else Inr (foldl (\<lambda>x b. push_bit 8 x OR ucast b) 0 (take n rest), drop n rest))"

definition encodeInt :: "int \<Rightarrow> bytes" where
  "encodeInt i = encodeUint (word_of_int (if i < 0 then 2 * (- i - 1) + 1 else 2 * i))"

definition decodeInt :: "bytes \<Rightarrow> go_error + int \<times> bytes" where
  "decodeInt bs = and_then (decodeUint bs)
     (\<lambda>(x, rest). Inr (if odd x then - uint (drop_bit 1 x) - 1 else uint (drop_bit 1 x), rest))"

section \<open>Messages and values\<close>

definition tooBig :: nat where
  "tooBig = 2 ^ 33"

definition gob_message :: "bytes \<Rightarrow> go_error + bytes" where
  "gob_message body =
     (if tooBig \<le> length body then Inl (ErrExternal ''gob: encoder: message too big'')
      else Inr (encodeUint (word_of_nat (length body)) @ body))"

definition recvMessage :: "bytes \<Rightarrow> go_error + bytes \<times> bytes" where
  "recvMessage bs = and_then (decodeUint bs)
     (\<lambda>(n, rest).
        if tooBig \<le> unat n then Inl (ErrExternal ''gob: bad data'')
        else if length rest < unat n then Inl (ErrExternal ''unexpected EOF'')
        else Inr (take (unat n) rest, drop (unat n) rest))"

text \<open>The identifier of the first type a process gives to gob; the snapshot map is the only one in
  this program. Identifiers 5 and 6 are \<^verbatim>\<open>[]byte\<close> and \<^verbatim>\<open>string\<close>.\<close>

definition map_type_id :: int where
  "map_type_id = 65"

definition map_wire_type :: "int \<Rightarrow> bytes" where
  "map_wire_type tid = [4, 1, 2] @ encodeInt tid @ [0, 1] @ encodeInt 6 @ [1] @ encodeInt 5 @ [0, 0]"

definition gob_bytes :: "bytes \<Rightarrow> bytes" where
  "gob_bytes b = encodeUint (word_of_nat (length b)) @ b"

definition gob_entries :: "(string \<times> bytes) list \<Rightarrow> bytes" where
  "gob_entries kvs = concat (map (\<lambda>(k, v). gob_bytes (bytes_of_string k) @ gob_bytes v) kvs)"

definition gob_encode :: "(string \<times> bytes) list \<Rightarrow> go_error + bytes" where
  "gob_encode kvs =
     and_then (gob_message (encodeInt (- map_type_id) @ map_wire_type map_type_id)) (\<lambda>td.
     and_then (gob_message (encodeInt map_type_id @ [0] @ encodeUint (word_of_nat (length kvs))
       @ gob_entries kvs)) (\<lambda>val. Inr (td @ val)))"

definition gob_get_bytes :: "bytes \<Rightarrow> go_error + bytes \<times> bytes" where
  "gob_get_bytes bs = and_then (decodeUint bs)
     (\<lambda>(n, rest).
        if length rest < unat n \<or> tooBig \<le> unat n then Inl (ErrExternal ''bad length'')
        else Inr (take (unat n) rest, drop (unat n) rest))"

fun gob_get_entries :: "nat \<Rightarrow> bytes \<Rightarrow> (string \<rightharpoonup> bytes) \<Rightarrow> go_error + (string \<rightharpoonup> bytes)" where
  "gob_get_entries 0 bs m = Inr m"
| "gob_get_entries (Suc n) bs m =
     and_then (gob_get_bytes bs) (\<lambda>(k, bs).
     and_then (gob_get_bytes bs) (\<lambda>(v, bs).
     gob_get_entries n bs (m(string_of_bytes k \<mapsto> v))))"

definition gob_decode :: "bytes \<Rightarrow> go_error + (string \<rightharpoonup> bytes)" where
  "gob_decode bs =
     and_then (recvMessage bs) (\<lambda>(td, bs).
     and_then (decodeInt td) (\<lambda>(i, descr).
     if 0 \<le> i \<or> descr \<noteq> map_wire_type (- i) then Inl (ErrExternal ''gob: unexpected type'')
     else and_then (recvMessage bs) (\<lambda>(val, _).
     and_then (decodeInt val) (\<lambda>(j, val).
     if j \<noteq> - i then Inl (ErrExternal ''gob: unexpected type'')
     else and_then (decodeUint val) (\<lambda>(delta, val).
     if delta \<noteq> 0 then Inl (ErrExternal ''decode: corrupted data: non-zero delta for singleton'')
     else and_then (decodeUint val) (\<lambda>(n, val).
     gob_get_entries (nat (sint n)) val Map.empty))))))"

section \<open>Round trips\<close>

lemma foldl_big_endian: "foldl (\<lambda>x b. push_bit 8 x OR ucast b) 0 (rev bs) = Uint64 bs"
  by (simp add: foldl_conv_foldr Uint64_def)

lemma bit_Len64: "bit x n \<Longrightarrow> n < Len64 (x :: u64)"
proof (rule ccontr)
  assume b: "bit x n" and "\<not> n < Len64 x"
  then have "unat x < 2 ^ n" by (simp add: Len64_le_iff [symmetric])
  moreover have "bit (unat x) n" using b by (simp add: bit_unsigned_iff)
  then have "unat x div 2 ^ n \<noteq> 0" by (simp only: bit_iff_odd) (rule notI, simp)
  ultimately show False by simp
qed

lemma Uint64_take_PutUint64:
  assumes "Len64 x \<le> 8 * k" and "k \<le> 8"
  shows "Uint64 (take k (PutUint64 x)) = x"
proof (rule bit_word_eqI)
  fix n assume n: "n < LENGTH(64)"
  then have "n div 8 < 8" by simp
  have "n div 8 < k" if "bit x n"
    using bit_Len64 [OF that] assms(1) by (simp add: less_mult_imp_div_less mult.commute)
  then show "bit (Uint64 (take k (PutUint64 x))) n = bit x n"
    using n \<open>n div 8 < 8\<close> assms(2) by (auto simp: bit_Uint64 PutUint64_def bit_simps simp del: upt_Suc)
qed

lemma decodeUint_encodeUint: "decodeUint (encodeUint x @ rest) = Inr (x, rest)"
proof (cases "x \<le> 0x7F")
  case True
  then have x: "unat x < 128" by (simp add: word_le_nat_alt)
  then have "unat (ucast x :: byte) \<le> 127"
    by (simp add: unsigned_ucast_eq unsigned_take_bit_eq take_bit_nat_eq_self)
  moreover have "ucast (ucast x :: byte) = x" using x by (simp add: ucast_small_byte word_less_nat_alt)
  ultimately show ?thesis
    using True by (simp add: encodeUint_def decodeUint_def word_le_nat_alt)
next
  case False
  define bc where "bc = LeadingZeros64 x div 8"
  have "Len64 x \<noteq> 0" using False Len64_le_iff [of x 0] by (auto simp: unat_eq_zero)
  then have bc: "bc < 8" "Len64 x \<le> 8 * (8 - bc)"
    using Len64_le_64 [of x] div_times_less_eq_dividend [of "64 - Len64 x" 8]
    by (auto simp: bc_def LeadingZeros64_def diff_mult_distrib2)
  from bc(1) have "bc \<in> {0, 1, 2, 3, 4, 5, 6, 7}" by auto
  then have s: "sint (word_of_int (int bc - 8) :: byte) = int bc - 8"
    and nle: "\<not> (word_of_int (int bc - 8) :: byte) \<le> 0x7F"
    by (auto simp: word_order.extremum_unique)
  have "foldl (\<lambda>x b. push_bit 8 x OR ucast b) 0 (drop bc (rev (PutUint64 x))) = x"
    using bc by (simp add: drop_rev foldl_big_endian Uint64_take_PutUint64)
  moreover have "nat (8 - int bc) = 8 - bc" by arith
  ultimately show ?thesis
    using False bc(1) s nle
    by (simp add: encodeUint_def decodeUint_def Let_def bc_def [symmetric]) arith
qed

lemma recvMessage_gob_message:
  "gob_message body = Inr m \<Longrightarrow> recvMessage (m @ rest) = Inr (body, rest)"
  by (auto simp: gob_message_def recvMessage_def decodeUint_encodeUint tooBig_def unat_of_nat
      split: if_splits)

lemma gob_get_bytes_gob_bytes:
  "length b < tooBig \<Longrightarrow> gob_get_bytes (gob_bytes b @ rest) = Inr (b, rest)"
  by (simp add: gob_get_bytes_def gob_bytes_def decodeUint_encodeUint tooBig_def unat_of_nat)

lemma length_gob_bytes: "length b \<le> length (gob_bytes b)"
  by (simp add: gob_bytes_def)

lemma half_word:
  assumes "0 \<le> k" and "k < 2 ^ 64"
  shows "uint (drop_bit 1 (word_of_int k :: u64)) = k div 2" and "odd (word_of_int k :: u64) \<longleftrightarrow> odd k"
proof -
  have "uint (word_of_int k :: u64) = k"
    using assms by (simp add: uint_word_of_int)
  then show "uint (drop_bit 1 (word_of_int k :: u64)) = k div 2"
    by (simp add: drop_bit_eq_div uint_div)
  show "odd (word_of_int k :: u64) \<longleftrightarrow> odd k"
    by (simp only: bit_0 [symmetric] bit_word_of_int_iff) simp
qed

lemma decodeInt_encodeInt:
  assumes "- (2 ^ 62) \<le> i" and "i < 2 ^ 62"
  shows "decodeInt (encodeInt i @ rest) = Inr (i, rest)"
proof -
  define k where "k = (if i < 0 then 2 * (- i - 1) + 1 else 2 * i)"
  have k: "0 \<le> k" "k < 2 ^ 64" using assms by (auto simp: k_def)
  have "decodeInt (encodeInt i @ rest) = Inr (if odd k then - (k div 2) - 1 else k div 2, rest)"
    by (simp only: decodeInt_def encodeInt_def k_def [symmetric] decodeUint_encodeUint and_then_simps
        prod.case half_word [OF k])
  also have "(if odd k then - (k div 2) - 1 else k div 2) = i" by (auto simp: k_def)
  finally show ?thesis .
qed

lemma gob_get_entries_gob_entries:
  "length (gob_entries kvs) < tooBig \<Longrightarrow>
   gob_get_entries (length kvs) (gob_entries kvs) m = Inr (m ++ map_of (rev kvs))"
proof (induction kvs arbitrary: m)
  case (Cons kv kvs)
  obtain k v where "kv = (k, v)" by (cases kv)
  with Cons length_gob_bytes [of "bytes_of_string k"] length_gob_bytes [of v] show ?case
    by (simp add: gob_entries_def gob_get_bytes_gob_bytes)
qed (simp add: gob_entries_def)

lemma length_gob_entries: "length kvs \<le> length (gob_entries kvs)"
proof (induction kvs)
  case (Cons kv kvs)
  have "0 < length (encodeUint x)" for x by (simp add: encodeUint_def Let_def)
  then have "Suc 0 \<le> length (gob_bytes b)" for b by (simp add: gob_bytes_def Suc_le_eq)
  from this [of "snd kv"] Cons show ?case by (cases kv) (simp add: gob_entries_def)
qed simp

lemma map_of_rev_distinct: "distinct (map fst kvs) \<Longrightarrow> map_of (rev kvs) = map_of kvs"
proof (induction kvs)
  case (Cons kv kvs)
  obtain k v where kv: "kv = (k, v)" by (cases kv)
  with Cons.prems have "dom [k \<mapsto> v] \<inter> dom (map_of kvs) = {}" by (simp add: dom_map_of_conv_image_fst)
  then show ?case using Cons kv by (simp add: map_add_comm [of "[k \<mapsto> v]"])
qed simp

lemma gob_decode_encode:
  assumes "distinct (map fst kvs)" and "gob_encode kvs = Inr b"
  shows "gob_decode b = Inr (map_of kvs)"
proof -
  let ?val = "encodeInt map_type_id @ [0] @ encodeUint (word_of_nat (length kvs)) @ gob_entries kvs"
  obtain td val where m: "gob_message (encodeInt (- map_type_id) @ map_wire_type map_type_id) = Inr td"
    "gob_message ?val = Inr val" and b: "b = td @ val"
    using assms(2) by (auto simp: gob_encode_def and_then_def split: sum.splits)
  have len: "length (gob_entries kvs) < tooBig"
    using m(2) by (auto simp: gob_message_def split: if_splits)
  moreover have "length kvs \<le> length (gob_entries kvs)"
    by (rule length_gob_entries)
  ultimately have n: "nat (sint (word_of_nat (length kvs) :: u64)) = length kvs"
    by (simp add: tooBig_def signed_of_nat signed_take_bit_int_eq_self)
  have i: "decodeInt (encodeInt map_type_id @ r) = Inr (map_type_id, r)"
    "decodeInt (encodeInt (- map_type_id) @ r) = Inr (- map_type_id, r)" for r
    by (rule decodeInt_encodeInt; simp add: map_type_id_def)+
  have neg: "\<not> 0 \<le> - map_type_id" by (simp add: map_type_id_def)
  have z: "decodeUint (0 # r) = Inr (0, r)" for r by (simp add: decodeUint_def)
  have "gob_decode b = gob_get_entries (length kvs) (gob_entries kvs) Map.empty"
    using recvMessage_gob_message [OF m(2), of "[]"]
    by (simp only: gob_decode_def b recvMessage_gob_message [OF m(1)] append_Nil2 append.simps i neg z n
        decodeUint_encodeUint and_then_simps prod.case minus_minus simp_thms if_False)
  also have "\<dots> = Inr (map_of kvs)"
    by (simp add: gob_get_entries_gob_entries [OF len] map_of_rev_distinct assms(1))
  finally show ?thesis .
qed

text \<open>Encoding fails only on a value message of \<open>tooBig\<close> bytes or more.\<close>

lemma length_encodeUint: "length (encodeUint x) \<le> 9"
  by (simp add: encodeUint_def Let_def)

lemma length_encodeInt: "length (encodeInt i) \<le> 9"
  by (simp only: encodeInt_def length_encodeUint)

lemma length_gob_entries_le:
  "length (gob_entries kvs) \<le> (\<Sum>(k, v)\<leftarrow>kvs. length k + length v + 18)"
proof (induction kvs)
  case (Cons kv kvs)
  obtain k v where kv: "kv = (k, v)" by (cases kv)
  show ?case
    using Cons kv length_encodeUint [of "word_of_nat (length k)"] length_encodeUint [of "word_of_nat (length v)"]
    by (simp add: gob_entries_def gob_bytes_def)
qed (simp add: gob_entries_def)

lemma gob_encode_ok:
  assumes "(\<Sum>(k, v)\<leftarrow>kvs. length k + length v + 18) + 19 < tooBig"
  shows "\<exists>b. gob_encode kvs = Inr b"
proof -
  note len = length_encodeInt [of "- map_type_id"] length_encodeInt [of map_type_id] length_encodeInt [of 6]
    length_encodeInt [of 5] length_encodeUint [of "word_of_nat (length kvs)"] length_gob_entries_le [of kvs]
  have "length (encodeInt (- map_type_id) @ map_wire_type map_type_id) < tooBig"
    using len by (simp add: map_wire_type_def tooBig_def)
  moreover have "length (encodeInt map_type_id @ [0] @ encodeUint (word_of_nat (length kvs))
      @ gob_entries kvs) < tooBig"
    using len assms by simp
  ultimately show ?thesis by (simp only: gob_encode_def gob_message_def not_le [symmetric] if_False and_then_simps) blast
qed

interpretation gob: wire_codec gob_encode gob_decode
  by unfold_locales (rule gob_decode_encode)

end
