(* ===== verification/Engine.thy ===== *)
theory Engine
  imports Algorithms Go_Gob "HOL-Library.List_Lexorder" "HOL-Library.Char_ord"
begin

text \<open>
  Package \<^verbatim>\<open>internal/cardinality\<close>, file \<^verbatim>\<open>engine.go\<close>: the per-group store of live sketches.
  Every method holds the engine's lock for its whole effect, so a method is one atomic function
  from the engine to its new value. The \<^verbatim>\<open>save\<close> callbacks act on a world \<open>'w\<close> (the database)
  that is passed through. The order in which Go ranges over a map is not specified; loops whose
  effect can depend on it take an oracle \<open>order\<close> that lists the keys. The lemmas about engines
  are proved once for every algorithm that satisfies the sketch contract.
\<close>

section \<open>The engine and its operations\<close>

record 's engine =
  eng_alg :: "'s algorithm"
  eng_groups :: "string \<rightharpoonup> 's"

definition NewEngine :: "'s algorithm \<Rightarrow> 's engine" where
  "NewEngine alg = \<lparr>eng_alg = alg, eng_groups = Map.empty\<rparr>"

definition Engine_Add :: "'s engine \<Rightarrow> string \<Rightarrow> u64 \<Rightarrow> 's engine \<times> err" where
  "Engine_Add e g x =
     (let sk = (case eng_groups e g of None \<Rightarrow> alg_New (eng_alg e) | Some sk \<Rightarrow> sk)
      in (e\<lparr>eng_groups := (eng_groups e)(g \<mapsto> sk_Add (eng_alg e) sk x)\<rparr>, None))"

definition Engine_Cardinality :: "'s engine \<Rightarrow> string \<Rightarrow> go_error + u64" where
  "Engine_Cardinality e g =
     (case eng_groups e g of
        None \<Rightarrow> Inl (ErrUnknownGroup g)
      | Some sk \<Rightarrow> Inr (sk_Cardinality (eng_alg e) sk))"

definition Engine_CardinalityAll :: "'s engine \<Rightarrow> (string \<rightharpoonup> u64)" where
  "Engine_CardinalityAll e = (\<lambda>g. map_option (sk_Cardinality (eng_alg e)) (eng_groups e g))"

definition AddAndPersist ::
    "'s engine \<Rightarrow> string \<Rightarrow> u64 \<Rightarrow> (bytes \<Rightarrow> 'w \<Rightarrow> 'w \<times> err) \<Rightarrow> 'w \<Rightarrow> 's engine \<times> 'w \<times> err" where
  "AddAndPersist e g x save w =
     (let sk = (case eng_groups e g of None \<Rightarrow> alg_New (eng_alg e) | Some sk \<Rightarrow> sk);
          sk = sk_Add (eng_alg e) sk x;
          e = e\<lparr>eng_groups := (eng_groups e)(g \<mapsto> sk)\<rparr>
      in (e, save (sk_Bytes (eng_alg e) sk) w))"

definition Persist :: "'s engine \<Rightarrow> string \<Rightarrow> (bytes \<Rightarrow> 'w \<Rightarrow> 'w \<times> err) \<Rightarrow> 'w \<Rightarrow> 'w \<times> err" where
  "Persist e g save w =
     (case eng_groups e g of
        None \<Rightarrow> (w, Some (ErrUnknownGroup g))
      | Some sk \<Rightarrow> save (sk_Bytes (eng_alg e) sk) w)"

definition Restore :: "'s engine \<Rightarrow> string \<Rightarrow> bytes \<Rightarrow> 's engine \<times> err" where
  "Restore e g b =
     (case alg_Parse (eng_alg e) b of
        Inl er \<Rightarrow> (e, Some (ErrParse g er))
      | Inr sk \<Rightarrow> (e\<lparr>eng_groups := (eng_groups e)(g \<mapsto> sk)\<rparr>, None))"

text \<open>A \<^verbatim>\<open>nil\<close> sketch is \<open>None\<close>. The outcome is a panic only if the sketch's own \<^verbatim>\<open>Merge\<close>
  panics.\<close>

definition Engine_Merge :: "'s engine \<Rightarrow> string \<Rightarrow> 's option \<Rightarrow> ('s engine \<times> err) outcome" where
  "Engine_Merge e g remote =
     (case remote of
        None \<Rightarrow> Return (e, Some ErrNilRemote)
      | Some r \<Rightarrow>
          if sk_AlgoName (eng_alg e) r \<noteq> alg_Name (eng_alg e)
          then Return (e, Some (ErrAlgoMismatch (alg_Name (eng_alg e)) (sk_AlgoName (eng_alg e) r)))
          else (case eng_groups e g of
              None \<Rightarrow> Return (e\<lparr>eng_groups := (eng_groups e)(g \<mapsto> sk_Clone (eng_alg e) r)\<rparr>, None)
            | Some sk \<Rightarrow>
                (case sk_Merge (eng_alg e) sk r of
                   Panic msg \<Rightarrow> Panic msg
                 | Return sk' \<Rightarrow> Return (e\<lparr>eng_groups := (eng_groups e)(g \<mapsto> sk')\<rparr>, None))))"

definition MergeBytes :: "'s engine \<Rightarrow> string \<Rightarrow> string \<Rightarrow> bytes \<Rightarrow> ('s engine \<times> err) outcome" where
  "MergeBytes e g algoName b =
     (if algoName \<noteq> alg_Name (eng_alg e)
      then Return (e, Some (ErrAlgoMismatch (alg_Name (eng_alg e)) algoName))
      else (case alg_Parse (eng_alg e) b of
              Inl er \<Rightarrow> Return (e, Some (ErrParse g er))
            | Inr remote \<Rightarrow> Engine_Merge e g (Some remote)))"

text \<open>
  \<^verbatim>\<open>Marshal\<close> hands the map from groups to sketch bytes to the gob encoder, which writes the
  entries in the order it ranges over them; \<^verbatim>\<open>Unmarshal\<close> parses the decoded entries into a
  fresh map and installs it only when all of them parse.
\<close>

definition Marshal ::
    "((string \<times> bytes) list \<Rightarrow> go_error + bytes) \<Rightarrow> (string set \<Rightarrow> string list) \<Rightarrow>
     's engine \<Rightarrow> go_error + bytes" where
  "Marshal encode order e =
     (let wire = (\<lambda>g. map_option (sk_Bytes (eng_alg e)) (eng_groups e g))
      in encode (map (\<lambda>g. (g, the (wire g))) (order (dom wire))))"

fun parse_groups :: "'s algorithm \<Rightarrow> (string \<rightharpoonup> bytes) \<Rightarrow> string list \<Rightarrow> (string \<rightharpoonup> 's) \<Rightarrow>
    go_error + (string \<rightharpoonup> 's)" where
  "parse_groups alg wire [] groups = Inr groups"
| "parse_groups alg wire (g # gs) groups =
     (case alg_Parse alg (the (wire g)) of
        Inl er \<Rightarrow> Inl (ErrParse g er)
      | Inr sk \<Rightarrow> parse_groups alg wire gs (groups(g \<mapsto> sk)))"

definition Unmarshal ::
    "(bytes \<Rightarrow> go_error + (string \<rightharpoonup> bytes)) \<Rightarrow> (string set \<Rightarrow> string list) \<Rightarrow>
     's engine \<Rightarrow> bytes \<Rightarrow> 's engine \<times> err" where
  "Unmarshal decode order e data =
     (case decode data of
        Inl er \<Rightarrow> (e, Some er)
      | Inr wire \<Rightarrow>
          (case parse_groups (eng_alg e) wire (order (dom wire)) Map.empty of
             Inl er \<Rightarrow> (e, Some er)
           | Inr groups \<Rightarrow> (e\<lparr>eng_groups := groups\<rparr>, None)))"

text \<open>What is known about the order of a range loop over a map.\<close>

definition range_order :: "(string set \<Rightarrow> string list) \<Rightarrow> bool" where
  "range_order order \<longleftrightarrow> (\<forall>A. finite A \<longrightarrow> distinct (order A) \<and> set (order A) = A)"

section \<open>Invariant and abstract state\<close>

definition engine_inv :: "('s \<Rightarrow> bool) \<Rightarrow> 's engine \<Rightarrow> bool" where
  "engine_inv I e \<longleftrightarrow> finite (dom (eng_groups e)) \<and> (\<forall>g sk. eng_groups e g = Some sk \<longrightarrow> I sk)"

definition engine_view :: "('s \<Rightarrow> 'v) \<Rightarrow> 's engine \<Rightarrow> (string \<rightharpoonup> 'v)" where
  "engine_view view e = (\<lambda>g. map_option view (eng_groups e g))"

lemma engine_invD: "engine_inv I e \<Longrightarrow> eng_groups e g = Some sk \<Longrightarrow> I sk"
  by (simp add: engine_inv_def)

lemma engine_inv_update:
  "engine_inv I e \<Longrightarrow> I sk \<Longrightarrow> engine_inv I (e\<lparr>eng_groups := (eng_groups e)(g \<mapsto> sk)\<rparr>)"
  by (auto simp: engine_inv_def)

lemma engine_view_update:
  "engine_view view (e\<lparr>eng_groups := (eng_groups e)(g \<mapsto> sk)\<rparr>) = (engine_view view e)(g \<mapsto> view sk)"
  by (auto simp: engine_view_def)

lemma dom_engine_view [simp]: "dom (engine_view view e) = dom (eng_groups e)"
  by (auto simp: engine_view_def dom_def)

lemma engine_inv_NewEngine: "engine_inv I (NewEngine alg)"
  by (simp add: engine_inv_def NewEngine_def)

lemma engine_view_NewEngine: "engine_view view (NewEngine alg) = Map.empty"
  by (simp add: engine_view_def NewEngine_def)

lemma eng_alg_NewEngine [simp]: "eng_alg (NewEngine alg) = alg"
  by (simp add: NewEngine_def)

lemma eng_alg_Engine_Add [simp]: "eng_alg (fst (Engine_Add e g x)) = eng_alg e"
  by (simp add: Engine_Add_def Let_def)

text \<open>\<^verbatim>\<open>AddAndPersist\<close> is \<^verbatim>\<open>Add\<close> followed by \<^verbatim>\<open>Persist\<close> of the new state.\<close>

lemma AddAndPersist_eq:
  "AddAndPersist e g x save w =
     (let e' = fst (Engine_Add e g x) in (e', Persist e' g save w))"
  by (simp add: AddAndPersist_def Engine_Add_def Persist_def Let_def)

text \<open>Sequences of insertions, and the ids a sequence holds for one group.\<close>

definition run_adds :: "(string \<times> u64) list \<Rightarrow> 's engine \<Rightarrow> 's engine" where
  "run_adds ops e = fold (\<lambda>(g, x) e. fst (Engine_Add e g x)) ops e"

definition ids_of :: "string \<Rightarrow> (string \<times> u64) list \<Rightarrow> u64 list" where
  "ids_of g ops = map snd (filter (\<lambda>p. fst p = g) ops)"

lemma run_adds_simps [simp]:
  "run_adds [] e = e" "run_adds ((g, x) # ops) e = run_adds ops (fst (Engine_Add e g x))"
  by (simp_all add: run_adds_def)

lemma ids_of_simps [simp]:
  "ids_of g [] = []" "ids_of g ((h, x) # ops) = (if h = g then x # ids_of g ops else ids_of g ops)"
  by (simp_all add: ids_of_def)

lemma set_ids_of: "set (ids_of g ops) = {x. (g, x) \<in> set ops}"
  by (auto simp: ids_of_def image_iff)

lemma ids_of_Nil_iff: "ids_of g ops = [] \<longleftrightarrow> g \<notin> fst ` set ops"
  by (auto simp: ids_of_def filter_empty_conv)

lemma range_orderD: "range_order order \<Longrightarrow> finite A \<Longrightarrow> distinct (order A) \<and> set (order A) = A"
  by (simp add: range_order_def)

lemma range_order_sorted: "range_order sorted_list_of_set"
  by (simp add: range_order_def)

lemma map_of_enumeration:
  "set ks = dom m \<Longrightarrow> map_of (map (\<lambda>g. (g, the (m g))) ks) = m"
  by (rule ext) (auto simp: map_of_map_restrict restrict_map_def o_def domIff
      intro: option.expand split: if_splits)

section \<open>Engines over a lawful algorithm\<close>

context sketch_contract
begin

text \<open>The abstract engine: a map from groups to semilattice points.\<close>

definition spec_add :: "(string \<rightharpoonup> 'v) \<Rightarrow> string \<Rightarrow> u64 \<Rightarrow> (string \<rightharpoonup> 'v)" where
  "spec_add m g x = m(g \<mapsto> join (case m g of None \<Rightarrow> bot | Some v \<Rightarrow> v) (point x))"

definition spec_merge :: "(string \<rightharpoonup> 'v) \<Rightarrow> string \<Rightarrow> 'v \<Rightarrow> (string \<rightharpoonup> 'v)" where
  "spec_merge m g v = m(g \<mapsto> (case m g of None \<Rightarrow> v | Some u \<Rightarrow> join u v))"

definition engine_ok :: "'s engine \<Rightarrow> bool" where
  "engine_ok e \<longleftrightarrow> eng_alg e = alg \<and> engine_inv inv e"

lemma engine_ok_NewEngine: "engine_ok (NewEngine alg)"
  by (simp add: engine_ok_def engine_inv_NewEngine)

lemma engine_ok_alg: "engine_ok e \<Longrightarrow> eng_alg e = alg"
  by (simp add: engine_ok_def)

lemma engine_ok_groupsD: "engine_ok e \<Longrightarrow> eng_groups e g = Some sk \<Longrightarrow> inv sk"
  by (auto simp: engine_ok_def intro: engine_invD)

lemma engine_ok_update:
  "engine_ok e \<Longrightarrow> inv sk \<Longrightarrow> engine_ok (e\<lparr>eng_groups := (eng_groups e)(g \<mapsto> sk)\<rparr>)"
  by (simp add: engine_ok_def engine_inv_update)

lemma Engine_Add_refines:
  assumes "engine_ok e"
  shows "engine_ok (fst (Engine_Add e g x))"
    and "engine_view view (fst (Engine_Add e g x)) = spec_add (engine_view view e) g x"
    and "snd (Engine_Add e g x) = None"
proof -
  define sk where "sk = (case eng_groups e g of None \<Rightarrow> alg_New alg | Some sk \<Rightarrow> sk)"
  have sk: "inv sk" using assms by (auto simp: sk_def inv_new engine_ok_groupsD split: option.split)
  have v: "view sk = (case engine_view view e g of None \<Rightarrow> bot | Some v \<Rightarrow> v)"
    by (auto simp: sk_def view_new engine_view_def split: option.split)
  have add: "Engine_Add e g x = (e\<lparr>eng_groups := (eng_groups e)(g \<mapsto> sk_Add alg sk x)\<rparr>, None)"
    using assms by (simp add: Engine_Add_def engine_ok_alg sk_def Let_def cong: option.case_cong)
  from sk assms show "engine_ok (fst (Engine_Add e g x))"
    by (simp add: add engine_ok_update inv_add)
  from sk v show "engine_view view (fst (Engine_Add e g x)) = spec_add (engine_view view e) g x"
    by (simp add: add engine_view_update view_add spec_add_def)
  show "snd (Engine_Add e g x) = None" by (simp add: add)
qed

lemma Engine_Merge_refines:
  assumes "engine_ok e" and "inv r"
  shows "\<exists>e'. Engine_Merge e g (Some r) = Return (e', None) \<and> engine_ok e'
    \<and> engine_view view e' = spec_merge (engine_view view e) g (view r)"
proof (cases "eng_groups e g")
  case None
  then have "engine_view view e g = None" by (simp add: engine_view_def)
  moreover have "Engine_Merge e g (Some r)
      = Return (e\<lparr>eng_groups := (eng_groups e)(g \<mapsto> sk_Clone alg r)\<rparr>, None)"
    using None assms by (simp add: Engine_Merge_def engine_ok_alg algo_name)
  ultimately show ?thesis
    using assms by (simp add: engine_ok_update inv_clone engine_view_update view_clone spec_merge_def)
next
  case (Some sk)
  then obtain r' where r': "sk_Merge alg sk r = Return r'" "inv r'" "view r' = join (view sk) (view r)"
    using merge_ok assms engine_ok_groupsD by blast
  have "engine_view view e g = Some (view sk)" using Some by (simp add: engine_view_def)
  moreover have "Engine_Merge e g (Some r) = Return (e\<lparr>eng_groups := (eng_groups e)(g \<mapsto> r')\<rparr>, None)"
    using Some r' assms by (simp add: Engine_Merge_def engine_ok_alg algo_name)
  ultimately show ?thesis
    using r' assms by (simp add: engine_ok_update engine_view_update spec_merge_def)
qed

lemma MergeBytes_refines:
  assumes "engine_ok e" and "alg_Parse alg b = Inr r"
  shows "\<exists>e'. MergeBytes e g (alg_Name alg) b = Return (e', None) \<and> engine_ok e'
    \<and> engine_view view e' = spec_merge (engine_view view e) g (view r)"
  using Engine_Merge_refines [OF assms(1) inv_parse [OF assms(2)]] assms
  by (simp add: MergeBytes_def engine_ok_alg)

lemma MergeBytes_errors:
  assumes "engine_ok e"
  shows "name \<noteq> alg_Name alg \<Longrightarrow> MergeBytes e g name b = Return (e, Some (ErrAlgoMismatch (alg_Name alg) name))"
    and "alg_Parse alg b = Inl er \<Longrightarrow> MergeBytes e g (alg_Name alg) b = Return (e, Some (ErrParse g er))"
  using assms by (simp_all add: MergeBytes_def engine_ok_alg)

text \<open>\<^verbatim>\<open>MergeBytes\<close> returns on every input and keeps the invariant.\<close>

lemma MergeBytes_total:
  assumes "engine_ok e"
  shows "\<exists>e' er. MergeBytes e g name b = Return (e', er) \<and> engine_ok e'"
proof (cases "name = alg_Name alg")
  case True
  then show ?thesis
    using MergeBytes_refines [OF assms] MergeBytes_errors [OF assms] assms
    by (cases "alg_Parse alg b") blast+
next
  case False
  then show ?thesis using MergeBytes_errors [OF assms] assms by blast
qed

lemma Restore_ok:
  assumes "engine_ok e"
  shows "engine_ok (fst (Restore e g b))"
  using assms by (auto simp: Restore_def engine_ok_alg inv_parse intro: engine_ok_update split: sum.split)

lemma Restore_Bytes:
  assumes "engine_ok e" and "inv sk"
  shows "\<exists>e'. Restore e g (sk_Bytes alg sk) = (e', None) \<and> engine_ok e'
    \<and> engine_view view e' = (engine_view view e)(g \<mapsto> view sk)"
proof -
  obtain t where t: "alg_Parse alg (sk_Bytes alg sk) = Inr t" "view t = view sk"
    using parse_bytes assms(2) by blast
  then have "inv t" by (blast intro: inv_parse)
  with t assms show ?thesis
    by (simp add: Restore_def engine_ok_alg engine_ok_update engine_view_update)
qed

lemma Engine_Cardinality_view:
  assumes "engine_ok e" and "engine_ok f" and "engine_view view e g = engine_view view f g"
  shows "Engine_Cardinality e g = Engine_Cardinality f g"
proof (cases "eng_groups e g")
  case None
  then show ?thesis using assms(3) by (simp add: Engine_Cardinality_def engine_view_def)
next
  case (Some sk)
  then obtain sk' where sk': "eng_groups f g = Some sk'" "view sk = view sk'"
    using assms(3) by (cases "eng_groups f g") (auto simp: engine_view_def)
  then have "sk_Cardinality alg sk = sk_Cardinality alg sk'"
    using Some assms(1,2) by (intro card_view) (auto intro: engine_ok_groupsD)
  then show ?thesis using Some sk' assms(1,2) by (simp add: Engine_Cardinality_def engine_ok_alg)
qed

lemma run_adds_ok: "engine_ok e \<Longrightarrow> engine_ok (run_adds ops e)"
  by (induction ops arbitrary: e) (auto simp: Engine_Add_refines)

lemma run_adds_view:
  assumes "engine_ok e"
  shows "engine_view view (run_adds ops e) g =
    (if ids_of g ops = [] then engine_view view e g
     else Some (absorb (ids_of g ops) (case engine_view view e g of None \<Rightarrow> bot | Some v \<Rightarrow> v)))"
  using assms
proof (induction ops arbitrary: e)
  case (Cons op ops)
  obtain h x where "op = (h, x)" by (cases op)
  with Cons show ?case
    by (simp add: Engine_Add_refines spec_add_def)
qed simp

text \<open>Engines that received the same set of insertions, in any order and multiplicity, agree.\<close>

lemma run_adds_convergence:
  assumes "engine_ok e" and "set ops = set ops'"
  shows "engine_view view (run_adds ops e) = engine_view view (run_adds ops' e)"
proof
  fix g
  have s: "set (ids_of g ops) = set (ids_of g ops')" using assms(2) by (simp add: set_ids_of)
  then have "ids_of g ops = [] \<longleftrightarrow> ids_of g ops' = []" by (metis set_empty)
  with s show "engine_view view (run_adds ops e) g = engine_view view (run_adds ops' e) g"
    using assms(1) by (simp add: run_adds_view absorb_set_eq [OF s])
qed

text \<open>Inserting again what was already inserted changes nothing.\<close>

lemma run_adds_replay:
  assumes "engine_ok e" and "set ops' \<subseteq> set ops"
  shows "engine_view view (run_adds ops' (run_adds ops e)) = engine_view view (run_adds ops e)"
proof -
  have "run_adds ops' (run_adds ops e) = run_adds (ops @ ops') e" by (simp add: run_adds_def)
  moreover have "set (ops @ ops') = set ops" using assms(2) by auto
  ultimately show ?thesis using run_adds_convergence [OF assms(1)] by metis
qed

lemma parse_groups_Bytes:
  assumes "\<And>g. g \<in> set gs \<Longrightarrow> \<exists>sk. inv sk \<and> wire g = Some (sk_Bytes alg sk) \<and> m g = Some (view sk)"
    and "\<And>g sk. groups g = Some sk \<Longrightarrow> inv sk" and "finite (dom groups)"
  shows "\<exists>groups'. parse_groups alg wire gs groups = Inr groups' \<and> finite (dom groups')
    \<and> (\<forall>g sk. groups' g = Some sk \<longrightarrow> inv sk)
    \<and> (\<forall>g. map_option view (groups' g) = (if g \<in> set gs then m g else map_option view (groups g)))"
  using assms
proof (induction gs arbitrary: groups)
  case (Cons h gs)
  obtain sk where sk: "inv sk" "wire h = Some (sk_Bytes alg sk)" "m h = Some (view sk)"
    using Cons.prems(1) by auto
  obtain t where t: "alg_Parse alg (sk_Bytes alg sk) = Inr t" "view t = view sk"
    using parse_bytes [OF sk(1)] by blast
  have f: "finite (dom (groups(h \<mapsto> t)))" using Cons.prems(3) by simp
  have "\<exists>groups'. parse_groups alg wire gs (groups(h \<mapsto> t)) = Inr groups' \<and> finite (dom groups')
      \<and> (\<forall>g sk. groups' g = Some sk \<longrightarrow> inv sk)
      \<and> (\<forall>g. map_option view (groups' g)
           = (if g \<in> set gs then m g else map_option view ((groups(h \<mapsto> t)) g)))"
    using Cons.prems(1,2) inv_parse [OF t(1)] by (intro Cons.IH [OF _ _ f]) (auto split: if_splits)
  with sk t show ?case by (auto split: if_splits)
qed simp

lemma Unmarshal_Marshal:
  assumes "wire_codec encode decode" and "range_order order" and "range_order order'"
    and "engine_ok e" and "engine_ok f" and "Marshal encode order e = Inr b"
  shows "\<exists>f'. Unmarshal decode order' f b = (f', None) \<and> engine_ok f'
    \<and> engine_view view f' = engine_view view e"
proof -
  define wire where "wire = (\<lambda>g. map_option (sk_Bytes alg) (eng_groups e g))"
  have d: "dom wire = dom (eng_groups e)" by (auto simp: wire_def)
  then have fin: "finite (dom wire)" using assms(4) by (simp add: engine_ok_def engine_inv_def)
  note o1 = range_orderD [OF assms(2) fin] and o2 = range_orderD [OF assms(3) fin]
  have "encode (map (\<lambda>g. (g, the (wire g))) (order (dom wire))) = Inr b"
    using assms(4,6) by (simp add: Marshal_def engine_ok_alg wire_def)
  then have "decode b = Inr (map_of (map (\<lambda>g. (g, the (wire g))) (order (dom wire))))"
    using o1 by (intro wire_codec.decode_encode [OF assms(1)]) (simp_all add: comp_def)
  then have dec: "decode b = Inr wire" using o1 by (simp add: map_of_enumeration)
  have "\<exists>groups'. parse_groups alg wire (order' (dom wire)) Map.empty = Inr groups' \<and> finite (dom groups')
      \<and> (\<forall>g sk. groups' g = Some sk \<longrightarrow> inv sk)
      \<and> (\<forall>g. map_option view (groups' g)
           = (if g \<in> set (order' (dom wire)) then engine_view view e g else map_option view (Map.empty g)))"
    using o2 d assms(4)
    by (intro parse_groups_Bytes) (auto simp: wire_def engine_view_def intro: engine_ok_groupsD)
  then obtain groups' where p: "parse_groups alg wire (order' (dom wire)) Map.empty = Inr groups'"
    "finite (dom groups')" "\<forall>g sk. groups' g = Some sk \<longrightarrow> inv sk"
    "\<forall>g. map_option view (groups' g) = (if g \<in> dom wire then engine_view view e g else None)"
    using o2 by auto
  have "engine_view view (f\<lparr>eng_groups := groups'\<rparr>) = engine_view view e"
    using p(4) d by (auto simp: engine_view_def domIff)
  with dec p assms(5) show ?thesis
    by (auto simp: Unmarshal_def engine_ok_def engine_inv_def)
qed

lemma CardinalityAll_view:
  assumes "engine_ok e" and "engine_ok f" and "engine_view view e = engine_view view f"
  shows "Engine_CardinalityAll e = Engine_CardinalityAll f"
proof
  fix g
  have "Engine_Cardinality e g = Engine_Cardinality f g"
    by (rule Engine_Cardinality_view [OF assms(1,2)]) (simp add: assms(3))
  then show "Engine_CardinalityAll e g = Engine_CardinalityAll f g"
    by (auto simp: Engine_Cardinality_def Engine_CardinalityAll_def split: option.splits)
qed

text \<open>Merging the serialised sketch of a remote group is the same as inserting its ids here.\<close>

lemma MergeBytes_run_adds:
  assumes "eng_groups (run_adds ops' (NewEngine alg)) g = Some sk"
  shows "\<exists>e'. MergeBytes (run_adds ops (NewEngine alg)) g (alg_Name alg) (sk_Bytes alg sk) = Return (e', None)
    \<and> engine_ok e'
    \<and> engine_view view e' = engine_view view (run_adds (ops @ filter (\<lambda>p. fst p = g) ops') (NewEngine alg))"
proof -
  let ?e = "run_adds ops (NewEngine alg)" and ?f = "run_adds ops' (NewEngine alg)"
  note new = engine_ok_NewEngine and ok = run_adds_ok [OF engine_ok_NewEngine]
  have v: "engine_view view ?f g = Some (view sk)" using assms by (simp add: engine_view_def)
  then have ne: "ids_of g ops' \<noteq> []" and sk: "view sk = absorb (ids_of g ops') bot"
    by (auto simp: run_adds_view [OF new] engine_view_NewEngine split: if_splits)
  obtain t where t: "alg_Parse alg (sk_Bytes alg sk) = Inr t" "view t = view sk"
    using parse_bytes [OF engine_ok_groupsD [OF ok assms]] by blast
  obtain e' where e': "MergeBytes ?e g (alg_Name alg) (sk_Bytes alg sk) = Return (e', None)" "engine_ok e'"
    "engine_view view e' = spec_merge (engine_view view ?e) g (view sk)"
    using MergeBytes_refines [OF ok t(1), of ops g] unfolding t(2) by blast
  have "spec_merge (engine_view view ?e) g (view sk) h
      = engine_view view (run_adds (ops @ filter (\<lambda>p. fst p = g) ops') (NewEngine alg)) h" for h
  proof (cases "h = g")
    case True
    have f: "ids_of g (ops @ filter (\<lambda>p. fst p = g) ops') = ids_of g ops @ ids_of g ops'"
      by (simp add: ids_of_def)
    have "join (absorb (ids_of g ops) bot) (absorb (ids_of g ops') bot)
        = absorb (ids_of g ops @ ids_of g ops') bot"
      by (simp add: absorb_append absorb_join_bot)
    with True ne f show ?thesis
      by (simp add: spec_merge_def run_adds_view [OF new] engine_view_NewEngine sk)
  next
    case False
    then have "ids_of h (ops @ filter (\<lambda>p. fst p = g) ops') = ids_of h ops"
      by (simp add: ids_of_def)
    with False show ?thesis by (simp add: spec_merge_def run_adds_view [OF new])
  qed
  with e' show ?thesis by auto
qed

end

section \<open>Properties\<close>

lemma bitmap_absorb:
  assumes "roaring_spec R elems"
  shows "sketch_contract.absorb (\<union>) (\<lambda>x. {x}) xs A = A \<union> set xs"
  by (induction xs arbitrary: A)
    (auto simp: sketch_contract.absorb_simps [OF bitmap_contract [OF assms]])

text \<open>C19: an engine over the bitmap algorithm counts exactly. After any sequence of insertions a
  group's cardinality is the number of distinct ids inserted into it, and a group that received
  none is reported as unknown.\<close>

theorem bitmap_engine_counts:
  assumes "roaring_spec R elems"
  shows "Engine_Cardinality (run_adds ops (NewEngine (bitmap_Algorithm env R))) g =
    (if g \<in> fst ` set ops then Inr (word_of_nat (card {x. (g, x) \<in> set ops}))
     else Inl (ErrUnknownGroup g))"
proof -
  let ?e = "run_adds ops (NewEngine (bitmap_Algorithm env R))"
  note C = bitmap_contract [OF assms, where env = env]
  note ok = sketch_contract.run_adds_ok [OF C sketch_contract.engine_ok_NewEngine [OF C]]
  have v: "engine_view (bitmap_view elems) ?e g =
      (if g \<in> fst ` set ops then Some {x. (g, x) \<in> set ops} else None)"
    using sketch_contract.run_adds_view [OF C sketch_contract.engine_ok_NewEngine [OF C], of ops g]
    by (simp add: engine_view_NewEngine bitmap_absorb [OF assms] ids_of_Nil_iff set_ids_of)
  show ?thesis
  proof (cases "g \<in> fst ` set ops")
    case True
    with v obtain sk where sk: "eng_groups ?e g = Some sk" "bitmap_view elems sk = {x. (g, x) \<in> set ops}"
      by (auto simp: engine_view_def)
    from sketch_contract.engine_ok_groupsD [OF C ok sk(1)] obtain b where "sk = BitmapSketch b"
      by (rule bitmap_invE)
    with True sk sketch_contract.engine_ok_alg [OF C ok] show ?thesis
      by (simp add: Engine_Cardinality_def bitmap_Algorithm_def Sketch_Cardinality_def
          bitmap_Cardinality_def roaring_spec.GetCardinality [OF assms] bitmap_view_def)
  next
    case False
    with v show ?thesis by (simp add: Engine_Cardinality_def engine_view_def)
  qed
qed

theorem bitmap_engine_counts_witness:
  "Engine_Cardinality
     (run_adds [(''a'', 1), (''b'', 9), (''a'', 2), (''a'', 1)] (NewEngine (bitmap_Algorithm (example_env 0) ref_roaring))) ''a'' = Inr 2"
proof -
  have "{x. (''a'', x) \<in> set [(''a'', 1), (''b'', 9), (''a'', 2), (''a'', 1)]} = {1, 2 :: u64}" by auto
  then show ?thesis
    using bitmap_engine_counts [OF ref_rb.roaring_spec_axioms,
      of "[(''a'', 1), (''b'', 9), (''a'', 2), (''a'', 1)]" "example_env 0" "''a''"] by simp
qed

lemma hll_same_view_same_bytes:
  assumes "hll.engine_ok env R e" and "hll.engine_ok env R f" and "engine_view hll_view e = engine_view hll_view f"
  shows "map_option (Sketch_Bytes R) (eng_groups e g) = map_option (Sketch_Bytes R) (eng_groups f g)"
proof -
  have "map_option hll_view (eng_groups e g) = map_option hll_view (eng_groups f g)"
    using fun_cong [OF assms(3), of g] by (simp add: engine_view_def)
  then show ?thesis
    using hll.engine_ok_groupsD [OF assms(1), of g] hll.engine_ok_groupsD [OF assms(2), of g]
    by (cases "eng_groups e g"; cases "eng_groups f g")
      (auto simp: Sketch_Bytes_def hll_Bytes_def elim!: hll_invE)
qed

text \<open>C10: HyperLogLog engines that received the same set of insertions agree, whatever the order
  and the number of repetitions: every group has the same serialised sketch, byte for byte, and
  the same reported cardinality.\<close>

theorem hll_engine_convergence:
  assumes "set ops = set ops'" and "e0 = NewEngine (hll_Algorithm env R)"
  shows "Engine_CardinalityAll (run_adds ops e0) = Engine_CardinalityAll (run_adds ops' e0)
    \<and> (\<forall>g. map_option (Sketch_Bytes R) (eng_groups (run_adds ops e0) g)
          = map_option (Sketch_Bytes R) (eng_groups (run_adds ops' e0) g))"
proof -
  have ok: "hll.engine_ok env R e0" by (simp add: assms(2) hll.engine_ok_NewEngine)
  note oks = hll.run_adds_ok [OF ok, of ops] hll.run_adds_ok [OF ok, of ops']
  note same = hll.run_adds_convergence [OF ok assms(1)]
  show ?thesis
    using hll.CardinalityAll_view [OF oks same] hll_same_view_same_bytes [OF oks same] by blast
qed

theorem hll_engine_convergence_witness:
  "Engine_CardinalityAll (run_adds [(''a'', 1), (''b'', 2)] (NewEngine (hll_Algorithm (example_env 0) ref_roaring)))
   = Engine_CardinalityAll (run_adds [(''b'', 2), (''a'', 1), (''b'', 2)]
       (NewEngine (hll_Algorithm (example_env 0) ref_roaring)))"
  using hll_engine_convergence [of "[(''a'', 1), (''b'', 2)]" "[(''b'', 2), (''a'', 1), (''b'', 2)]",
      OF _ refl] by auto

text \<open>C34: \<^verbatim>\<open>Engine.Merge\<close> on a HyperLogLog engine returns for every argument, with no panic: a
  \<^verbatim>\<open>nil\<close> sketch and a sketch of the other algorithm are rejected and leave the engine as it was;
  a HyperLogLog sketch is joined into its group register by register and no other group
  changes.\<close>

theorem hll_engine_merge_total:
  assumes "eng_alg e = hll_Algorithm env R" and "engine_inv hll_inv e"
    and "\<forall>r. remote = Some r \<longrightarrow> well_typed r"
  shows "\<exists>e' er. Engine_Merge e g remote = Return (e', er) \<and> engine_inv hll_inv e' \<and>
    (case remote of
       None \<Rightarrow> er = Some ErrNilRemote \<and> e' = e
     | Some (BitmapSketch _) \<Rightarrow> er = Some (ErrAlgoMismatch ''hll'' ''bitmap'') \<and> e' = e
     | Some (HLLSketch s) \<Rightarrow> er = None \<and> engine_view hll_view e' = (engine_view hll_view e)
         (g \<mapsto> (case engine_view hll_view e g of None \<Rightarrow> regs s | Some rs \<Rightarrow> join_regs rs (regs s))))"
proof (cases "\<exists>s. remote = Some (HLLSketch s)")
  case True
  then obtain s where s: "remote = Some (HLLSketch s)" by blast
  then have wf: "hll_inv (HLLSketch s)" using assms(3) by (simp add: well_typed_def)
  have ok: "hll.engine_ok env R e" using assms by (simp add: hll.engine_ok_def)
  then show ?thesis
    using hll.Engine_Merge_refines [OF ok wf, of g] s by (auto simp: hll.engine_ok_def hll.spec_merge_def)
next
  case False
  then show ?thesis using assms(1,2)
    by (cases remote rule: option.exhaust)
      (auto simp: Engine_Merge_def hll_Algorithm_def Sketch_AlgoName_def hll_algoName_def
        bitmap_algoName_def split: Sketch.split)
qed

theorem hll_engine_merge_total_witness:
  "\<exists>e' er. Engine_Merge (NewEngine (hll_Algorithm (example_env 0) ref_roaring)) ''a'' (Some (HLLSketch hll_New)) = Return (e', er)
     \<and> er = None \<and> engine_view hll_view e' = [''a'' \<mapsto> regs hll_New]"
  using hll_engine_merge_total [of "NewEngine (hll_Algorithm (example_env 0) ref_roaring)" "example_env 0"
      ref_roaring "Some (HLLSketch hll_New)" "''a''"]
  by (auto simp: engine_inv_NewEngine engine_view_NewEngine well_typed_def hll_wf_New)

text \<open>C20: merging the serialised sketch of another node's group with \<^verbatim>\<open>MergeBytes\<close> has the same
  effect on every reported cardinality as inserting that group's ids locally.\<close>

theorem hll_MergeBytes_union:
  assumes "e0 = NewEngine (hll_Algorithm env R)" and "eng_groups (run_adds ops' e0) g = Some sk"
  shows "\<exists>e'. MergeBytes (run_adds ops e0) g ''hll'' (Sketch_Bytes R sk) = Return (e', None)
    \<and> Engine_CardinalityAll e' = Engine_CardinalityAll (run_adds (ops @ filter (\<lambda>p. fst p = g) ops') e0)"
proof -
  have names: "alg_Name (hll_Algorithm env R) = ''hll''" "sk_Bytes (hll_Algorithm env R) = Sketch_Bytes R"
    by (simp_all add: hll_Algorithm_def hll_algoName_def)
  obtain e' where e': "MergeBytes (run_adds ops e0) g ''hll'' (Sketch_Bytes R sk) = Return (e', None)"
    "hll.engine_ok env R e'"
    "engine_view hll_view e' = engine_view hll_view (run_adds (ops @ filter (\<lambda>p. fst p = g) ops') e0)"
    using hll.MergeBytes_run_adds [OF assms(2) [unfolded assms(1)], of ops]
    unfolding assms(1) names by blast
  have "hll.engine_ok env R (run_adds (ops @ filter (\<lambda>p. fst p = g) ops') e0)"
    unfolding assms(1) by (rule hll.run_adds_ok [OF hll.engine_ok_NewEngine])
  from hll.CardinalityAll_view [OF e'(2) this e'(3)] e'(1) show ?thesis by blast
qed

theorem hll_MergeBytes_union_witness:
  "\<exists>sk e'. eng_groups (run_adds [(''a'', 7)] (NewEngine (hll_Algorithm (example_env 0) ref_roaring))) ''a'' = Some sk
     \<and> MergeBytes (run_adds [(''a'', 5)] (NewEngine (hll_Algorithm (example_env 0) ref_roaring))) ''a'' ''hll''
         (Sketch_Bytes ref_roaring sk) = Return (e', None)
     \<and> Engine_CardinalityAll e'
         = Engine_CardinalityAll (run_adds [(''a'', 5), (''a'', 7)] (NewEngine (hll_Algorithm (example_env 0) ref_roaring)))"
proof -
  let ?e0 = "NewEngine (hll_Algorithm (example_env 0) ref_roaring)"
  obtain sk where sk: "eng_groups (run_adds [(''a'', 7)] ?e0) ''a'' = Some sk"
    by (auto simp: Engine_Add_def)
  show ?thesis using hll_MergeBytes_union [OF refl sk, of "[(''a'', 5)]"] sk by auto
qed

lemma length_hll_Bytes: "hll_inv sk \<Longrightarrow> length (Sketch_Bytes R sk) = 16386"
  by (auto simp: Sketch_Bytes_def hll_Bytes_eq hll_wf_def numRegs_eq elim!: hll_invE)

lemma hll_Marshal_ok:
  assumes "hll.engine_ok env R e" and "range_order order"
    and "(\<Sum>g \<in> dom (eng_groups e). length g + 16404) + 19 < 2 ^ 33"
  shows "\<exists>b. Marshal gob_encode order e = Inr b"
proof -
  let ?ks = "order (dom (eng_groups e))"
  have fin: "finite (dom (eng_groups e))" using assms(1) by (simp add: hll.engine_ok_def engine_inv_def)
  note ks = range_orderD [OF assms(2) fin]
  define kvs where "kvs = map (\<lambda>g. (g, the (map_option (Sketch_Bytes R) (eng_groups e g)))) ?ks"
  have "length (the (map_option (Sketch_Bytes R) (eng_groups e g))) = 16386" if "g \<in> set ?ks" for g
    using that ks hll.engine_ok_groupsD [OF assms(1)] by (auto intro!: length_hll_Bytes)
  then have "(\<Sum>(k, v)\<leftarrow>kvs. length k + length v + 18) = (\<Sum>g\<leftarrow>?ks. length g + 16404)"
    by (simp add: kvs_def comp_def add.commute cong: map_cong)
  also have "\<dots> = (\<Sum>g \<in> dom (eng_groups e). length g + 16404)"
    using ks by (simp add: sum_list_distinct_conv_sum_set)
  finally have "\<exists>b. gob_encode kvs = Inr b"
    using assms(3) by (intro gob_encode_ok) (simp add: tooBig_def)
  moreover have "Marshal gob_encode order e = gob_encode kvs"
    using hll.engine_ok_alg [OF assms(1)]
    by (simp add: Marshal_def kvs_def hll_Algorithm_def dom_map_option)
  ultimately show ?thesis by simp
qed

text \<open>C18: a snapshot taken with \<^verbatim>\<open>Marshal\<close> and installed with \<^verbatim>\<open>Unmarshal\<close> reproduces the engine:
  as long as the snapshot stays below gob's message limit of 8 GiB it is produced, it is accepted
  by any other engine of the same algorithm, and it replaces that engine's groups by the
  registers of the engine it was taken from, whichever orders the two maps are ranged over.\<close>

theorem hll_snapshot_roundtrip:
  assumes "eng_alg e = hll_Algorithm env R" and "engine_inv hll_inv e"
    and "eng_alg f = hll_Algorithm env R" and "engine_inv hll_inv f"
    and "range_order order" and "range_order order'"
    and "(\<Sum>g \<in> dom (eng_groups e). length g + 16404) + 19 < 2 ^ 33"
  shows "\<exists>b f'. Marshal gob_encode order e = Inr b \<and> Unmarshal gob_decode order' f b = (f', None)
    \<and> engine_inv hll_inv f' \<and> engine_view hll_view f' = engine_view hll_view e"
proof -
  have ok: "hll.engine_ok env R e" "hll.engine_ok env R f" using assms by (simp_all add: hll.engine_ok_def)
  obtain b where b: "Marshal gob_encode order e = Inr b"
    using hll_Marshal_ok [OF ok(1) assms(5,7)] by blast
  then show ?thesis
    using hll.Unmarshal_Marshal [OF gob.wire_codec_axioms assms(5,6) ok b] by (auto simp: hll.engine_ok_def)
qed

theorem hll_snapshot_roundtrip_witness:
  "\<exists>b f'. Marshal gob_encode sorted_list_of_set
        (run_adds [(''a'', 5)] (NewEngine (hll_Algorithm (example_env 0) ref_roaring))) = Inr b
     \<and> Unmarshal gob_decode sorted_list_of_set (NewEngine (hll_Algorithm (example_env 0) ref_roaring)) b = (f', None)
     \<and> engine_view hll_view f' =
        engine_view hll_view (run_adds [(''a'', 5)] (NewEngine (hll_Algorithm (example_env 0) ref_roaring)))"
proof -
  let ?e0 = "NewEngine (hll_Algorithm (example_env 0) ref_roaring)"
  have ok: "hll.engine_ok (example_env 0) ref_roaring (run_adds [(''a'', 5)] ?e0)"
    by (rule hll.run_adds_ok [OF hll.engine_ok_NewEngine])
  have "dom (eng_groups (run_adds [(''a'', 5)] ?e0)) = {''a''}" by (simp add: Engine_Add_def NewEngine_def)
  then show ?thesis
    using hll_snapshot_roundtrip [of "run_adds [(''a'', 5)] ?e0" "example_env 0" ref_roaring ?e0
        sorted_list_of_set sorted_list_of_set] ok
    by (auto simp: hll.engine_ok_def range_order_sorted engine_inv_NewEngine)
qed

end
