(* ===== verification/Badger_Store.thy ===== *)
theory Badger_Store
  imports Engine
begin

text \<open>
  Package \<^verbatim>\<open>internal/store\<close>: serialised sketches per group in a BadgerDB. The database is outside
  the repository; its operations are the fields of the record \<open>badger\<close> and its documented
  behaviour is the locale \<open>badger_spec\<close>, stated through the map from keys to values it holds.
  Writes may fail (and then change nothing); reads of an open database are taken to succeed. The
  two package-wide metrics (the number of observed saves and the number of failed ones) are kept
  with the store.
\<close>

section \<open>The database interface\<close>

text \<open>\<open>bd_Set\<close> is a write transaction with one \<^verbatim>\<open>Set\<close>; \<open>bd_Get\<close> is \<^verbatim>\<open>Get\<close> in a read transaction
  followed by reading the item's value; \<open>bd_Items\<close> lists what an iterator with a given prefix
  option yields from a given seek key on.\<close>

record 'db badger =
  bd_Open :: "string \<Rightarrow> bool \<Rightarrow> go_error + 'db"
  bd_Close :: "'db \<Rightarrow> 'db \<times> err"
  bd_Set :: "'db \<Rightarrow> bytes \<Rightarrow> bytes \<Rightarrow> 'db \<times> err"
  bd_Get :: "'db \<Rightarrow> bytes \<Rightarrow> go_error + (go_error + bytes)"
  bd_Items :: "'db \<Rightarrow> bytes \<Rightarrow> bytes \<Rightarrow> (bytes \<times> (go_error + bytes)) list"

definition badger_ErrKeyNotFound :: go_error where
  "badger_ErrKeyNotFound = ErrExternal ''Key not found''"

definition HasPrefix :: "bytes \<Rightarrow> bytes \<Rightarrow> bool" where
  "HasPrefix b p \<longleftrightarrow> take (length p) b = p"

definition TrimPrefix :: "bytes \<Rightarrow> bytes \<Rightarrow> bytes" where
  "TrimPrefix b p = (if HasPrefix b p then drop (length p) b else b)"

locale badger_spec =
  fixes B :: "'db badger" and contents :: "'db \<Rightarrow> (bytes \<rightharpoonup> bytes)"
  assumes finite_contents: "finite (dom (contents db))"
    and Set_ok: "bd_Set B db k v = (db', None) \<Longrightarrow> contents db' = (contents db)(k \<mapsto> v)"
    and Set_err: "bd_Set B db k v = (db', Some e) \<Longrightarrow> contents db' = contents db"
    and Get: "bd_Get B db k =
      (case contents db k of None \<Rightarrow> Inl badger_ErrKeyNotFound | Some v \<Rightarrow> Inr (Inr v))"
    and Items: "bd_Items B db p seek =
      map (\<lambda>k. (k, Inr (the (contents db k))))
        (sorted_list_of_set {k \<in> dom (contents db). HasPrefix k p \<and> seek \<le> k})"

section \<open>The store\<close>

text \<open>The two metrics of the package: the number of observed saves and of failed ones.\<close>

record store_metrics =
  metricSaveDurationSeconds :: nat
  metricSaveErrorsTotal :: nat

definition new_store_metrics :: store_metrics where
  "new_store_metrics = \<lparr>metricSaveDurationSeconds = 0, metricSaveErrorsTotal = 0\<rparr>"

record 'db BadgerStore =
  st_db :: 'db
  st_metrics :: store_metrics

definition Open :: "'db badger \<Rightarrow> string \<Rightarrow> go_error + 'db BadgerStore" where
  "Open B dir =
     (case bd_Open B dir False of
        Inl e \<Rightarrow> Inl (ErrOpenStore e)
      | Inr db \<Rightarrow> Inr \<lparr>st_db = db, st_metrics = new_store_metrics\<rparr>)"

definition store_Close :: "'db badger \<Rightarrow> 'db BadgerStore \<Rightarrow> 'db BadgerStore \<times> err" where
  "store_Close B st = (let (db, er) = bd_Close B (st_db st) in (st\<lparr>st_db := db\<rparr>, er))"

definition keyPrefix :: string where
  "keyPrefix = ''sketch/''"

definition key :: "string \<Rightarrow> bytes" where
  "key g = bytes_of_string (keyPrefix @ g)"

definition Save :: "'db badger \<Rightarrow> string \<Rightarrow> bytes \<Rightarrow> 'db BadgerStore \<Rightarrow> 'db BadgerStore \<times> err" where
  "Save B g b st =
     (let (db, er) = bd_Set B (st_db st) (key g) b;
          m = st_metrics st;
          m = m\<lparr>metricSaveDurationSeconds := Suc (metricSaveDurationSeconds m)\<rparr>;
          m = (if er \<noteq> None then m\<lparr>metricSaveErrorsTotal := Suc (metricSaveErrorsTotal m)\<rparr> else m)
      in (st\<lparr>st_db := db, st_metrics := m\<rparr>, er))"

definition Load :: "'db badger \<Rightarrow> 'db BadgerStore \<Rightarrow> string \<Rightarrow> go_error + bytes" where
  "Load B st g =
     (case bd_Get B (st_db st) (key g) of
        Inl e \<Rightarrow> Inl (if e = badger_ErrKeyNotFound then ErrNotFound else e)
      | Inr item \<Rightarrow> item)"

fun load_items ::
    "(string \<Rightarrow> bytes \<Rightarrow> 'w \<Rightarrow> 'w \<times> err) \<Rightarrow> (bytes \<times> (go_error + bytes)) list \<Rightarrow> 'w \<Rightarrow> 'w \<times> err" where
  "load_items fn [] w = (w, None)"
| "load_items fn ((k, item) # its) w =
     (if HasPrefix k (bytes_of_string keyPrefix) then
        (case item of
           Inl e \<Rightarrow> (w, Some e)
         | Inr v \<Rightarrow>
             (case fn (string_of_bytes (TrimPrefix k (bytes_of_string keyPrefix))) v w of
                (w', Some e) \<Rightarrow> (w', Some e)
              | (w', None) \<Rightarrow> load_items fn its w'))
      else (w, None))"

definition LoadAll ::
    "'db badger \<Rightarrow> 'db BadgerStore \<Rightarrow> (string \<Rightarrow> bytes \<Rightarrow> 'w \<Rightarrow> 'w \<times> err) \<Rightarrow> 'w \<Rightarrow> 'w \<times> err" where
  "LoadAll B st fn w =
     (let prefix = bytes_of_string keyPrefix
      in load_items fn (bd_Items B (st_db st) prefix prefix) w)"

text \<open>The persisted groups, and calling a function on a list of groups until it fails.\<close>

definition stored_groups :: "('db \<Rightarrow> (bytes \<rightharpoonup> bytes)) \<Rightarrow> 'db BadgerStore \<Rightarrow> (string \<rightharpoonup> bytes)" where
  "stored_groups contents st = (\<lambda>g. contents (st_db st) (key g))"

fun load_pairs ::
    "(string \<Rightarrow> bytes \<Rightarrow> 'w \<Rightarrow> 'w \<times> err) \<Rightarrow> (string \<times> bytes) list \<Rightarrow> 'w \<Rightarrow> 'w \<times> err" where
  "load_pairs fn [] w = (w, None)"
| "load_pairs fn ((g, b) # kvs) w =
     (case fn g b w of
        (w', Some e) \<Rightarrow> (w', Some e)
      | (w', None) \<Rightarrow> load_pairs fn kvs w')"

section \<open>Keys\<close>

lemma key_inject [simp]: "key g = key h \<longleftrightarrow> g = h"
  by (simp add: key_def)

lemma HasPrefix_key: "HasPrefix k (bytes_of_string keyPrefix) \<longleftrightarrow> k \<in> range key"
proof
  assume "HasPrefix k (bytes_of_string keyPrefix)"
  then have "k = bytes_of_string keyPrefix @ drop (length keyPrefix) k"
    unfolding HasPrefix_def by (metis append_take_drop_id length_bytes_of_string)
  then have "k = key (string_of_bytes (drop (length keyPrefix) k))"
    by (simp add: key_def wire_simps)
  then show "k \<in> range key" by blast
qed (auto simp: HasPrefix_def key_def wire_simps)

lemma TrimPrefix_key [simp]: "string_of_bytes (TrimPrefix (key g) (bytes_of_string keyPrefix)) = g"
  by (simp add: TrimPrefix_def HasPrefix_key) (simp add: key_def wire_simps)

lemma append_le_iff: "ps @ xs \<le> ps @ ys \<longleftrightarrow> xs \<le> (ys :: 'a :: order list)"
  by (induction ps) simp_all

lemma bytes_of_string_le_iff: "bytes_of_string xs \<le> bytes_of_string ys \<longleftrightarrow> xs \<le> ys"
proof (induction xs arbitrary: ys)
  case (Cons x xs)
  have "(word_of_nat (of_char x) :: byte) < word_of_nat (of_char y) \<longleftrightarrow> x < y"
    "(word_of_nat (of_char x) :: byte) = word_of_nat (of_char y) \<longleftrightarrow> x = y" for y
    using unat_word_of_char [of x] unat_word_of_char [of y]
    by (simp_all add: less_char_def word_less_nat_alt word_unat_eq_iff)
  with Cons show ?case by (cases ys) (simp_all add: bytes_of_string_def)
qed (simp add: bytes_of_string_def)

lemma key_le_iff: "key g \<le> key h \<longleftrightarrow> g \<le> h"
  by (simp add: key_def wire_simps append_le_iff bytes_of_string_le_iff)

lemma key_ge_prefix: "bytes_of_string keyPrefix \<le> key g"
  using append_le_iff [of "bytes_of_string keyPrefix" "[]"]
  by (simp add: key_def wire_simps)

lemma sorted_list_of_set_key:
  assumes "finite G" shows "sorted_list_of_set (key ` G) = map key (sorted_list_of_set G)"
proof (rule sorted_distinct_set_unique)
  show "sorted (map key (sorted_list_of_set G))" by (simp add: sorted_map key_le_iff)
  show "distinct (map key (sorted_list_of_set G))" by (simp add: distinct_map inj_on_def)
qed (use assms in simp_all)

section \<open>What the rest of the program relies on\<close>

locale sketch_store =
  fixes save :: "string \<Rightarrow> bytes \<Rightarrow> 'st \<Rightarrow> 'st \<times> err" and stored :: "'st \<Rightarrow> (string \<rightharpoonup> bytes)"
  assumes finite_stored: "finite (dom (stored st))"
    and save_ok: "save g b st = (st', None) \<Longrightarrow> stored st' = (stored st)(g \<mapsto> b)"
    and save_err: "save g b st = (st', Some e) \<Longrightarrow> stored st' = stored st"

lemma Save_parts:
  "snd (Save B g b st) = snd (bd_Set B (st_db st) (key g) b)"
  "st_db (fst (Save B g b st)) = fst (bd_Set B (st_db st) (key g) b)"
  by (simp_all add: Save_def Let_def split_beta)

lemma Save_metrics:
  "metricSaveDurationSeconds (st_metrics (fst (Save B g b st))) = Suc (metricSaveDurationSeconds (st_metrics st))"
  "metricSaveErrorsTotal (st_metrics (fst (Save B g b st)))
     = metricSaveErrorsTotal (st_metrics st) + (if snd (Save B g b st) = None then 0 else 1)"
  by (simp_all add: Save_def Let_def split_beta)

sublocale badger_spec \<subseteq> bs: sketch_store "Save B" "stored_groups contents"
proof
  fix st g b
  have inj: "inj_on key A" for A by (simp add: inj_on_def)
  show "finite (dom (stored_groups contents st))"
    using finite_vimageI [OF finite_contents inj [of UNIV], of "st_db st"]
    by (simp add: stored_groups_def vimage_def dom_def)
  fix st'
  show "stored_groups contents st' = (stored_groups contents st)(g \<mapsto> b)" if "Save B g b st = (st', None)"
    using Set_ok [of "st_db st" "key g" b "st_db st'"] that Save_parts [of B g b st]
    by (auto simp: stored_groups_def prod_eq_iff)
  show "stored_groups contents st' = stored_groups contents st" if "Save B g b st = (st', Some e)" for e
    using Set_err [of "st_db st" "key g" b "st_db st'" e] that Save_parts [of B g b st]
    by (auto simp: stored_groups_def prod_eq_iff)
qed

lemma load_items_keys:
  "load_items fn (map (\<lambda>g. (key g, Inr (v g))) gs) w = load_pairs fn (map (\<lambda>g. (g, v g)) gs) w"
  by (induction gs arbitrary: w) (simp_all add: HasPrefix_key split: option.split prod.split)

context badger_spec
begin

lemma Load_eq:
  "Load B st g = (case stored_groups contents st g of None \<Rightarrow> Inl ErrNotFound | Some b \<Rightarrow> Inr b)"
  by (simp add: Load_def Get stored_groups_def split: option.split)

lemma Load_after_Save:
  "Load B (fst (Save B g b st)) h =
    (if h = g \<and> snd (Save B g b st) = None then Inr b else Load B st h)"
proof -
  obtain st' er where "Save B g b st = (st', er)" by (cases "Save B g b st")
  then show ?thesis
    using bs.save_ok [of g b st st'] bs.save_err [of g b st st'] by (cases er) (simp_all add: Load_eq)
qed

lemma LoadAll_eq:
  "LoadAll B st fn w = load_pairs fn
     (map (\<lambda>g. (g, the (stored_groups contents st g))) (sorted_list_of_set (dom (stored_groups contents st)))) w"
proof -
  have "{k \<in> dom (contents (st_db st)). HasPrefix k (bytes_of_string keyPrefix) \<and> bytes_of_string keyPrefix \<le> k}
      = key ` dom (stored_groups contents st)"
    by (auto simp: HasPrefix_key key_ge_prefix stored_groups_def)
  then have "LoadAll B st fn w = load_items fn (map (\<lambda>k. (k, Inr (the (contents (st_db st) k))))
      (sorted_list_of_set (key ` dom (stored_groups contents st)))) w"
    by (simp only: LoadAll_def Items Let_def)
  also have "\<dots> = load_items fn (map (\<lambda>g. (key g, Inr (the (stored_groups contents st g))))
      (sorted_list_of_set (dom (stored_groups contents st)))) w"
    by (simp add: sorted_list_of_set_key bs.finite_stored comp_def) (simp add: stored_groups_def)
  finally show ?thesis by (simp only: load_items_keys)
qed

end

section \<open>Engine and store\<close>

text \<open>The store holds exactly the serialised sketches of the engine.\<close>

definition mirrors :: "(string \<rightharpoonup> bytes) \<Rightarrow> 's engine \<Rightarrow> bool" where
  "mirrors m e \<longleftrightarrow> m = (\<lambda>g. map_option (sk_Bytes (eng_alg e)) (eng_groups e g))"

definition saves_ok :: "'db badger \<Rightarrow> string \<Rightarrow> bool" where
  "saves_ok B g \<longleftrightarrow> (\<forall>db b. snd (bd_Set B db (key g) b) = None)"

lemma Engine_Add_upd:
  obtains sk where "fst (Engine_Add e g x) = e\<lparr>eng_groups := (eng_groups e)(g \<mapsto> sk)\<rparr>"
  by (simp add: Engine_Add_def Let_def)

context badger_spec
begin

text \<open>One save: it succeeds and the store mirrors the changed engine, or it fails and the store still
  mirrors the engine as it was.\<close>

lemma Persist_outcome:
  assumes "mirrors (stored_groups contents st) e"
    and "Persist (e\<lparr>eng_groups := (eng_groups e)(g \<mapsto> sk)\<rparr>) g (Save B g) st = (st', er)"
  shows "mirrors (stored_groups contents st') (if er = None then e\<lparr>eng_groups := (eng_groups e)(g \<mapsto> sk)\<rparr> else e)"
proof (cases er)
  case None
  then have "stored_groups contents st' = (stored_groups contents st)(g \<mapsto> sk_Bytes (eng_alg e) sk)"
    using assms(2) by (intro bs.save_ok) (simp add: Persist_def)
  with None assms(1) show ?thesis by (auto simp: mirrors_def)
next
  case (Some e')
  then have "stored_groups contents st' = stored_groups contents st"
    using assms(2) by (intro bs.save_err) (simp add: Persist_def)
  with Some assms(1) show ?thesis by simp
qed

lemma Add_outcome:
  assumes "mirrors (stored_groups contents st) e" and "Persist (fst (Engine_Add e g x)) g (Save B g) st = (st', er)"
  shows "mirrors (stored_groups contents st') (if er = None then fst (Engine_Add e g x) else e)"
proof -
  obtain sk where e: "fst (Engine_Add e g x) = e\<lparr>eng_groups := (eng_groups e)(g \<mapsto> sk)\<rparr>" by (rule Engine_Add_upd)
  show ?thesis using Persist_outcome [OF assms(1) assms(2) [unfolded e]] unfolding e .
qed

lemma Persist_mirrors:
  assumes "mirrors (stored_groups contents st) e" and "saves_ok B g"
  shows "mirrors (stored_groups contents (fst (Persist (e\<lparr>eng_groups := (eng_groups e)(g \<mapsto> sk)\<rparr>) g (Save B g) st)))
    (e\<lparr>eng_groups := (eng_groups e)(g \<mapsto> sk)\<rparr>)"
proof -
  let ?e = "e\<lparr>eng_groups := (eng_groups e)(g \<mapsto> sk)\<rparr>"
  have "snd (Persist ?e g (Save B g) st) = None" using assms(2) by (simp add: Persist_def saves_ok_def Save_parts)
  then show ?thesis using Persist_outcome [OF assms(1) prod.collapse [symmetric], of g sk] by simp
qed

lemma Add_mirrors:
  assumes "mirrors (stored_groups contents st) e" and "saves_ok B g"
  shows "mirrors (stored_groups contents (fst (Persist (fst (Engine_Add e g x)) g (Save B g) st))) (fst (Engine_Add e g x))"
proof -
  obtain sk where "fst (Engine_Add e g x) = e\<lparr>eng_groups := (eng_groups e)(g \<mapsto> sk)\<rparr>" by (rule Engine_Add_upd)
  then show ?thesis using Persist_mirrors [OF assms] by simp
qed

end

section \<open>A reference database\<close>

text \<open>An association list, newest entry first, that rejects keys of more than 65000 bytes.\<close>

definition ref_badger :: "(bytes \<times> bytes) list badger" where
  "ref_badger = \<lparr>bd_Open = (\<lambda>_ _. Inr []), bd_Close = (\<lambda>db. (db, None)),
     bd_Set = (\<lambda>db k v. if 65000 < length k then (db, Some (ErrExternal ''Key too large'')) else ((k, v) # db, None)),
     bd_Get = (\<lambda>db k. case map_of db k of None \<Rightarrow> Inl badger_ErrKeyNotFound | Some v \<Rightarrow> Inr (Inr v)),
     bd_Items = (\<lambda>db p s. map (\<lambda>k. (k, Inr (the (map_of db k))))
        (sorted_list_of_set {k \<in> dom (map_of db). HasPrefix k p \<and> s \<le> k}))\<rparr>"

interpretation ref_db: badger_spec ref_badger map_of
  by unfold_locales (auto simp: ref_badger_def finite_dom_map_of split: if_splits)

definition ref_store :: "(bytes \<times> bytes) list BadgerStore" where
  "ref_store = \<lparr>st_db = [], st_metrics = new_store_metrics\<rparr>"

declare ref_store_def [ref_defs] ref_badger_def [ref_defs] NewEngine_def [ref_defs]

lemma ref_saves_ok: "saves_ok ref_badger ''a''"
  by (simp add: saves_ok_def ref_badger_def key_def keyPrefix_def)

lemma ref_mirrors: "mirrors (stored_groups map_of ref_store) (NewEngine alg)"
  by (simp add: mirrors_def stored_groups_def ref_defs)

section \<open>Properties\<close>

text \<open>C33: \<^verbatim>\<open>Load\<close> after \<^verbatim>\<open>Save\<close>: a successful save is what the next load of that group returns; a
  failed save, and a save of any other group, leave every load as it was. Group names never
  interfere through the key layout. Every save is observed once, and counted as an error exactly
  when it returns one.\<close>

theorem Load_Save:
  assumes "badger_spec B contents"
  shows "Load B (fst (Save B g b st)) h =
      (if h = g \<and> snd (Save B g b st) = None then Inr b else Load B st h)
    \<and> metricSaveDurationSeconds (st_metrics (fst (Save B g b st))) = Suc (metricSaveDurationSeconds (st_metrics st))
    \<and> metricSaveErrorsTotal (st_metrics (fst (Save B g b st)))
      = metricSaveErrorsTotal (st_metrics st) + (if snd (Save B g b st) = None then 0 else 1)"
  using badger_spec.Load_after_Save [OF assms, of g b st h] Save_metrics [of B g b st] by blast

theorem Load_Save_witness:
  "Load ref_badger (fst (Save ref_badger ''a'' [1, 2] ref_store)) ''a'' = Inr [1, 2]"
proof -
  have "snd (Save ref_badger ''a'' [1, 2] ref_store) = None"
    by (simp add: Save_parts ref_badger_def key_def keyPrefix_def)
  then show ?thesis using Load_Save [OF ref_db.badger_spec_axioms, of "''a''" "[1, 2]" ref_store "''a''"] by simp
qed

text \<open>\<^verbatim>\<open>LoadAll\<close> calls its function exactly once for every persisted group, with the bytes saved
  last, in the lexicographic order of the group names, and stops at the first error, which it
  returns.\<close>

lemma LoadAll_calls:
  assumes "badger_spec B contents"
  shows "LoadAll B st fn w = load_pairs fn
    (map (\<lambda>g. (g, the (stored_groups contents st g))) (sorted_list_of_set (dom (stored_groups contents st)))) w"
  by (rule badger_spec.LoadAll_eq [OF assms])

lemma LoadAll_calls_example:
  "LoadAll ref_badger ref_store (\<lambda>g b w. (w + 1, None)) (0 :: nat) = (0, None)"
  using LoadAll_calls [OF ref_db.badger_spec_axioms, of ref_store "\<lambda>g b w. (w + 1, None)" "0 :: nat"]
  by (simp add: stored_groups_def ref_store_def)

end
