(* ===== verification/Router.thy ===== *)
theory Router
  imports Tracker_Prelude
begin

text \<open>
  Package \<^verbatim>\<open>internal/router\<close>: the consistent hash ring. A ring is a sorted list of 32-bit points
  and the map from points to node addresses. The 32-bit murmur3 hash is outside the repository
  and a parameter; all results hold for every hash function. The lookup by binary search is
  shown to find the clockwise successor of a group's hash.
\<close>

section \<open>Standard library pieces\<close>

text \<open>The decimal form of a number, as \<^verbatim>\<open>%d\<close> prints it.\<close>

fun itoa :: "nat \<Rightarrow> string" where
  "itoa n = (if n < 10 then [char_of (48 + n)] else itoa (n div 10) @ [char_of (48 + n mod 10)])"

declare itoa.simps [simp del]

text \<open>\<^verbatim>\<open>sort.Search\<close>: binary search for the first index in \<open>[i, j)\<close> at which \<open>f\<close> holds.\<close>

function search_loop :: "(nat \<Rightarrow> bool) \<Rightarrow> nat \<Rightarrow> nat \<Rightarrow> nat" where
  "search_loop f i j =
     (if i < j
      then let h = (i + j) div 2 in if \<not> f h then search_loop f (h + 1) j else search_loop f i h
      else i)"
  by pat_completeness auto

termination search_loop
  by (relation "measure (\<lambda>(f, i, j). j - i)") auto

declare search_loop.simps [simp del]

definition sort_Search :: "nat \<Rightarrow> (nat \<Rightarrow> bool) \<Rightarrow> nat" where
  "sort_Search n f = search_loop f 0 n"

section \<open>The ring\<close>

record Ring =
  ring :: "u32 list"
  nodeMap :: "u32 \<rightharpoonup> string"

definition vnodesPerNode :: nat where
  "vnodesPerNode = 150"

definition router_New :: Ring where
  "router_New = \<lparr>ring = [], nodeMap = Map.empty\<rparr>"

text \<open>Reading a Go map at a missing key gives the zero value.\<close>

definition owner :: "Ring \<Rightarrow> u32 \<Rightarrow> string" where
  "owner r h = (case nodeMap r h of None \<Rightarrow> [] | Some a \<Rightarrow> a)"

definition vnode_hash :: "(bytes \<Rightarrow> u32) \<Rightarrow> string \<Rightarrow> nat \<Rightarrow> u32" where
  "vnode_hash sum32 addr i = sum32 (bytes_of_string (addr @ ''#'' @ itoa i))"

definition AddNode :: "(bytes \<Rightarrow> u32) \<Rightarrow> Ring \<Rightarrow> string \<Rightarrow> Ring" where
  "AddNode sum32 r addr =
     (let r = fold (\<lambda>i r. let h = vnode_hash sum32 addr i
                          in r\<lparr>ring := ring r @ [h], nodeMap := (nodeMap r)(h \<mapsto> addr)\<rparr>)
                [0..<vnodesPerNode] r
      in r\<lparr>ring := sort (ring r)\<rparr>)"

fun remove_loop :: "string \<Rightarrow> u32 list \<Rightarrow> u32 list \<Rightarrow> Ring \<Rightarrow> u32 list \<times> Ring" where
  "remove_loop addr [] keep r = (keep, r)"
| "remove_loop addr (h # hs) keep r =
     (if owner r h \<noteq> addr then remove_loop addr hs (keep @ [h]) r
      else remove_loop addr hs keep (r\<lparr>nodeMap := (nodeMap r)(h := None)\<rparr>))"

definition RemoveNode :: "Ring \<Rightarrow> string \<Rightarrow> Ring" where
  "RemoveNode r addr = (let (keep, r) = remove_loop addr (ring r) [] r in r\<lparr>ring := keep\<rparr>)"

definition Resolve :: "(bytes \<Rightarrow> u32) \<Rightarrow> Ring \<Rightarrow> string \<Rightarrow> string" where
  "Resolve sum32 r g =
     (if ring r = [] then []
      else let h = sum32 (bytes_of_string g);
               idx = sort_Search (length (ring r)) (\<lambda>i. h \<le> ring r ! i);
               idx = (if idx = length (ring r) then 0 else idx)
           in owner r (ring r ! idx))"

section \<open>Binary search\<close>

lemma search_loop_spec:
  assumes "\<forall>a b. a \<le> b \<longrightarrow> b < j \<longrightarrow> f a \<longrightarrow> f b" and "i \<le> j"
  shows "i \<le> search_loop f i j \<and> search_loop f i j \<le> j
    \<and> (\<forall>k. i \<le> k \<and> k < search_loop f i j \<longrightarrow> \<not> f k) \<and> (search_loop f i j < j \<longrightarrow> f (search_loop f i j))"
  using assms
proof (induction f i j rule: search_loop.induct)
  case (1 f i j)
  show ?case
  proof (cases "i < j")
    case True
    let ?h = "(i + j) div 2"
    have h: "i \<le> ?h" "?h < j" using True by auto
    show ?thesis
    proof (cases "f ?h")
      case False
      then have eq: "search_loop f i j = search_loop f (?h + 1) j"
        using True by (subst search_loop.simps) (simp add: Let_def)
      have low: "\<not> f k" if "k \<le> ?h" for k using 1(3) that h(2) False by blast
      have "?h + 1 \<le> search_loop f (?h + 1) j \<and> search_loop f (?h + 1) j \<le> j
          \<and> (\<forall>k. ?h + 1 \<le> k \<and> k < search_loop f (?h + 1) j \<longrightarrow> \<not> f k)
          \<and> (search_loop f (?h + 1) j < j \<longrightarrow> f (search_loop f (?h + 1) j))"
        using h(2) by (intro 1(1) [OF True refl False 1(3)]) simp_all
      moreover have "\<not> f k" if "k < search_loop f (?h + 1) j" for k
        using low [of k] calculation that by (cases "k \<le> ?h") simp_all
      ultimately show ?thesis unfolding eq using h(1) by auto
    next
      case f: True
      then have eq: "search_loop f i j = search_loop f i ?h"
        using True by (subst search_loop.simps) (simp add: Let_def)
      have "i \<le> search_loop f i ?h \<and> search_loop f i ?h \<le> ?h
          \<and> (\<forall>k. i \<le> k \<and> k < search_loop f i ?h \<longrightarrow> \<not> f k)
          \<and> (search_loop f i ?h < ?h \<longrightarrow> f (search_loop f i ?h))"
      proof (rule 1(2) [OF True refl _ _ h(1)])
        show "\<forall>a b. a \<le> b \<longrightarrow> b < ?h \<longrightarrow> f a \<longrightarrow> f b" using 1(3) h(2) by (meson order.strict_trans)
      qed (simp add: f)
      with f h(2) show ?thesis unfolding eq by (auto simp: order.order_iff_strict)
    qed
  next
    case False
    with 1(4) show ?thesis by (auto simp: search_loop.simps)
  qed
qed

lemma sort_Search_spec:
  assumes "\<forall>a b. a \<le> b \<longrightarrow> b < n \<longrightarrow> f a \<longrightarrow> f b"
  shows "sort_Search n f \<le> n" and "k < sort_Search n f \<Longrightarrow> \<not> f k"
    and "sort_Search n f < n \<Longrightarrow> f (sort_Search n f)"
  using search_loop_spec [OF assms, of 0] by (auto simp: sort_Search_def)

section \<open>The clockwise successor\<close>

definition clockwise :: "u32 set \<Rightarrow> u32 \<Rightarrow> u32" where
  "clockwise S h = (if \<exists>q \<in> S. h \<le> q then Min {q \<in> S. h \<le> q} else Min S)"

definition ring_inv :: "Ring \<Rightarrow> bool" where
  "ring_inv r \<longleftrightarrow> sorted (ring r) \<and> set (ring r) = dom (nodeMap r)"

definition vnode_points :: "(bytes \<Rightarrow> u32) \<Rightarrow> string \<Rightarrow> u32 set" where
  "vnode_points sum32 addr = vnode_hash sum32 addr ` {..<vnodesPerNode}"

lemma clockwise_mem: "finite S \<Longrightarrow> S \<noteq> {} \<Longrightarrow> clockwise S h \<in> S"
proof -
  assume S: "finite S" "S \<noteq> {}"
  show ?thesis
  proof (cases "\<exists>q \<in> S. h \<le> q")
    case True
    then have "Min {q \<in> S. h \<le> q} \<in> {q \<in> S. h \<le> q}" using S by (intro Min_in) auto
    with True show ?thesis by (simp add: clockwise_def)
  qed (use S in \<open>simp add: clockwise_def\<close>)
qed

lemma clockwise_eqI:
  assumes "finite S" and "p \<in> S" and "h \<le> p" and "\<And>q. q \<in> S \<Longrightarrow> h \<le> q \<Longrightarrow> p \<le> q"
  shows "clockwise S h = p"
proof -
  have "Min {q \<in> S. h \<le> q} = p" using assms by (intro Min_eqI) auto
  then show ?thesis using assms by (auto simp: clockwise_def)
qed

lemma clockwise_subset:
  assumes "finite S" and "T \<subseteq> S" and "clockwise S h \<in> T"
  shows "clockwise T h = clockwise S h"
proof -
  have fin: "finite T" using assms(1,2) by (rule rev_finite_subset)
  show ?thesis
  proof (cases "\<exists>q \<in> S. h \<le> q")
    case True
    then have m: "clockwise S h = Min {q \<in> S. h \<le> q}" by (simp add: clockwise_def)
    have "Min {q \<in> S. h \<le> q} \<in> {q \<in> S. h \<le> q}" using assms(1) True by (intro Min_in) auto
    then have "h \<le> clockwise S h" using m by simp
    moreover have "clockwise S h \<le> q" if "q \<in> T" "h \<le> q" for q
      using that assms(1,2) unfolding m by (intro Min_le) auto
    ultimately show ?thesis using fin assms(3) by (intro clockwise_eqI)
  next
    case False
    then have m: "clockwise S h = Min S" by (simp add: clockwise_def)
    have "Min T = Min S" using fin assms(1-3) unfolding m by (intro Min_eqI) auto
    with False assms(2) m show ?thesis by (auto simp: clockwise_def)
  qed
qed

lemma Resolve_eq:
  assumes "sorted (ring r)" and "ring r \<noteq> []"
  shows "Resolve sum32 r g = owner r (clockwise (set (ring r)) (sum32 (bytes_of_string g)))"
proof -
  let ?xs = "ring r" and ?h = "sum32 (bytes_of_string g)"
  let ?n = "length ?xs"
  define i where "i = sort_Search ?n (\<lambda>i. ?h \<le> ?xs ! i)"
  have mono: "\<forall>a b. a \<le> b \<longrightarrow> b < ?n \<longrightarrow> ?h \<le> ?xs ! a \<longrightarrow> ?h \<le> ?xs ! b"
    using sorted_nth_mono [OF assms(1)] order.trans by blast
  note spec = sort_Search_spec [where n = ?n and f = "\<lambda>i. ?h \<le> ?xs ! i", OF mono, folded i_def]
  note le = spec(1) and low = spec(2) and at = spec(3)
  show ?thesis
  proof (cases "i = ?n")
    case True
    then have "\<not> (\<exists>q \<in> set ?xs. ?h \<le> q)" using low by (auto simp: in_set_conv_nth)
    moreover have "Min (set ?xs) = ?xs ! 0"
      using assms by (intro Min_eqI) (auto simp: in_set_conv_nth sorted_nth_mono)
    ultimately show ?thesis
      using True assms(2) by (simp add: Resolve_def i_def [symmetric] clockwise_def)
  next
    case False
    then have i: "i < ?n" using le by simp
    have "?xs ! i \<le> q" if "q \<in> set ?xs" "?h \<le> q" for q
    proof -
      from that(1) obtain k where k: "k < ?n" "q = ?xs ! k" by (auto simp: in_set_conv_nth)
      with that(2) low have "i \<le> k" by (meson not_le)
      with k show ?thesis by (simp add: sorted_nth_mono [OF assms(1)])
    qed
    then have "clockwise (set ?xs) ?h = ?xs ! i"
      using at i by (intro clockwise_eqI) auto
    with False assms(2) show ?thesis by (simp add: Resolve_def i_def [symmetric])
  qed
qed

lemma Resolve_successor:
  assumes "ring_inv r" and "ring r \<noteq> []"
  shows "Resolve sum32 r g = owner r (clockwise (set (ring r)) (sum32 (bytes_of_string g)))"
    and "clockwise (set (ring r)) h \<in> set (ring r)"
proof -
  show "Resolve sum32 r g = owner r (clockwise (set (ring r)) (sum32 (bytes_of_string g)))"
    using assms by (intro Resolve_eq) (simp_all add: ring_inv_def)
  show "clockwise (set (ring r)) h \<in> set (ring r)" using assms(2) by (intro clockwise_mem) simp_all
qed

section \<open>Adding and removing nodes\<close>

lemma add_loop:
  "fold (\<lambda>i r. let h = vnode_hash sum32 addr i
               in r\<lparr>ring := ring r @ [h], nodeMap := (nodeMap r)(h \<mapsto> addr)\<rparr>) is r
   = r\<lparr>ring := ring r @ map (vnode_hash sum32 addr) is,
       nodeMap := (\<lambda>h. if h \<in> vnode_hash sum32 addr ` set is then Some addr else nodeMap r h)\<rparr>"
  by (induction "is" arbitrary: r) (auto simp: Let_def fun_eq_iff)

lemma AddNode_ring: "ring (AddNode sum32 r addr) = sort (ring r @ map (vnode_hash sum32 addr) [0..<vnodesPerNode])"
  by (simp add: AddNode_def add_loop)

lemma AddNode_nodeMap:
  "nodeMap (AddNode sum32 r addr) h = (if h \<in> vnode_points sum32 addr then Some addr else nodeMap r h)"
  by (simp add: AddNode_def add_loop vnode_points_def atLeast0LessThan)

lemma set_AddNode: "set (ring (AddNode sum32 r addr)) = set (ring r) \<union> vnode_points sum32 addr"
  by (simp add: AddNode_ring vnode_points_def atLeast0LessThan)

lemma owner_AddNode:
  "owner (AddNode sum32 r addr) h = (if h \<in> vnode_points sum32 addr then addr else owner r h)"
  by (simp add: owner_def AddNode_nodeMap)

lemma AddNode_nonempty: "ring (AddNode sum32 r addr) \<noteq> []"
proof -
  have "length (ring (AddNode sum32 r addr)) = length (ring r) + vnodesPerNode" by (simp add: AddNode_ring)
  then show ?thesis by (auto simp: vnodesPerNode_def)
qed

lemma ring_inv_AddNode: "ring_inv r \<Longrightarrow> ring_inv (AddNode sum32 r addr)"
proof -
  assume r: "ring_inv r"
  have "sorted (ring (AddNode sum32 r addr))" by (simp add: AddNode_ring)
  with r show ?thesis
    by (auto simp: ring_inv_def set_AddNode AddNode_nodeMap domIff split: if_splits)
qed

lemma owner_delete: "owner (r\<lparr>nodeMap := (nodeMap r)(h := None)\<rparr>) k = (if k = h then [] else owner r k)"
  by (simp add: owner_def)

lemma remove_loop_distinct:
  "distinct hs \<Longrightarrow> remove_loop addr hs keep r = (keep @ filter (\<lambda>h. owner r h \<noteq> addr) hs,
     r\<lparr>nodeMap := (\<lambda>h. if h \<in> set hs \<and> owner r h = addr then None else nodeMap r h)\<rparr>)"
proof (induction hs arbitrary: keep r)
  case (Cons h hs)
  have "filter (\<lambda>k. (if k = h then [] else owner r k) \<noteq> addr) hs = filter (\<lambda>k. owner r k \<noteq> addr) hs"
    using Cons.prems by (intro filter_cong) auto
  moreover have "(\<lambda>k. if k \<in> set hs \<and> (if k = h then [] else owner r k) = addr then None
      else if k = h then None else nodeMap r k)
    = (\<lambda>k. if k \<in> set (h # hs) \<and> owner r k = addr then None else nodeMap r k)" if "owner r h = addr"
    using that Cons.prems by auto
  moreover have "(\<lambda>k. if k \<in> set hs \<and> owner r k = addr then None else nodeMap r k)
    = (\<lambda>k. if k \<in> set (h # hs) \<and> owner r k = addr then None else nodeMap r k)" if "owner r h \<noteq> addr"
    using that by auto
  ultimately show ?case
    using Cons by (cases "owner r h = addr") (simp_all add: owner_delete cong: if_cong)
qed simp

lemma RemoveNode_distinct:
  assumes "distinct (ring r)"
  shows "RemoveNode r addr = r\<lparr>ring := filter (\<lambda>h. owner r h \<noteq> addr) (ring r),
    nodeMap := (\<lambda>h. if h \<in> set (ring r) \<and> owner r h = addr then None else nodeMap r h)\<rparr>"
  using assms by (simp add: RemoveNode_def remove_loop_distinct)

text \<open>With repeated points only the first occurrence of each point of the node is dropped.\<close>

lemma remove_loop_length:
  assumes "addr \<noteq> []"
  shows "length (fst (remove_loop addr hs keep r)) + card {h \<in> set hs. owner r h = addr}
    = length keep + length hs"
proof (induction hs arbitrary: keep r)
  case (Cons h hs)
  let ?A = "{k \<in> set hs. owner r k = addr}"
  show ?case
  proof (cases "owner r h = addr")
    case True
    have "{k \<in> set hs. (if k = h then [] else owner r k) = addr} = ?A - {h}" using assms by auto
    moreover have "{k \<in> set (h # hs). owner r k = addr} = insert h (?A - {h})" using True by auto
    ultimately show ?thesis
      using Cons.IH [of keep "r\<lparr>nodeMap := (nodeMap r)(h := None)\<rparr>"] True
      by (simp add: owner_delete card.insert_remove)
  next
    case False
    then have "{k \<in> set (h # hs). owner r k = addr} = ?A" by auto
    with False Cons.IH [of "keep @ [h]" r] show ?thesis by simp
  qed
qed simp

lemma remove_loop_nodeMap:
  assumes "addr \<noteq> []"
  shows "nodeMap (snd (remove_loop addr hs keep r)) =
    (\<lambda>h. if h \<in> set hs \<and> owner r h = addr then None else nodeMap r h)"
  using assms
  by (induction hs arbitrary: keep r) (auto simp: owner_delete fun_eq_iff owner_def)

section \<open>Properties\<close>

text \<open>C8: on a ring with at least one node \<^verbatim>\<open>Resolve\<close> returns the owner of the clockwise successor of
  the group's hash: the smallest point at or after it, or the smallest point of all when there
  is none. The binary search is correct for every sorted ring.\<close>

theorem Resolve_clockwise:
  assumes "ring_inv r" and "ring r \<noteq> []"
  shows "\<exists>p \<in> set (ring r). nodeMap r p = Some (Resolve sum32 r g)
    \<and> p = clockwise (set (ring r)) (sum32 (bytes_of_string g))"
proof -
  let ?p = "clockwise (set (ring r)) (sum32 (bytes_of_string g))"
  have mem: "?p \<in> set (ring r)" using assms(2) by (intro clockwise_mem) simp_all
  then have "?p \<in> dom (nodeMap r)" using assms(1) by (simp add: ring_inv_def)
  with mem show ?thesis
    using assms Resolve_eq [of r sum32 g] by (auto simp: ring_inv_def owner_def)
qed

lemma ring_inv_New: "ring_inv router_New"
  by (simp add: ring_inv_def router_New_def)

theorem Resolve_clockwise_witness:
  "\<exists>p \<in> set (ring (AddNode (\<lambda>_. 0) router_New ''n1'')).
     nodeMap (AddNode (\<lambda>_. 0) router_New ''n1'') p = Some (Resolve (\<lambda>_. 0) (AddNode (\<lambda>_. 0) router_New ''n1'') ''g'')"
  using Resolve_clockwise [OF ring_inv_AddNode [OF ring_inv_New] AddNode_nonempty, of "\<lambda>_. 0" "''n1''" "\<lambda>_. 0" "''g''"]
  by blast

text \<open>C13: adding a node moves a group only to the new node: every group resolves to the node it
  had before or to the node just added. This holds for every hash function, collisions
  included.\<close>

theorem AddNode_minimal_disruption:
  assumes "ring_inv r" and "ring r \<noteq> []"
  shows "Resolve sum32 (AddNode sum32 r addr) g \<in> {Resolve sum32 r g, addr}"
proof -
  let ?r' = "AddNode sum32 r addr" and ?h = "sum32 (bytes_of_string g)"
  let ?p = "clockwise (set (ring ?r')) ?h"
  have s: "sorted (ring ?r')" using ring_inv_AddNode [OF assms(1)] by (simp add: ring_inv_def)
  have R: "Resolve sum32 ?r' g = owner ?r' ?p" by (rule Resolve_eq [OF s AddNode_nonempty])
  show ?thesis
  proof (cases "?p \<in> vnode_points sum32 addr")
    case True
    then show ?thesis by (simp add: R owner_AddNode)
  next
    case False
    have "?p \<in> set (ring ?r')" using AddNode_nonempty by (intro clockwise_mem) simp_all
    with False have "?p \<in> set (ring r)" by (simp add: set_AddNode)
    then have "clockwise (set (ring r)) ?h = ?p" by (intro clockwise_subset) (auto simp: set_AddNode)
    with False assms show ?thesis
      using Resolve_eq [of r sum32 g] by (simp add: R owner_AddNode ring_inv_def)
  qed
qed

theorem AddNode_minimal_disruption_witness:
  "Resolve (\<lambda>_. 0) (AddNode (\<lambda>_. 0) (AddNode (\<lambda>_. 0) router_New ''n1'') ''n2'') ''g''
     \<in> {Resolve (\<lambda>_. 0) (AddNode (\<lambda>_. 0) router_New ''n1'') ''g'', ''n2''}"
  by (rule AddNode_minimal_disruption [OF ring_inv_AddNode [OF ring_inv_New] AddNode_nonempty])

text \<open>C31: as long as no two virtual nodes collide, removing a node moves only the groups that
  resolved to it, and nothing resolves to it any more; the ring stays well formed.\<close>

theorem RemoveNode_minimal_disruption:
  assumes "ring_inv r" and "distinct (ring r)" and "addr \<noteq> []"
  shows "ring_inv (RemoveNode r addr) \<and> distinct (ring (RemoveNode r addr))
    \<and> Resolve sum32 (RemoveNode r addr) g \<noteq> addr
    \<and> (Resolve sum32 r g \<noteq> addr \<longrightarrow> Resolve sum32 (RemoveNode r addr) g = Resolve sum32 r g)"
proof -
  let ?r' = "RemoveNode r addr" and ?h = "sum32 (bytes_of_string g)"
  note rm = RemoveNode_distinct [OF assms(2), of addr]
  have inv': "ring_inv ?r'" using assms(1) by (auto simp: rm ring_inv_def domIff sorted_wrt_filter split: if_splits)
  have own: "owner ?r' h = owner r h" if "h \<in> set (ring ?r')" for h using that by (simp add: rm owner_def)
  have Rs: "Resolve sum32 ?r' g = owner ?r' (clockwise (set (ring ?r')) ?h)
      \<and> clockwise (set (ring ?r')) ?h \<in> set (ring ?r')" if "ring ?r' \<noteq> []"
    using Resolve_successor [OF inv' that] by blast
  have "Resolve sum32 ?r' g \<noteq> addr"
  proof (cases "ring ?r' = []")
    case False
    then show ?thesis using Rs own by (auto simp: rm)
  qed (use assms(3) in \<open>simp add: Resolve_def\<close>)
  moreover have "Resolve sum32 ?r' g = Resolve sum32 r g" if ne: "Resolve sum32 r g \<noteq> addr"
  proof (cases "ring r = []")
    case True
    then show ?thesis by (simp add: Resolve_def rm)
  next
    case False
    let ?p = "clockwise (set (ring r)) ?h"
    have p: "Resolve sum32 r g = owner r ?p" "?p \<in> set (ring r)"
      using Resolve_successor [OF assms(1) False] by blast+
    then have p': "?p \<in> set (ring ?r')" using ne by (simp add: rm)
    then have "clockwise (set (ring ?r')) ?h = ?p" by (intro clockwise_subset) (auto simp: rm)
    moreover have "ring ?r' \<noteq> []" using p' by auto
    ultimately show ?thesis using Rs own p p' by simp
  qed
  ultimately show ?thesis using inv' assms(2) by (simp add: rm)
qed

definition two_node_ring :: Ring where
  "two_node_ring = \<lparr>ring = [10, 20], nodeMap = [10 \<mapsto> ''n1'', 20 \<mapsto> ''n2'']\<rparr>"

theorem RemoveNode_minimal_disruption_witness:
  "Resolve (\<lambda>_. 5) two_node_ring ''g'' = ''n1'' \<and> Resolve (\<lambda>_. 5) (RemoveNode two_node_ring ''n2'') ''g'' = ''n1''"
proof -
  have inv: "ring_inv two_node_ring" by (auto simp: ring_inv_def two_node_ring_def)
  have R: "Resolve (\<lambda>_. 5) two_node_ring ''g'' = ''n1''"
    by (simp add: Resolve_def two_node_ring_def sort_Search_def search_loop.simps owner_def)
  with RemoveNode_minimal_disruption [OF inv, of "''n2''" "\<lambda>_. 5" "''g''"] show ?thesis
    by (simp add: two_node_ring_def)
qed

text \<open>Removing a node that was just added gives back the ring as it was, provided the node
  owned nothing before and its points are fresh and pairwise distinct.\<close>

lemma RemoveNode_AddNode:
  assumes "ring_inv r" and "addr \<notin> ran (nodeMap r)" and "distinct (ring r)"
    and "inj_on (vnode_hash sum32 addr) {..<vnodesPerNode}"
    and "vnode_points sum32 addr \<inter> set (ring r) = {}"
  shows "RemoveNode (AddNode sum32 r addr) addr = r"
proof -
  let ?r' = "AddNode sum32 r addr" and ?ps = "map (vnode_hash sum32 addr) [0..<vnodesPerNode]"
  have "distinct ?ps" using assms(4) by (simp add: distinct_map atLeast0LessThan)
  then have d: "distinct (ring ?r')"
    using assms(3,5) by (auto simp: AddNode_ring vnode_points_def atLeast0LessThan)
  have own: "owner r h \<noteq> addr" if "h \<in> set (ring r)" for h
    using that assms(1,2) by (auto simp: ring_inv_def owner_def ran_def split: option.split)
  have fresh: "nodeMap r h = None" if "h \<in> vnode_points sum32 addr" for h
    using that assms(1,5) by (fastforce simp: ring_inv_def)
  have P: "set ?ps = vnode_points sum32 addr" by (simp add: vnode_points_def atLeast0LessThan)
  have "filter (\<lambda>h. owner ?r' h \<noteq> addr) (ring ?r') = sort (filter (\<lambda>h. owner ?r' h \<noteq> addr) (ring r @ ?ps))"
    by (simp add: AddNode_ring filter_sort)
  also have "filter (\<lambda>h. owner ?r' h \<noteq> addr) (ring r @ ?ps) = ring r"
  proof -
    have "filter (\<lambda>h. owner ?r' h \<noteq> addr) (ring r) = ring r"
      using own assms(5) by (intro filter_True) (auto simp: owner_AddNode)
    moreover have "filter (\<lambda>h. owner ?r' h \<noteq> addr) ?ps = []"
      unfolding filter_empty_conv P by (simp add: owner_AddNode)
    ultimately show ?thesis by simp
  qed
  finally have rg: "filter (\<lambda>h. owner ?r' h \<noteq> addr) (ring ?r') = ring r"
    using assms(1) by (simp add: ring_inv_def sort_key_id_if_sorted)
  have "(\<lambda>h. if h \<in> set (ring ?r') \<and> owner ?r' h = addr then None else nodeMap ?r' h) = nodeMap r"
    using own assms(1) fresh
    by (auto simp: fun_eq_iff set_AddNode owner_AddNode AddNode_nodeMap ring_inv_def domIff)
  with rg show ?thesis using RemoveNode_distinct [OF d, of addr] by simp
qed

text \<open>A hash that reads the decimal number after the third byte.\<close>

definition decimal_hash :: "bytes \<Rightarrow> u32" where
  "decimal_hash b = word_of_nat (foldl (\<lambda>n x. n * 10 + (unat x - 48)) 0 (drop 3 b))"

lemma unat_digit: "d < 10 \<Longrightarrow> unat (48 + word_of_nat d :: byte) = 48 + d"
  by (simp add: unat_word_ariths unat_of_nat)

lemma decimal_itoa: "foldl (\<lambda>n x. n * 10 + (unat x - 48)) 0 (bytes_of_string (itoa n)) = n"
proof (induction n rule: itoa.induct)
  case (1 n)
  then show ?case
    by (subst itoa.simps) (simp add: bytes_of_string_append, simp add: bytes_of_string_def unat_digit)
qed

lemma vnode_hash_decimal: "vnode_hash decimal_hash ''n1'' i = word_of_nat i"
proof -
  have "drop 3 (bytes_of_string (''n1'' @ ''#'' @ itoa i)) = bytes_of_string (itoa i)"
    by (simp add: bytes_of_string_def)
  then show ?thesis by (simp only: vnode_hash_def decimal_hash_def decimal_itoa)
qed

lemma RemoveNode_AddNode_example:
  "RemoveNode (AddNode decimal_hash router_New ''n1'') ''n1'' = router_New"
proof (rule RemoveNode_AddNode [OF ring_inv_New])
  show "inj_on (vnode_hash decimal_hash ''n1'') {..<vnodesPerNode}"
    by (auto simp: inj_on_def vnode_hash_decimal vnodesPerNode_def word_unat_eq_iff unat_of_nat)
qed (simp_all add: router_New_def)

text \<open>C38: removing a node whose points occur more than once does not remove it: after the same
  address has been added twice and removed, the ring still holds points that belong to nobody,
  and every group resolves to the empty address.\<close>

theorem RemoveNode_orphans:
  assumes "addr \<noteq> []"
  shows "ring (RemoveNode (AddNode sum32 (AddNode sum32 router_New addr) addr) addr) \<noteq> []
    \<and> Resolve sum32 (RemoveNode (AddNode sum32 (AddNode sum32 router_New addr) addr) addr) g = []"
proof -
  let ?r = "AddNode sum32 (AddNode sum32 router_New addr) addr"
  let ?A = "{h \<in> set (ring ?r). owner ?r h = addr}"
  have len: "length (ring ?r) = 2 * vnodesPerNode" by (simp add: AddNode_ring router_New_def)
  have "?A \<subseteq> vnode_points sum32 addr" by (auto simp: set_AddNode router_New_def)
  then have "card ?A \<le> card (vnode_points sum32 addr)" by (intro card_mono) (simp_all add: vnode_points_def)
  also have "\<dots> \<le> vnodesPerNode"
    using card_image_le [of "{..<vnodesPerNode}" "vnode_hash sum32 addr"] by (simp add: vnode_points_def)
  finally have "vnodesPerNode \<le> length (fst (remove_loop addr (ring ?r) [] ?r))"
    using remove_loop_length [OF assms, of "ring ?r" "[]" ?r] len by simp
  then have "fst (remove_loop addr (ring ?r) [] ?r) \<noteq> []" by (auto simp: vnodesPerNode_def)
  moreover have "nodeMap (snd (remove_loop addr (ring ?r) [] ?r)) = Map.empty"
    by (auto simp: remove_loop_nodeMap [OF assms] fun_eq_iff owner_AddNode AddNode_nodeMap set_AddNode router_New_def)
  ultimately show ?thesis
    by (simp add: RemoveNode_def Resolve_def owner_def split_beta Let_def)
qed

theorem RemoveNode_orphans_witness:
  "Resolve (\<lambda>_. 0) (RemoveNode (AddNode (\<lambda>_. 0) (AddNode (\<lambda>_. 0) router_New ''n1'') ''n1'') ''n1'') ''g'' = []"
  using RemoveNode_orphans [of "''n1''" "\<lambda>_. 0" "''g''"] by simp

end
