(* ===== verification/Server.thy ===== *)
theory Server
  imports Badger_Store Router
begin

text \<open>
  Package \<^verbatim>\<open>internal/server\<close>, files \<^verbatim>\<open>grpc.go\<close> and \<^verbatim>\<open>metrics.go\<close>: the gRPC service. A handler is a
  function on the server object and the world it acts on: the engine and the store it shares
  with the Raft node, and an external part \<open>'x\<close> (the Raft instance, the network, the peers).
  Connections and remote calls are outside the repository and enter as the fields of
  \<open>server_env\<close>; an error result of a call is \<open>Inl\<close>. Contexts, deadlines and clock readings are not
  modelled: of a latency histogram only the number of observations is kept.
\<close>

section \<open>Messages and metrics\<close>

record AddRequest =
  areq_Group :: string
  areq_Id :: u64

record BatchAddRequest =
  breq_Group :: string
  breq_Ids :: "u64 list"

record AddResponse =
  aresp_Ok :: bool

record QueryRequest =
  qreq_Group :: string
  qreq_StaleOk :: bool

record QueryResponse =
  qresp_Group :: string
  qresp_Cardinality :: u64

text \<open>Counters and histograms by their label values.\<close>

record metrics =
  metricRequestsTotal :: "string \<times> string \<Rightarrow> nat"
  metricRequestDurationSeconds :: "string \<Rightarrow> nat"
  metricRaftProposalsTotal :: "string \<Rightarrow> nat"
  metricForwardedRequestsTotal :: "string \<times> string \<Rightarrow> nat"
  metricForwardedErrorsTotal :: "string \<times> string \<Rightarrow> nat"
  metricBatchSize :: "nat list"
  metricGRPCRequestsTotal :: "string \<times> string \<Rightarrow> nat"
  metricGRPCDurationSeconds :: "string \<times> string \<Rightarrow> nat"

definition Inc :: "'k \<Rightarrow> ('k \<Rightarrow> nat) \<Rightarrow> ('k \<Rightarrow> nat)" where
  "Inc k m = m(k := Suc (m k))"

definition no_metrics :: metrics where
  "no_metrics = \<lparr>metricRequestsTotal = (\<lambda>_. 0), metricRequestDurationSeconds = (\<lambda>_. 0),
     metricRaftProposalsTotal = (\<lambda>_. 0), metricForwardedRequestsTotal = (\<lambda>_. 0),
     metricForwardedErrorsTotal = (\<lambda>_. 0), metricBatchSize = [],
     metricGRPCRequestsTotal = (\<lambda>_. 0), metricGRPCDurationSeconds = (\<lambda>_. 0)\<rparr>"

section \<open>The server object and its world\<close>

record ('s, 'db, 'x) world =
  w_engine :: "'s engine"
  w_store :: "'db BadgerStore"
  w_ext :: 'x

text \<open>The \<^verbatim>\<open>RaftNode\<close> interface has one method; \<open>None\<close> is \<^verbatim>\<open>nil\<close>, standalone mode.\<close>

type_synonym ('s, 'db, 'x) RaftNode = "string \<Rightarrow> u64 \<Rightarrow> ('s, 'db, 'x) world \<Rightarrow> ('s, 'db, 'x) world \<times> err"

record ('s, 'db, 'x, 'c) Server =
  srv_node :: "('s, 'db, 'x) RaftNode option"
  srv_router :: "Ring option"
  srv_selfAddr :: string
  srv_dialOpts :: "string list"
  srv_conns :: "string \<rightharpoonup> 'c"
  srv_metrics :: metrics

record ('s, 'db, 'x, 'c) server_env =
  se_sum32 :: "bytes \<Rightarrow> u32"
  se_badger :: "'db badger"
  se_Dial :: "string \<Rightarrow> string list \<Rightarrow> ('s, 'db, 'x) world \<Rightarrow> ('s, 'db, 'x) world \<times> (go_error + 'c)"
  se_peer_Add :: "'c \<Rightarrow> AddRequest \<Rightarrow> ('s, 'db, 'x) world \<Rightarrow> ('s, 'db, 'x) world \<times> (go_error + AddResponse)"
  se_peer_BatchAdd :: "'c \<Rightarrow> BatchAddRequest \<Rightarrow> ('s, 'db, 'x) world \<Rightarrow> ('s, 'db, 'x) world \<times> (go_error + AddResponse)"
  se_peer_Query :: "'c \<Rightarrow> QueryRequest \<Rightarrow> ('s, 'db, 'x) world \<Rightarrow> ('s, 'db, 'x) world \<times> (go_error + QueryResponse)"
  se_CloseConn :: "'c \<Rightarrow> ('s, 'db, 'x) world \<Rightarrow> ('s, 'db, 'x) world \<times> err"

type_synonym ('s, 'db, 'x, 'c) srv_state = "('s, 'db, 'x, 'c) Server \<times> ('s, 'db, 'x) world"

definition server_New :: "('s, 'db, 'x) RaftNode option \<Rightarrow> Ring option \<Rightarrow> string \<Rightarrow> ('s, 'db, 'x, 'c) Server" where
  "server_New node rg selfAddr = \<lparr>srv_node = node, srv_router = rg, srv_selfAddr = selfAddr,
     srv_dialOpts = [], srv_conns = Map.empty, srv_metrics = no_metrics\<rparr>"

definition SetDialOptions :: "('s, 'db, 'x, 'c) Server \<Rightarrow> string list \<Rightarrow> ('s, 'db, 'x, 'c) Server" where
  "SetDialOptions srv opts = srv\<lparr>srv_dialOpts := opts\<rparr>"

section \<open>The handlers\<close>

text \<open>The guard in front of every forwarding block: the address to forward to, if any.\<close>

definition forward_owner :: "('s, 'db, 'x, 'c) server_env \<Rightarrow> ('s, 'db, 'x, 'c) Server \<Rightarrow> string \<Rightarrow> string option" where
  "forward_owner env srv g =
     (case srv_router srv of
        None \<Rightarrow> None
      | Some r \<Rightarrow>
          if srv_selfAddr srv = [] then None
          else let peer = Resolve (se_sum32 env) r g
               in if peer \<noteq> [] \<and> peer \<noteq> srv_selfAddr srv then Some peer else None)"

definition getPeerClient ::
    "('s, 'db, 'x, 'c) server_env \<Rightarrow> string \<Rightarrow> ('s, 'db, 'x, 'c) srv_state \<Rightarrow>
     ('s, 'db, 'x, 'c) srv_state \<times> (go_error + 'c)" where
  "getPeerClient env addr sw =
     (let (srv, w) = sw in
      case srv_conns srv addr of
        Some conn \<Rightarrow> ((srv, w), Inr conn)
      | None \<Rightarrow>
          (case se_Dial env addr (''insecure'' # srv_dialOpts srv) w of
             (w, Inl e) \<Rightarrow> ((srv, w), Inl e)
           | (w, Inr conn) \<Rightarrow> ((srv\<lparr>srv_conns := (srv_conns srv)(addr \<mapsto> conn)\<rparr>, w), Inr conn)))"

definition upd_metrics :: "(metrics \<Rightarrow> metrics) \<Rightarrow> ('s, 'db, 'x, 'c) srv_state \<Rightarrow> ('s, 'db, 'x, 'c) srv_state" where
  "upd_metrics f sw = (case sw of (srv, w) \<Rightarrow> (srv\<lparr>srv_metrics := f (srv_metrics srv)\<rparr>, w))"

definition inc_forwarded :: "string \<Rightarrow> string \<Rightarrow> metrics \<Rightarrow> metrics" where
  "inc_forwarded peer method m = m\<lparr>metricForwardedRequestsTotal := Inc (peer, method) (metricForwardedRequestsTotal m)\<rparr>"

definition inc_forward_error :: "string \<Rightarrow> string \<Rightarrow> metrics \<Rightarrow> metrics" where
  "inc_forward_error peer method m = m\<lparr>metricForwardedErrorsTotal := Inc (peer, method) (metricForwardedErrorsTotal m)\<rparr>"

definition inc_proposals :: "string \<Rightarrow> metrics \<Rightarrow> metrics" where
  "inc_proposals status m = m\<lparr>metricRaftProposalsTotal := Inc status (metricRaftProposalsTotal m)\<rparr>"

text \<open>A forwarded call: count the attempt, get a connection, call the peer, count a failure.\<close>

definition forward_call ::
    "('s, 'db, 'x, 'c) server_env \<Rightarrow> string \<Rightarrow> string \<Rightarrow>
     ('c \<Rightarrow> ('s, 'db, 'x) world \<Rightarrow> ('s, 'db, 'x) world \<times> (go_error + 'r)) \<Rightarrow>
     ('s, 'db, 'x, 'c) srv_state \<Rightarrow> ('s, 'db, 'x, 'c) srv_state \<times> (go_error + 'r)" where
  "forward_call env peer method call sw =
     (let sw = upd_metrics (inc_forwarded peer method) sw in
      case getPeerClient env peer sw of
        (sw, Inl e) \<Rightarrow> (upd_metrics (inc_forward_error peer method) sw, Inl (ErrStatus Internal (Some e)))
      | ((srv, w), Inr client) \<Rightarrow>
          (case call client w of
             (w, Inl e) \<Rightarrow> (upd_metrics (inc_forward_error peer method) (srv, w), Inl e)
           | (w, Inr resp) \<Rightarrow> ((srv, w), Inr resp)))"

definition addID ::
    "('s, 'db, 'x, 'c) server_env \<Rightarrow> string \<Rightarrow> string \<Rightarrow> u64 \<Rightarrow> ('s, 'db, 'x, 'c) srv_state \<Rightarrow>
     ('s, 'db, 'x, 'c) srv_state \<times> err" where
  "addID env method g x sw =
     (let (srv, w) = sw in
      case forward_owner env srv g of
        Some peer \<Rightarrow>
          (case forward_call env peer method (\<lambda>c. se_peer_Add env c \<lparr>areq_Group = g, areq_Id = x\<rparr>) sw of
             (sw, Inl e) \<Rightarrow> (sw, Some e)
           | (sw, Inr _) \<Rightarrow> (sw, None))
      | None \<Rightarrow>
          (case srv_node srv of
             Some propose \<Rightarrow>
               (case propose g x w of
                  (w, Some e) \<Rightarrow> (upd_metrics (inc_proposals ''error'') (srv, w), Some (ErrStatus Internal (Some e)))
                | (w, None) \<Rightarrow> (upd_metrics (inc_proposals ''success'') (srv, w), None))
           | None \<Rightarrow>
               (case AddAndPersist (w_engine w) g x (Save (se_badger env) g) (w_store w) of
                  (eng, st, er) \<Rightarrow>
                    ((srv, w\<lparr>w_engine := eng, w_store := st\<rparr>),
                     map_option (\<lambda>e. ErrStatus Internal (Some e)) er))))"

text \<open>The deferred metric update of a handler.\<close>

definition count_request :: "string \<Rightarrow> string \<Rightarrow> metrics \<Rightarrow> metrics" where
  "count_request method status m =
     m\<lparr>metricRequestsTotal := Inc (method, status) (metricRequestsTotal m),
       metricRequestDurationSeconds := Inc method (metricRequestDurationSeconds m)\<rparr>"

definition finish ::
    "string \<Rightarrow> ('s, 'db, 'x, 'c) srv_state \<times> (go_error + 'r) \<Rightarrow> ('s, 'db, 'x, 'c) srv_state \<times> (go_error + 'r)" where
  "finish method r =
     (case r of
        (sw, Inl e) \<Rightarrow> (upd_metrics (count_request method ''error'') sw, Inl e)
      | (sw, Inr resp) \<Rightarrow> (upd_metrics (count_request method ''success'') sw, Inr resp))"

definition Server_Add ::
    "('s, 'db, 'x, 'c) server_env \<Rightarrow> AddRequest \<Rightarrow> ('s, 'db, 'x, 'c) srv_state \<Rightarrow>
     ('s, 'db, 'x, 'c) srv_state \<times> (go_error + AddResponse)" where
  "Server_Add env req sw = finish ''Add''
     (if areq_Group req = [] then (sw, Inl (ErrStatus InvalidArgument None))
      else case addID env ''Add'' (areq_Group req) (areq_Id req) sw of
        (sw, Some e) \<Rightarrow> (sw, Inl e)
      | (sw, None) \<Rightarrow> (sw, Inr \<lparr>aresp_Ok = True\<rparr>))"

fun batch_ids ::
    "('s, 'db, 'x, 'c) server_env \<Rightarrow> string \<Rightarrow> u64 list \<Rightarrow> ('s, 'db, 'x, 'c) srv_state \<Rightarrow>
     ('s, 'db, 'x, 'c) srv_state \<times> (go_error + AddResponse)" where
  "batch_ids env g [] sw = (sw, Inr \<lparr>aresp_Ok = True\<rparr>)"
| "batch_ids env g (v # vs) sw =
     (case addID env ''BatchAdd'' g v sw of
        (sw, Some e) \<Rightarrow> (sw, Inl e)
      | (sw, None) \<Rightarrow> batch_ids env g vs sw)"

definition Server_BatchAdd ::
    "('s, 'db, 'x, 'c) server_env \<Rightarrow> BatchAddRequest \<Rightarrow> ('s, 'db, 'x, 'c) srv_state \<Rightarrow>
     ('s, 'db, 'x, 'c) srv_state \<times> (go_error + AddResponse)" where
  "Server_BatchAdd env req sw = finish ''BatchAdd''
     (if breq_Group req = [] then (sw, Inl (ErrStatus InvalidArgument None))
      else case forward_owner env (fst sw) (breq_Group req) of
        Some peer \<Rightarrow> forward_call env peer ''BatchAdd'' (\<lambda>c. se_peer_BatchAdd env c req) sw
      | None \<Rightarrow>
          batch_ids env (breq_Group req) (breq_Ids req)
            (upd_metrics (\<lambda>m. m\<lparr>metricBatchSize := metricBatchSize m @ [length (breq_Ids req)]\<rparr>) sw))"

definition Server_Query ::
    "('s, 'db, 'x, 'c) server_env \<Rightarrow> QueryRequest \<Rightarrow> ('s, 'db, 'x, 'c) srv_state \<Rightarrow>
     ('s, 'db, 'x, 'c) srv_state \<times> (go_error + QueryResponse)" where
  "Server_Query env req sw = finish ''Query''
     (if qreq_Group req = [] then (sw, Inl (ErrStatus InvalidArgument None))
      else case forward_owner env (fst sw) (qreq_Group req) of
        Some peer \<Rightarrow> forward_call env peer ''Query'' (\<lambda>c. se_peer_Query env c req) sw
      | None \<Rightarrow>
          let card = (case Engine_Cardinality (w_engine (snd sw)) (qreq_Group req) of Inl _ \<Rightarrow> 0 | Inr c \<Rightarrow> c)
          in (sw, Inr \<lparr>qresp_Group = qreq_Group req, qresp_Cardinality = card\<rparr>))"

text \<open>\<^verbatim>\<open>Close\<close> closes every connection, in the order the map is ranged over, and keeps the map.\<close>

definition Server_Close ::
    "('s, 'db, 'x, 'c) server_env \<Rightarrow> (string set \<Rightarrow> string list) \<Rightarrow> ('s, 'db, 'x, 'c) srv_state \<Rightarrow>
     ('s, 'db, 'x, 'c) srv_state" where
  "Server_Close env order sw =
     (case sw of (srv, w) \<Rightarrow>
        (srv, fold (\<lambda>a w. fst (se_CloseConn env (the (srv_conns srv a)) w)) (order (dom (srv_conns srv))) w))"

section \<open>Helper lemmas\<close>

lemma upd_metrics_simps [simp]:
  "snd (upd_metrics f sw) = snd sw" "srv_node (fst (upd_metrics f sw)) = srv_node (fst sw)"
  "srv_router (fst (upd_metrics f sw)) = srv_router (fst sw)"
  "srv_selfAddr (fst (upd_metrics f sw)) = srv_selfAddr (fst sw)"
  "srv_conns (fst (upd_metrics f sw)) = srv_conns (fst sw)"
  "srv_metrics (fst (upd_metrics f sw)) = f (srv_metrics (fst sw))"
  by (simp_all add: upd_metrics_def split: prod.split)

lemma forward_owner_upd [simp]: "forward_owner env (fst (upd_metrics f sw)) g = forward_owner env (fst sw) g"
  by (auto simp: forward_owner_def Let_def split: option.split)

lemma forward_owner_fields [simp]:
  "forward_owner env (srv\<lparr>srv_metrics := m\<rparr>) g = forward_owner env srv g"
  "forward_owner env (srv\<lparr>srv_conns := c\<rparr>) g = forward_owner env srv g"
  by (auto simp: forward_owner_def Let_def split: option.split)

lemma finish_simps [simp]:
  "snd (finish method r) = snd r" "snd (fst (finish method r)) = snd (fst r)"
  "srv_conns (fst (fst (finish method r))) = srv_conns (fst (fst r))"
  by (simp_all add: finish_def split: prod.split sum.split)

text \<open>The status label of a result.\<close>

definition status_of :: "go_error + 'r \<Rightarrow> string" where
  "status_of r = (case r of Inl _ \<Rightarrow> ''error'' | Inr _ \<Rightarrow> ''success'')"

lemma metrics_finish:
  "srv_metrics (fst (fst (finish method r))) = count_request method (status_of (snd r)) (srv_metrics (fst (fst r)))"
  by (simp add: finish_def status_of_def split: prod.split sum.split)

text \<open>A local addition in standalone mode.\<close>

lemma addID_standalone:
  assumes "forward_owner env (fst sw) g = None" and "srv_node (fst sw) = None"
  shows "addID env method g x sw =
    (let e = fst (Engine_Add (w_engine (snd sw)) g x);
         (st, er) = Persist e g (Save (se_badger env) g) (w_store (snd sw))
     in ((fst sw, (snd sw)\<lparr>w_engine := e, w_store := st\<rparr>), map_option (\<lambda>e. ErrStatus Internal (Some e)) er))"
  using assms by (cases sw) (simp add: addID_def AddAndPersist_eq Let_def split_beta)

lemma Persist_saves_ok:
  assumes "saves_ok B g" and "eng_groups e g = Some sk"
  shows "snd (Persist e g (Save B g) st) = None"
  using assms Save_parts(1) [of B g _ st] by (simp add: Persist_def saves_ok_def)

lemma Engine_Add_groups: "\<exists>sk. eng_groups (fst (Engine_Add e g x)) g = Some sk"
  by (simp add: Engine_Add_def Let_def)

lemma addID_standalone_ok:
  assumes "forward_owner env (fst sw) g = None" and "srv_node (fst sw) = None" and "saves_ok (se_badger env) g"
  shows "addID env method g x sw =
    ((fst sw, (snd sw)\<lparr>w_engine := fst (Engine_Add (w_engine (snd sw)) g x),
      w_store := fst (Persist (fst (Engine_Add (w_engine (snd sw)) g x)) g (Save (se_badger env) g) (w_store (snd sw)))\<rparr>),
     None)"
proof -
  obtain sk where "eng_groups (fst (Engine_Add (w_engine (snd sw)) g x)) g = Some sk"
    using Engine_Add_groups [of "w_engine (snd sw)" g x] by blast
  from Persist_saves_ok [OF assms(3) this] show ?thesis
    by (simp add: addID_standalone [OF assms(1,2)] Let_def split_beta)
qed

lemma batch_ids_standalone:
  assumes "badger_spec (se_badger env) contents" and "saves_ok (se_badger env) g"
    and "forward_owner env srv g = None" and "srv_node srv = None"
  shows "\<exists>w'. batch_ids env g vs (srv, w) = ((srv, w'), Inr \<lparr>aresp_Ok = True\<rparr>)
    \<and> w_engine w' = run_adds (map (Pair g) vs) (w_engine w) \<and> w_ext w' = w_ext w
    \<and> (mirrors (stored_groups contents (w_store w)) (w_engine w) \<longrightarrow>
        mirrors (stored_groups contents (w_store w')) (w_engine w'))"
proof (induction vs arbitrary: w)
  case (Cons v vs)
  define w1 where "w1 = w\<lparr>w_engine := fst (Engine_Add (w_engine w) g v),
    w_store := fst (Persist (fst (Engine_Add (w_engine w) g v)) g (Save (se_badger env) g) (w_store w))\<rparr>"
  have "addID env ''BatchAdd'' g v (srv, w) = ((srv, w1), None)"
    using assms(2-4) by (simp add: addID_standalone_ok w1_def)
  moreover have "mirrors (stored_groups contents (w_store w1)) (w_engine w1)"
    if "mirrors (stored_groups contents (w_store w)) (w_engine w)"
    using badger_spec.Add_mirrors [OF assms(1) that assms(2)] by (simp add: w1_def)
  ultimately show ?case using Cons [of w1] by (auto simp: w1_def)
qed simp

text \<open>A batch that fails has stopped at an id whose save failed: the engine holds it, the store does not.\<close>

lemma batch_ids_failure:
  assumes "badger_spec (se_badger env) contents" and "forward_owner env srv g = None" and "srv_node srv = None"
    and "mirrors (stored_groups contents (w_store w)) (w_engine w)" and "batch_ids env g vs (srv, w) = ((srv', w'), Inl e)"
  shows "\<exists>k < length vs. w_engine w' = run_adds (map (Pair g) (take (Suc k) vs)) (w_engine w)
    \<and> mirrors (stored_groups contents (w_store w')) (run_adds (map (Pair g) (take k vs)) (w_engine w)) \<and> w_ext w' = w_ext w"
  using assms(4,5)
proof (induction vs arbitrary: w)
  case (Cons v vs)
  let ?e = "fst (Engine_Add (w_engine w) g v)"
  obtain st er where p: "Persist ?e g (Save (se_badger env) g) (w_store w) = (st, er)"
    by (cases "Persist ?e g (Save (se_badger env) g) (w_store w)")
  note out = badger_spec.Add_outcome [OF assms(1) Cons.prems(1) p]
  have a: "addID env ''BatchAdd'' g v (srv, w)
      = ((srv, w\<lparr>w_engine := ?e, w_store := st\<rparr>), map_option (\<lambda>e. ErrStatus Internal (Some e)) er)"
    using assms(2,3) p by (simp add: addID_standalone Let_def)
  show ?case
  proof (cases er)
    case None
    let ?w = "w\<lparr>w_engine := ?e, w_store := st\<rparr>"
    have "batch_ids env g vs (srv, ?w) = ((srv', w'), Inl e)" using Cons.prems(2) a None by simp
    from Cons.IH [OF _ this] out None obtain k where "k < length vs"
      "w_engine w' = run_adds (map (Pair g) (take (Suc k) vs)) ?e" "w_ext w' = w_ext w"
      "mirrors (stored_groups contents (w_store w')) (run_adds (map (Pair g) (take k vs)) ?e)" by auto
    then show ?thesis by (intro exI [of _ "Suc k"]) (simp add: run_adds_def)
  next
    case (Some e')
    then have "w' = w\<lparr>w_engine := ?e, w_store := st\<rparr>" using Cons.prems(2) a by simp
    then show ?thesis using out Some by (intro exI [of _ 0]) (simp add: run_adds_def)
  qed
qed simp

section \<open>Metric bookkeeping\<close>

text \<open>Failed forwards never outnumber attempts.\<close>

definition metrics_inv :: "metrics \<Rightarrow> bool" where
  "metrics_inv m \<longleftrightarrow> (\<forall>k. metricForwardedErrorsTotal m k \<le> metricForwardedRequestsTotal m k)"

lemma metrics_inv_simps [simp]:
  "metrics_inv (inc_proposals st m) = metrics_inv m"
  "metrics_inv (count_request method st m) = metrics_inv m"
  "metrics_inv (m\<lparr>metricBatchSize := b\<rparr>) = metrics_inv m"
  by (simp_all add: metrics_inv_def inc_proposals_def count_request_def)

lemma metrics_inv_forward:
  "metrics_inv m \<Longrightarrow> metrics_inv (inc_forwarded peer method m)"
  "metrics_inv m \<Longrightarrow> metrics_inv (inc_forward_error peer method (inc_forwarded peer method m))"
  by (auto simp: metrics_inv_def inc_forwarded_def inc_forward_error_def Inc_def intro: le_SucI)

lemma getPeerClient_metrics: "srv_metrics (fst (fst (getPeerClient env addr sw))) = srv_metrics (fst sw)"
  by (simp add: getPeerClient_def Let_def split: prod.split option.split sum.split)

lemma metrics_inv_forward_call:
  assumes "metrics_inv (srv_metrics (fst sw))"
  shows "metrics_inv (srv_metrics (fst (fst (forward_call env peer method call sw))))"
proof -
  obtain sw1 r where g: "getPeerClient env peer (upd_metrics (inc_forwarded peer method) sw) = (sw1, r)"
    by (cases "getPeerClient env peer (upd_metrics (inc_forwarded peer method) sw)")
  have "srv_metrics (fst sw1) = inc_forwarded peer method (srv_metrics (fst sw))"
    using getPeerClient_metrics [of env peer "upd_metrics (inc_forwarded peer method) sw"] g by simp
  with g metrics_inv_forward [OF assms] show ?thesis
    by (auto simp: forward_call_def Let_def upd_metrics_def split: prod.split sum.split)
qed

lemma metrics_inv_addID:
  assumes "metrics_inv (srv_metrics (fst sw))"
  shows "metrics_inv (srv_metrics (fst (fst (addID env method g x sw))))"
proof -
  obtain srv w where sw: "sw = (srv, w)" by (cases sw)
  show ?thesis
  proof (cases "forward_owner env srv g")
    case (Some peer)
    let ?r = "forward_call env peer method (\<lambda>c. se_peer_Add env c \<lparr>areq_Group = g, areq_Id = x\<rparr>) sw"
    have "fst (addID env method g x sw) = fst ?r"
      using Some by (simp add: addID_def sw split: prod.split sum.split)
    then show ?thesis using metrics_inv_forward_call [OF assms] by simp
  next
    case None
    then show ?thesis
      using assms by (auto simp: addID_def sw upd_metrics_def split: option.split prod.split)
  qed
qed

lemma metrics_inv_batch_ids:
  "metrics_inv (srv_metrics (fst sw)) \<Longrightarrow> metrics_inv (srv_metrics (fst (fst (batch_ids env g vs sw))))"
proof (induction vs arbitrary: sw)
  case (Cons v vs)
  then show ?case using metrics_inv_addID [OF Cons.prems, of env "''BatchAdd''" g v]
    by (auto split: prod.split option.split)
qed simp

text \<open>A view of the metrics that the forwarding and proposal counters do not touch is the same
  before and after the routing code of a handler.\<close>

locale metric_view =
  fixes f :: "metrics \<Rightarrow> 'v"
  assumes view_forwarded [simp]: "f (inc_forwarded peer method m) = f m"
    and view_forward_error [simp]: "f (inc_forward_error peer method m) = f m"
    and view_proposals [simp]: "f (inc_proposals st m) = f m"
    and view_batch_size [simp]: "f (m\<lparr>metricBatchSize := b\<rparr>) = f m"
begin

lemma view_forward_call: "f (srv_metrics (fst (fst (forward_call env peer method call sw)))) = f (srv_metrics (fst sw))"
proof -
  obtain sw1 r where g: "getPeerClient env peer (upd_metrics (inc_forwarded peer method) sw) = (sw1, r)"
    by (cases "getPeerClient env peer (upd_metrics (inc_forwarded peer method) sw)")
  have "srv_metrics (fst sw1) = inc_forwarded peer method (srv_metrics (fst sw))"
    using getPeerClient_metrics [of env peer "upd_metrics (inc_forwarded peer method) sw"] g by simp
  with g show ?thesis
    by (auto simp: forward_call_def Let_def upd_metrics_def split: prod.split sum.split)
qed

lemma view_addID: "f (srv_metrics (fst (fst (addID env method g x sw)))) = f (srv_metrics (fst sw))"
proof -
  obtain srv w where sw: "sw = (srv, w)" by (cases sw)
  show ?thesis
  proof (cases "forward_owner env srv g")
    case (Some peer)
    let ?r = "forward_call env peer method (\<lambda>c. se_peer_Add env c \<lparr>areq_Group = g, areq_Id = x\<rparr>) sw"
    have "fst (addID env method g x sw) = fst ?r"
      using Some by (simp add: addID_def sw split: prod.split sum.split)
    then show ?thesis by (simp add: view_forward_call)
  next
    case None
    then show ?thesis by (auto simp: addID_def sw upd_metrics_def split: option.split prod.split)
  qed
qed

lemma view_batch_ids: "f (srv_metrics (fst (fst (batch_ids env g vs sw)))) = f (srv_metrics (fst sw))"
proof (induction vs arbitrary: sw)
  case (Cons v vs)
  then show ?case using view_addID [of env "''BatchAdd''" g v sw]
    by (auto split: prod.split option.split)
qed simp

text \<open>A handler counts itself once, on top of metrics with the same view.\<close>

lemma view_Server_Add:
  "\<exists>m. srv_metrics (fst (fst (Server_Add env areq sw))) = count_request ''Add'' (status_of (snd (Server_Add env areq sw))) m
    \<and> f m = f (srv_metrics (fst sw))"
  using view_addID [of env "''Add''" "areq_Group areq" "areq_Id areq" sw]
  by (auto simp: Server_Add_def metrics_finish split: prod.split option.split)

lemma view_Server_BatchAdd:
  "\<exists>m. srv_metrics (fst (fst (Server_BatchAdd env breq sw)))
      = count_request ''BatchAdd'' (status_of (snd (Server_BatchAdd env breq sw))) m \<and> f m = f (srv_metrics (fst sw))"
  by (auto simp: Server_BatchAdd_def metrics_finish view_forward_call view_batch_ids split: option.split)

lemma view_Server_Query:
  "\<exists>m. srv_metrics (fst (fst (Server_Query env qreq sw)))
      = count_request ''Query'' (status_of (snd (Server_Query env qreq sw))) m \<and> f m = f (srv_metrics (fst sw))"
  by (auto simp: Server_Query_def metrics_finish view_forward_call Let_def split: option.split)

lemmas view_handlers = view_Server_Add view_Server_BatchAdd view_Server_Query

end

interpretation requests: metric_view metricRequestsTotal
  by unfold_locales (simp_all add: inc_forwarded_def inc_forward_error_def inc_proposals_def)

interpretation grpc_requests: metric_view metricGRPCRequestsTotal
  by unfold_locales (simp_all add: inc_forwarded_def inc_forward_error_def inc_proposals_def)

lemma requests_count [simp]: "metricRequestsTotal (count_request method st m) = Inc (method, st) (metricRequestsTotal m)"
  by (simp add: count_request_def)

section \<open>Properties\<close>


definition ref_server :: "(u64 set Sketch, (bytes \<times> bytes) list, unit, unit) srv_state" where
  "ref_server = (server_New None None [],
     \<lparr>w_engine = NewEngine (hll_Algorithm (example_env 0) ref_roaring), w_store = ref_store, w_ext = ()\<rparr>)"

text \<open>A server that reaches no other one.\<close>

definition leaf_env :: "(bytes \<Rightarrow> u32) \<Rightarrow> 'db badger \<Rightarrow> ('s, 'db, 'x, 'c) server_env" where
  "leaf_env sum32 B = \<lparr>se_sum32 = sum32, se_badger = B,
     se_Dial = (\<lambda>a opts w. (w, Inl (ErrExternal ''unreachable''))),
     se_peer_Add = (\<lambda>c req w. (w, Inl (ErrExternal ''unreachable''))),
     se_peer_BatchAdd = (\<lambda>c req w. (w, Inl (ErrExternal ''unreachable''))),
     se_peer_Query = (\<lambda>c req w. (w, Inl (ErrExternal ''unreachable''))),
     se_CloseConn = (\<lambda>c w. (w, None))\<rparr>"

lemma metrics_inv_no_metrics: "metrics_inv no_metrics"
  by (simp add: metrics_inv_def no_metrics_def)


text \<open>C28: a batch on a standalone server. When the saves of the group succeed, \<^verbatim>\<open>BatchAdd\<close> answers ok,
  its ids have been inserted in order, the store holds exactly the serialised engine if it did
  before, and one observation of the batch size was made.\<close>

theorem Server_BatchAdd_standalone:
  assumes "badger_spec (se_badger env) contents" and "saves_ok (se_badger env) (breq_Group req)"
    and "breq_Group req \<noteq> []" and "forward_owner env srv (breq_Group req) = None" and "srv_node srv = None"
    and "mirrors (stored_groups contents (w_store w)) (w_engine w)"
  shows "\<exists>srv' w'. Server_BatchAdd env req (srv, w) = ((srv', w'), Inr \<lparr>aresp_Ok = True\<rparr>)
    \<and> w_engine w' = run_adds (map (Pair (breq_Group req)) (breq_Ids req)) (w_engine w)
    \<and> mirrors (stored_groups contents (w_store w')) (w_engine w') \<and> w_ext w' = w_ext w
    \<and> metricBatchSize (srv_metrics srv') = metricBatchSize (srv_metrics srv) @ [length (breq_Ids req)]"
proof -
  define srv1 where "srv1 = srv\<lparr>srv_metrics := (srv_metrics srv)
    \<lparr>metricBatchSize := metricBatchSize (srv_metrics srv) @ [length (breq_Ids req)]\<rparr>\<rparr>"
  have "forward_owner env srv1 (breq_Group req) = None" "srv_node srv1 = None"
    using assms(4,5) by (simp_all add: srv1_def)
  from batch_ids_standalone [OF assms(1,2) this, of "breq_Ids req" w] obtain w'
    where w': "batch_ids env (breq_Group req) (breq_Ids req) (srv1, w) = ((srv1, w'), Inr \<lparr>aresp_Ok = True\<rparr>)"
      "w_engine w' = run_adds (map (Pair (breq_Group req)) (breq_Ids req)) (w_engine w)" "w_ext w' = w_ext w"
      "mirrors (stored_groups contents (w_store w')) (w_engine w')"
    using assms(6) by blast
  have "Server_BatchAdd env req (srv, w) = finish ''BatchAdd'' ((srv1, w'), Inr \<lparr>aresp_Ok = True\<rparr>)"
    using assms(3,4) w'(1) by (simp add: Server_BatchAdd_def upd_metrics_def srv1_def)
  with w' show ?thesis
    by (simp add: finish_def upd_metrics_def count_request_def srv1_def)
qed

theorem Server_BatchAdd_standalone_witness:
  "\<exists>srv' w'. Server_BatchAdd (leaf_env (\<lambda>_. 0) ref_badger) \<lparr>breq_Group = ''a'', breq_Ids = [1, 2]\<rparr> ref_server
      = ((srv', w'), Inr \<lparr>aresp_Ok = True\<rparr>)
    \<and> w_engine w' = run_adds [(''a'', 1), (''a'', 2)] (NewEngine (hll_Algorithm (example_env 0) ref_roaring))"
  using Server_BatchAdd_standalone [of "leaf_env (\<lambda>_. 0) ref_badger" map_of "\<lparr>breq_Group = ''a'', breq_Ids = [1, 2]\<rparr>"
      "fst ref_server" "snd ref_server"]
  by (auto simp: leaf_env_def ref_db.badger_spec_axioms ref_server_def server_New_def forward_owner_def
      ref_saves_ok ref_mirrors)

text \<open>A request without a group is rejected by every handler with \<^verbatim>\<open>InvalidArgument\<close> before anything
  is routed, proposed, inserted or stored; and a query never changes the engine or the store of
  a server that answers it itself, reporting 0 for a group it does not know.\<close>

lemma Server_rejects_and_reads:
  "snd (Server_Add env \<lparr>areq_Group = [], areq_Id = x\<rparr> sw) = Inl (ErrStatus InvalidArgument None)
   \<and> snd (fst (Server_Add env \<lparr>areq_Group = [], areq_Id = x\<rparr> sw)) = snd sw
   \<and> snd (Server_BatchAdd env \<lparr>breq_Group = [], breq_Ids = xs\<rparr> sw) = Inl (ErrStatus InvalidArgument None)
   \<and> snd (fst (Server_BatchAdd env \<lparr>breq_Group = [], breq_Ids = xs\<rparr> sw)) = snd sw
   \<and> snd (Server_Query env \<lparr>qreq_Group = [], qreq_StaleOk = b\<rparr> sw) = Inl (ErrStatus InvalidArgument None)
   \<and> (g \<noteq> [] \<longrightarrow> forward_owner env (fst sw) g = None \<longrightarrow>
       snd (fst (Server_Query env \<lparr>qreq_Group = g, qreq_StaleOk = b\<rparr> sw)) = snd sw
       \<and> snd (Server_Query env \<lparr>qreq_Group = g, qreq_StaleOk = b\<rparr> sw) = Inr \<lparr>qresp_Group = g,
           qresp_Cardinality = (case eng_groups (w_engine (snd sw)) g of None \<Rightarrow> 0
             | Some sk \<Rightarrow> sk_Cardinality (eng_alg (w_engine (snd sw))) sk)\<rparr>)"
  by (auto simp: Server_Add_def Server_BatchAdd_def Server_Query_def Let_def Engine_Cardinality_def split: option.split)

lemma Server_rejects_and_reads_example:
  "snd (Server_Query (leaf_env (\<lambda>_. 0) ref_badger) \<lparr>qreq_Group = ''a'', qreq_StaleOk = False\<rparr> ref_server)
    = Inr \<lparr>qresp_Group = ''a'', qresp_Cardinality = 0\<rparr>"
  using Server_rejects_and_reads [of "leaf_env (\<lambda>_. 0) ref_badger" 0 ref_server "[]" False "''a''"]
  by (simp add: ref_server_def server_New_def forward_owner_def NewEngine_def)

text \<open>C39: a batch that fails on a standalone server. It has stopped at an id whose save failed, and the two
  halves of the state disagree about that id alone: the engine, which queries read, holds the ids
  up to and including it, the store exactly those before it, so a restart forgets it. No later id
  of the batch has any effect, and the response is an error although earlier ids were applied.\<close>

theorem Server_BatchAdd_failure:
  assumes "badger_spec (se_badger env) contents" and "forward_owner env (fst sw) (breq_Group req) = None"
    and "srv_node (fst sw) = None" and "mirrors (stored_groups contents (w_store (snd sw))) (w_engine (snd sw))"
    and "breq_Group req \<noteq> []" and "Server_BatchAdd env req sw = (sw', Inl e)"
  shows "\<exists>k < length (breq_Ids req).
      w_engine (snd sw') = run_adds (map (Pair (breq_Group req)) (take (Suc k) (breq_Ids req))) (w_engine (snd sw))
    \<and> mirrors (stored_groups contents (w_store (snd sw')))
        (run_adds (map (Pair (breq_Group req)) (take k (breq_Ids req))) (w_engine (snd sw)))
    \<and> w_ext (snd sw') = w_ext (snd sw)"
proof -
  let ?sw = "upd_metrics (\<lambda>m. m\<lparr>metricBatchSize := metricBatchSize m @ [length (breq_Ids req)]\<rparr>) sw"
  obtain srv w where sw: "?sw = (srv, w)" by (cases ?sw)
  have parts: "forward_owner env srv (breq_Group req) = None" "srv_node srv = None" "w = snd sw"
  proof -
    have p: "srv = fst ?sw" "w = snd ?sw" unfolding sw by simp_all
    show "forward_owner env srv (breq_Group req) = None" "srv_node srv = None" "w = snd sw"
      unfolding p using assms(2,3) by simp_all
  qed
  obtain sw1 r where b: "batch_ids env (breq_Group req) (breq_Ids req) ?sw = (sw1, r)"
    by (cases "batch_ids env (breq_Group req) (breq_Ids req) ?sw")
  then have "finish ''BatchAdd'' (sw1, r) = (sw', Inl e)" using assms(2,5,6) by (simp add: Server_BatchAdd_def)
  then have r: "r = Inl e" "snd sw' = snd sw1"
    using finish_simps(1,2) [of "''BatchAdd''" "(sw1, r)"] by simp_all
  have "batch_ids env (breq_Group req) (breq_Ids req) (srv, w) = ((fst sw1, snd sw1), Inl e)" using b sw r(1) by simp
  from batch_ids_failure [OF assms(1) parts(1,2) _ this] assms(4) show ?thesis unfolding r(2) parts(3) by blast
qed

definition ref_long_group :: string where
  "ref_long_group = replicate 65000 (CHR ''a'')"

lemma ref_long_group: "ref_long_group \<noteq> []" "snd (Save ref_badger ref_long_group b st) = Some (ErrExternal ''Key too large'')"
proof -
  have "length ref_long_group = 65000" by (simp only: ref_long_group_def length_replicate)
  then show "ref_long_group \<noteq> []" "snd (Save ref_badger ref_long_group b st) = Some (ErrExternal ''Key too large'')"
    by (auto simp: Save_parts ref_badger_def key_def keyPrefix_def)
qed

theorem Server_BatchAdd_failure_witness:
  "\<exists>sw' e k. Server_BatchAdd (leaf_env (\<lambda>_. 0) ref_badger) \<lparr>breq_Group = ref_long_group, breq_Ids = [7, 8]\<rparr> ref_server = (sw', Inl e)
    \<and> w_engine (snd sw') = run_adds (map (Pair ref_long_group) (take (Suc k) [7, 8])) (w_engine (snd ref_server))"
proof -
  let ?g = ref_long_group and ?env = "leaf_env (\<lambda>_. 0) ref_badger :: (u64 set Sketch, _, unit, unit) server_env"
  have B: "se_badger ?env = ref_badger" by (simp add: leaf_env_def)
  have f: "forward_owner ?env (fst ref_server) ?g = None" "srv_node (fst ref_server) = None"
    by (simp_all add: ref_server_def server_New_def forward_owner_def)
  have m: "mirrors (stored_groups map_of (w_store (snd ref_server))) (w_engine (snd ref_server))"
    by (simp add: ref_server_def ref_mirrors)
  let ?sw = "upd_metrics (\<lambda>m. m\<lparr>metricBatchSize := metricBatchSize m @ [2]\<rparr>) ref_server"
  obtain sk where "eng_groups (fst (Engine_Add (w_engine (snd ref_server)) ?g 7)) ?g = Some sk"
    using Engine_Add_groups [of "w_engine (snd ref_server)" ?g 7] by blast
  then have "snd (addID ?env ''BatchAdd'' ?g 7 ?sw) \<noteq> None"
    using f by (simp add: addID_standalone Let_def split_beta B Persist_def ref_long_group)
  then obtain sw1 er where a: "addID ?env ''BatchAdd'' ?g 7 ?sw = (sw1, Some er)"
    by (cases "addID ?env ''BatchAdd'' ?g 7 ?sw") auto
  then have b: "Server_BatchAdd ?env \<lparr>breq_Group = ?g, breq_Ids = [7, 8]\<rparr> ref_server
      = (upd_metrics (count_request ''BatchAdd'' ''error'') sw1, Inl er)"
    using f by (simp add: Server_BatchAdd_def finish_def ref_long_group numeral_2_eq_2)
  have "badger_spec (se_badger ?env) map_of" using ref_db.badger_spec_axioms by (simp only: B)
  from Server_BatchAdd_failure [OF this _ f(2) m _ b] f(1) ref_long_group(1) b show ?thesis by auto
qed

end
