(* ===== verification/Grpc_Service.thy ===== *)
theory Grpc_Service
  imports Server
begin

text \<open>
  How a unary call travels: the generated client stubs, service description and method handlers of
  \<^verbatim>\<open>cardinality_grpc.pb.go\<close> and the interceptor of \<^verbatim>\<open>internal/server/interceptor.go\<close>. The gRPC library
  between a connection and a method handler is a parameter; \<open>code_String\<close> is
  \<^verbatim>\<open>status.Code(err).String()\<close> of that library.
\<close>

section \<open>The service\<close>

text \<open>The interfaces \<^verbatim>\<open>CardinalityServiceClient\<close> and \<^verbatim>\<open>CardinalityServiceServer\<close>: three methods on a state
  \<open>'w\<close>.\<close>

record 'w service =
  sv_Add :: "AddRequest \<Rightarrow> 'w \<Rightarrow> 'w \<times> (go_error + AddResponse)"
  sv_BatchAdd :: "BatchAddRequest \<Rightarrow> 'w \<Rightarrow> 'w \<times> (go_error + AddResponse)"
  sv_Query :: "QueryRequest \<Rightarrow> 'w \<Rightarrow> 'w \<times> (go_error + QueryResponse)"

definition UnimplementedCardinalityServiceServer :: "'w service" where
  "UnimplementedCardinalityServiceServer = \<lparr>
     sv_Add = (\<lambda>_ w. (w, Inl (ErrStatus Unimplemented None))),
     sv_BatchAdd = (\<lambda>_ w. (w, Inl (ErrStatus Unimplemented None))),
     sv_Query = (\<lambda>_ w. (w, Inl (ErrStatus Unimplemented None)))\<rparr>"

text \<open>The method set of \<^verbatim>\<open>Server\<close>, which embeds \<^verbatim>\<open>UnimplementedCardinalityServiceServer\<close> and defines all
  three methods itself.\<close>

definition Server_methods :: "('s, 'db, 'x, 'c) server_env \<Rightarrow> ('s, 'db, 'x, 'c) srv_state service" where
  "Server_methods env = UnimplementedCardinalityServiceServer\<lparr>
     sv_Add := Server_Add env, sv_BatchAdd := Server_BatchAdd env, sv_Query := Server_Query env\<rparr>"

section \<open>Interceptor and method handlers\<close>

text \<open>A handler returns an untyped response.\<close>

datatype reply = ReplyAdd AddResponse | ReplyQuery QueryResponse

type_synonym ('w, 'r) handler_fun = "'w \<Rightarrow> 'w \<times> (go_error + 'r)"

type_synonym 'w interceptor = "string \<Rightarrow> ('w, reply) handler_fun \<Rightarrow> ('w, reply) handler_fun"

definition boxed :: "('r \<Rightarrow> reply) \<Rightarrow> 'w \<times> (go_error + 'r) \<Rightarrow> 'w \<times> (go_error + reply)" where
  "boxed K r = (fst r, map_sum (\<lambda>e. e) K (snd r))"

definition error_of :: "go_error + 'r \<Rightarrow> err" where
  "error_of r = (case r of Inl e \<Rightarrow> Some e | Inr _ \<Rightarrow> None)"

lemma boxed_simps [simp]: "fst (boxed K r) = fst r" "error_of (snd (boxed K r)) = error_of (snd r)"
  by (simp_all add: boxed_def error_of_def split: sum.split)

definition UnaryMetricsInterceptor :: "(err \<Rightarrow> string) \<Rightarrow> ('s, 'db, 'x, 'c) srv_state interceptor" where
  "UnaryMetricsInterceptor code_String fullMethod handler sw =
     (let (sw, r) = handler sw;
          code = code_String (error_of r)
      in (upd_metrics (\<lambda>m. m\<lparr>metricGRPCRequestsTotal := Inc (fullMethod, code) (metricGRPCRequestsTotal m),
            metricGRPCDurationSeconds := Inc (fullMethod, code) (metricGRPCDurationSeconds m)\<rparr>) sw, r))"

definition CardinalityService_Add_FullMethodName :: string where
  "CardinalityService_Add_FullMethodName = ''/cardinality.v1.CardinalityService/Add''"

definition CardinalityService_BatchAdd_FullMethodName :: string where
  "CardinalityService_BatchAdd_FullMethodName = ''/cardinality.v1.CardinalityService/BatchAdd''"

definition CardinalityService_Query_FullMethodName :: string where
  "CardinalityService_Query_FullMethodName = ''/cardinality.v1.CardinalityService/Query''"

text \<open>A method handler gets what decoding into a message of its type gives; its interceptor is
  optional.\<close>

definition CardinalityService_Add_Handler ::
    "'w service \<Rightarrow> go_error + AddRequest \<Rightarrow> 'w interceptor option \<Rightarrow> ('w, reply) handler_fun" where
  "CardinalityService_Add_Handler srv dec interceptor w =
     (case dec of
        Inl e \<Rightarrow> (w, Inl e)
      | Inr req \<Rightarrow>
          (case interceptor of
             None \<Rightarrow> boxed ReplyAdd (sv_Add srv req w)
           | Some i \<Rightarrow> i CardinalityService_Add_FullMethodName (\<lambda>w. boxed ReplyAdd (sv_Add srv req w)) w))"

definition CardinalityService_BatchAdd_Handler ::
    "'w service \<Rightarrow> go_error + BatchAddRequest \<Rightarrow> 'w interceptor option \<Rightarrow> ('w, reply) handler_fun" where
  "CardinalityService_BatchAdd_Handler srv dec interceptor w =
     (case dec of
        Inl e \<Rightarrow> (w, Inl e)
      | Inr req \<Rightarrow>
          (case interceptor of
             None \<Rightarrow> boxed ReplyAdd (sv_BatchAdd srv req w)
           | Some i \<Rightarrow> i CardinalityService_BatchAdd_FullMethodName (\<lambda>w. boxed ReplyAdd (sv_BatchAdd srv req w)) w))"

definition CardinalityService_Query_Handler ::
    "'w service \<Rightarrow> go_error + QueryRequest \<Rightarrow> 'w interceptor option \<Rightarrow> ('w, reply) handler_fun" where
  "CardinalityService_Query_Handler srv dec interceptor w =
     (case dec of
        Inl e \<Rightarrow> (w, Inl e)
      | Inr req \<Rightarrow>
          (case interceptor of
             None \<Rightarrow> boxed ReplyQuery (sv_Query srv req w)
           | Some i \<Rightarrow> i CardinalityService_Query_FullMethodName (\<lambda>w. boxed ReplyQuery (sv_Query srv req w)) w))"

text \<open>The description the gRPC server dispatches by: a payload is decoded into the message type of the
  method, by the decoders of a codec.\<close>

record pb_decoders =
  pd_AddRequest :: "bytes \<Rightarrow> go_error + AddRequest"
  pd_BatchAddRequest :: "bytes \<Rightarrow> go_error + BatchAddRequest"
  pd_QueryRequest :: "bytes \<Rightarrow> go_error + QueryRequest"

type_synonym 'w method_handler = "'w service \<Rightarrow> pb_decoders \<Rightarrow> bytes \<Rightarrow> 'w interceptor option \<Rightarrow> ('w, reply) handler_fun"

record 'w ServiceDesc =
  sd_ServiceName :: string
  sd_Methods :: "(string \<times> 'w method_handler) list"
  sd_Metadata :: string

definition CardinalityService_ServiceDesc :: "'w ServiceDesc" where
  "CardinalityService_ServiceDesc = \<lparr>
     sd_ServiceName = ''cardinality.v1.CardinalityService'',
     sd_Methods = [
       (''Add'', \<lambda>srv D b. CardinalityService_Add_Handler srv (pd_AddRequest D b)),
       (''BatchAdd'', \<lambda>srv D b. CardinalityService_BatchAdd_Handler srv (pd_BatchAddRequest D b)),
       (''Query'', \<lambda>srv D b. CardinalityService_Query_Handler srv (pd_QueryRequest D b))],
     sd_Metadata = ''cardinality/v1/cardinality.proto''\<rparr>"

definition RegisterCardinalityServiceServer :: "('w ServiceDesc \<Rightarrow> 'w service \<Rightarrow> 'g \<Rightarrow> 'g) \<Rightarrow> 'w service \<Rightarrow> 'g \<Rightarrow> 'g" where
  "RegisterCardinalityServiceServer RegisterService srv s = RegisterService CardinalityService_ServiceDesc srv s"

text \<open>A call as the server of \<^verbatim>\<open>cmd/server\<close> handles it, with the interceptor installed.\<close>

datatype rpc =
    RpcAdd "go_error + AddRequest"
  | RpcBatchAdd "go_error + BatchAddRequest"
  | RpcQuery "go_error + QueryRequest"

fun serve :: "('s, 'db, 'x, 'c) server_env \<Rightarrow> (err \<Rightarrow> string) \<Rightarrow> rpc \<Rightarrow> ('s, 'db, 'x, 'c) srv_state \<Rightarrow>
    ('s, 'db, 'x, 'c) srv_state" where
  "serve env code (RpcAdd d) sw =
     fst (CardinalityService_Add_Handler (Server_methods env) d (Some (UnaryMetricsInterceptor code)) sw)"
| "serve env code (RpcBatchAdd d) sw =
     fst (CardinalityService_BatchAdd_Handler (Server_methods env) d (Some (UnaryMetricsInterceptor code)) sw)"
| "serve env code (RpcQuery d) sw =
     fst (CardinalityService_Query_Handler (Server_methods env) d (Some (UnaryMetricsInterceptor code)) sw)"

fun rpc_method :: "rpc \<Rightarrow> string" where
  "rpc_method (RpcAdd _) = ''Add''"
| "rpc_method (RpcBatchAdd _) = ''BatchAdd''"
| "rpc_method (RpcQuery _) = ''Query''"

fun rpc_decoded :: "rpc \<Rightarrow> bool" where
  "rpc_decoded (RpcAdd d) = (\<not> isl d)"
| "rpc_decoded (RpcBatchAdd d) = (\<not> isl d)"
| "rpc_decoded (RpcQuery d) = (\<not> isl d)"

section \<open>One call\<close>

lemmas full_names = CardinalityService_Add_FullMethodName_def CardinalityService_BatchAdd_FullMethodName_def
  CardinalityService_Query_FullMethodName_def

lemmas method_handlers = CardinalityService_Add_Handler_def CardinalityService_BatchAdd_Handler_def
  CardinalityService_Query_Handler_def

lemma Server_methods_sel [simp]:
  "sv_Add (Server_methods env) = Server_Add env" "sv_BatchAdd (Server_methods env) = Server_BatchAdd env"
  "sv_Query (Server_methods env) = Server_Query env"
  by (simp_all add: Server_methods_def)

text \<open>The interceptor is transparent: result and world are those of the handler.\<close>

lemma Interceptor_transparent:
  "snd (UnaryMetricsInterceptor code full h sw) = snd (h sw)"
  "snd (fst (UnaryMetricsInterceptor code full h sw)) = snd (fst (h sw))"
  by (simp_all add: UnaryMetricsInterceptor_def Let_def split_beta)

lemma Interceptor_metrics:
  "metricRequestsTotal (srv_metrics (fst (fst (UnaryMetricsInterceptor code full h sw))))
    = metricRequestsTotal (srv_metrics (fst (fst (h sw))))"
  "metricGRPCRequestsTotal (srv_metrics (fst (fst (UnaryMetricsInterceptor code full h sw))))
    = Inc (full, code (error_of (snd (h sw)))) (metricGRPCRequestsTotal (srv_metrics (fst (fst (h sw)))))"
  by (simp_all add: UnaryMetricsInterceptor_def Let_def split_beta)

lemma grpc_requests_count [simp]: "metricGRPCRequestsTotal (count_request method st m) = metricGRPCRequestsTotal m"
  by (simp add: count_request_def)

lemma handler_requests:
  "metricRequestsTotal (srv_metrics (fst (fst (Server_Add env areq sw))))
    = Inc (''Add'', status_of (snd (Server_Add env areq sw))) (metricRequestsTotal (srv_metrics (fst sw)))"
  "metricRequestsTotal (srv_metrics (fst (fst (Server_BatchAdd env breq sw))))
    = Inc (''BatchAdd'', status_of (snd (Server_BatchAdd env breq sw))) (metricRequestsTotal (srv_metrics (fst sw)))"
  "metricRequestsTotal (srv_metrics (fst (fst (Server_Query env qreq sw))))
    = Inc (''Query'', status_of (snd (Server_Query env qreq sw))) (metricRequestsTotal (srv_metrics (fst sw)))"
  using requests.view_Server_Add [of env areq sw] requests.view_Server_BatchAdd [of env breq sw]
    requests.view_Server_Query [of env qreq sw] by (elim exE conjE; simp)+

lemma handler_grpc_requests:
  "metricGRPCRequestsTotal (srv_metrics (fst (fst (Server_Add env areq sw)))) = metricGRPCRequestsTotal (srv_metrics (fst sw))"
  "metricGRPCRequestsTotal (srv_metrics (fst (fst (Server_BatchAdd env breq sw)))) = metricGRPCRequestsTotal (srv_metrics (fst sw))"
  "metricGRPCRequestsTotal (srv_metrics (fst (fst (Server_Query env qreq sw)))) = metricGRPCRequestsTotal (srv_metrics (fst sw))"
  using grpc_requests.view_Server_Add [of env areq sw] grpc_requests.view_Server_BatchAdd [of env breq sw]
    grpc_requests.view_Server_Query [of env qreq sw] by (elim exE conjE; simp)+

definition full_name :: "string \<Rightarrow> string" where
  "full_name method = ''/cardinality.v1.CardinalityService/'' @ method"

lemma status_of_error_of: "status_of q = (if error_of q = None then ''success'' else ''error'')"
  by (simp add: status_of_def error_of_def split: sum.split)

lemmas serve_simps = method_handlers Interceptor_metrics handler_requests handler_grpc_requests status_of_error_of
  full_names full_name_def

text \<open>A decoded call counts once in both views, under matching labels; an undecoded one in neither.\<close>

lemma serve_metrics:
  fixes sw :: "('s, 'db, 'x, 'c) srv_state"
  shows "\<exists>e. metricRequestsTotal (srv_metrics (fst (serve env code r sw))) =
      (if rpc_decoded r then Inc (rpc_method r, if e = None then ''success'' else ''error'') else id)
        (metricRequestsTotal (srv_metrics (fst sw)))
    \<and> metricGRPCRequestsTotal (srv_metrics (fst (serve env code r sw))) =
      (if rpc_decoded r then Inc (full_name (rpc_method r), code e) else id)
        (metricGRPCRequestsTotal (srv_metrics (fst sw)))"
proof (cases r)
  case (RpcAdd d)
  then show ?thesis
    by (cases d, simp add: method_handlers)
      (intro exI [of _ "error_of (snd (Server_Add env (projr d) sw))"], simp add: serve_simps)
next
  case (RpcBatchAdd d)
  then show ?thesis
    by (cases d, simp add: method_handlers)
      (intro exI [of _ "error_of (snd (Server_BatchAdd env (projr d) sw))"], simp add: serve_simps)
next
  case (RpcQuery d)
  then show ?thesis
    by (cases d, simp add: method_handlers)
      (intro exI [of _ "error_of (snd (Server_Query env (projr d) sw))"], simp add: serve_simps)
qed

section \<open>Invariants of the service\<close>

text \<open>The additions a call asks for.\<close>

fun rpc_adds :: "rpc \<Rightarrow> (string \<times> u64) set" where
  "rpc_adds (RpcAdd d) =
     (case d of Inl _ \<Rightarrow> {} | Inr r \<Rightarrow> if areq_Group r = [] then {} else {(areq_Group r, areq_Id r)})"
| "rpc_adds (RpcBatchAdd d) =
     (case d of Inl _ \<Rightarrow> {} | Inr r \<Rightarrow> if breq_Group r = [] then {} else Pair (breq_Group r) ` set (breq_Ids r))"
| "rpc_adds (RpcQuery d) = {}"

text \<open>A property \<open>P A\<close> of a server that has been asked for the additions \<open>A\<close>: when it survives a local
  addition and each of the three forwarded calls, it survives every call of the service.\<close>

locale handler_inv =
  fixes env :: "('s, 'db, 'x, 'c) server_env" and P :: "(string \<times> u64) set \<Rightarrow> ('s, 'db, 'x, 'c) srv_state \<Rightarrow> bool"
  assumes P_mono: "P A sw \<Longrightarrow> A \<subseteq> A' \<Longrightarrow> P A' sw"
    and P_metrics [simp]: "P A (upd_metrics f sw) = P A sw"
    and P_local: "P A sw \<Longrightarrow> forward_owner env (fst sw) g = None \<Longrightarrow>
      P (insert (g, x) A) (fst (addID env method g x sw))"
    and P_forward_Add: "P A sw \<Longrightarrow> forward_owner env (fst sw) (areq_Group areq) = Some peer \<Longrightarrow>
      P (insert (areq_Group areq, areq_Id areq) A) (fst (forward_call env peer method (\<lambda>c. se_peer_Add env c areq) sw))"
    and P_forward_BatchAdd: "P A sw \<Longrightarrow> forward_owner env (fst sw) (breq_Group breq) = Some peer \<Longrightarrow>
      P (A \<union> Pair (breq_Group breq) ` set (breq_Ids breq))
        (fst (forward_call env peer method (\<lambda>c. se_peer_BatchAdd env c breq) sw))"
    and P_forward_Query: "P A sw \<Longrightarrow> forward_owner env (fst sw) (qreq_Group qreq) = Some peer \<Longrightarrow>
      P A (fst (forward_call env peer method (\<lambda>c. se_peer_Query env c qreq) sw))"
begin

lemma P_finish [simp]: "P A (fst (finish method r)) = P A (fst r)"
  by (simp add: finish_def split: prod.split sum.split)

lemma P_Interceptor [simp]: "P A (fst (UnaryMetricsInterceptor code full h sw)) = P A (fst (h sw))"
  by (simp add: UnaryMetricsInterceptor_def Let_def split_beta)

lemma P_addID:
  assumes "P A sw"
  shows "P (insert (g, x) A) (fst (addID env method g x sw))"
proof (cases "forward_owner env (fst sw) g")
  case None
  then show ?thesis by (rule P_local [OF assms])
next
  case (Some peer)
  let ?r = "forward_call env peer method (\<lambda>c. se_peer_Add env c \<lparr>areq_Group = g, areq_Id = x\<rparr>) sw"
  have "fst (addID env method g x sw) = fst ?r"
    using Some by (cases sw) (simp add: addID_def split: prod.split sum.split)
  then show ?thesis using P_forward_Add [OF assms, of "\<lparr>areq_Group = g, areq_Id = x\<rparr>"] Some by simp
qed

lemma P_batch_ids: "P A sw \<Longrightarrow> P (A \<union> Pair g ` set vs) (fst (batch_ids env g vs sw))"
proof (induction vs arbitrary: A sw)
  case (Cons v vs)
  obtain sw1 er where a: "addID env ''BatchAdd'' g v sw = (sw1, er)" by fastforce
  have s1: "P (insert (g, v) A) sw1" using P_addID [OF Cons.prems, of g v "''BatchAdd''"] a by simp
  show ?case
  proof (cases er)
    case None
    then show ?thesis using Cons.IH [OF s1] a by simp
  next
    case (Some e)
    then show ?thesis using a P_mono [OF s1, of "A \<union> Pair g ` set (v # vs)"] by auto
  qed
qed simp

lemma P_Add:
  assumes "P A sw"
  shows "P (A \<union> rpc_adds (RpcAdd (Inr req))) (fst (Server_Add env req sw))"
  using P_addID [OF assms, of "areq_Group req" "areq_Id req" "''Add''"] assms
  by (auto simp: Server_Add_def split: prod.split option.split)

lemma P_BatchAdd:
  assumes "P A sw"
  shows "P (A \<union> rpc_adds (RpcBatchAdd (Inr req))) (fst (Server_BatchAdd env req sw))"
  using P_batch_ids [where sw = "upd_metrics f sw" for f] P_forward_BatchAdd [OF assms] assms
  by (simp add: Server_BatchAdd_def split: option.split)

lemma P_Query:
  assumes "P A sw"
  shows "P A (fst (Server_Query env req sw))"
  using P_forward_Query [OF assms] assms by (simp add: Server_Query_def Let_def split: option.split)

lemma P_serve:
  assumes "P A sw"
  shows "P (A \<union> rpc_adds r) (serve env code r sw)"
  using P_Add [OF assms] P_BatchAdd [OF assms] P_Query [OF assms] assms
  by (cases r) (auto simp: method_handlers split: sum.split)

lemma P_calls: "P A sw \<Longrightarrow> P (A \<union> (\<Union>r \<in> set rpcs. rpc_adds r)) (fold (serve env code) rpcs sw)"
proof (induction rpcs arbitrary: A sw)
  case (Cons r rpcs)
  from Cons.IH [OF P_serve [OF Cons.prems, of r code]] show ?case by (simp add: Un_assoc)
qed simp

end

section \<open>Properties\<close>



end
