(* ===== verification/Cluster.thy ===== *)
theory Cluster
  imports Grpc_Service
begin

text \<open>
  Several servers of package \<^verbatim>\<open>internal/server\<close> behind one hash ring. A cluster maps addresses to
  servers with their worlds, and a request may enter at any of them: the receiving server runs
  its handler with the others as part of its external world, and a remote call runs the handler
  of the called server. The called server itself reaches nobody; the results show that one hop is
  enough, since all servers agree on the ring. A connection is the address it leads to; the
  interceptor of a called server, which only counts the call, is left out.
\<close>

section \<open>Calls into a cluster\<close>

type_synonym ('s, 'db, 'x) cluster = "string \<rightharpoonup> ('s, 'db, 'x, string) srv_state"

type_synonym ('s, 'db, 'x) hop_state = "('s, 'db, 'x \<times> ('s, 'db, 'x) cluster, string) srv_state"

text \<open>The world of the receiving server, with the other servers beside its own external part, and its
  Raft node, which does not see them.\<close>

definition world_with :: "'y \<Rightarrow> ('s, 'db, 'x) world \<Rightarrow> ('s, 'db, 'x \<times> 'y) world" where
  "world_with y w = \<lparr>w_engine = w_engine w, w_store = w_store w, w_ext = (w_ext w, y)\<rparr>"

definition own_world :: "('s, 'db, 'x \<times> 'y) world \<Rightarrow> ('s, 'db, 'x) world" where
  "own_world w = \<lparr>w_engine = w_engine w, w_store = w_store w, w_ext = fst (w_ext w)\<rparr>"

definition among_peers :: "('s, 'db, 'x) RaftNode \<Rightarrow> ('s, 'db, 'x \<times> 'y) RaftNode" where
  "among_peers propose g x w =
     (case propose g x (own_world w) of (w', er) \<Rightarrow> (world_with (snd (w_ext w)) w', er))"

definition enter :: "('s, 'db, 'x) cluster \<Rightarrow> string \<Rightarrow> ('s, 'db, 'x, string) srv_state \<Rightarrow> ('s, 'db, 'x) hop_state" where
  "enter C a p =
     (\<lparr>srv_node = map_option among_peers (srv_node (fst p)), srv_router = srv_router (fst p),
       srv_selfAddr = srv_selfAddr (fst p), srv_dialOpts = srv_dialOpts (fst p), srv_conns = srv_conns (fst p),
       srv_metrics = srv_metrics (fst p)\<rparr>, world_with (C(a := None)) (snd p))"

definition leave :: "string \<Rightarrow> ('s, 'db, 'x) RaftNode option \<Rightarrow> ('s, 'db, 'x) hop_state \<Rightarrow> ('s, 'db, 'x) cluster" where
  "leave a node sw = (snd (w_ext (snd sw)))(a \<mapsto>
     (\<lparr>srv_node = node, srv_router = srv_router (fst sw), srv_selfAddr = srv_selfAddr (fst sw),
       srv_dialOpts = srv_dialOpts (fst sw), srv_conns = srv_conns (fst sw), srv_metrics = srv_metrics (fst sw)\<rparr>,
      own_world (snd sw)))"

definition call_at ::
    "(('s, 'db, 'x) hop_state \<Rightarrow> ('s, 'db, 'x) hop_state \<times> (go_error + 'r)) \<Rightarrow> string \<Rightarrow> ('s, 'db, 'x) cluster \<Rightarrow>
     ('s, 'db, 'x) cluster \<times> (go_error + 'r)" where
  "call_at h a C =
     (case C a of
        None \<Rightarrow> (C, Inl (ErrExternal ''unavailable''))
      | Some p \<Rightarrow> (let (sw, r) = h (enter C a p) in (leave a (srv_node (fst p)) sw, r)))"

definition peer_call ::
    "(('s, 'db, 'x, string) srv_state \<Rightarrow> ('s, 'db, 'x, string) srv_state \<times> (go_error + 'r)) \<Rightarrow> string \<Rightarrow>
     ('s, 'db, 'x \<times> ('s, 'db, 'x) cluster) world \<Rightarrow> ('s, 'db, 'x \<times> ('s, 'db, 'x) cluster) world \<times> (go_error + 'r)" where
  "peer_call h a w =
     (case snd (w_ext w) a of
        None \<Rightarrow> (w, Inl (ErrExternal ''unavailable''))
      | Some p \<Rightarrow> (let (p', r) = h p in (w\<lparr>w_ext := (fst (w_ext w), (snd (w_ext w))(a \<mapsto> p'))\<rparr>, r)))"

definition hop_env :: "(bytes \<Rightarrow> u32) \<Rightarrow> 'db badger \<Rightarrow> ('s, 'db, 'x \<times> ('s, 'db, 'x) cluster, string) server_env" where
  "hop_env sum32 B = \<lparr>se_sum32 = sum32, se_badger = B,
     se_Dial = (\<lambda>a opts w. (w, if a \<in> dom (snd (w_ext w)) then Inr a else Inl (ErrExternal ''unavailable''))),
     se_peer_Add = (\<lambda>a req. peer_call (Server_Add (leaf_env sum32 B) req) a),
     se_peer_BatchAdd = (\<lambda>a req. peer_call (Server_BatchAdd (leaf_env sum32 B) req) a),
     se_peer_Query = (\<lambda>a req. peer_call (Server_Query (leaf_env sum32 B) req) a),
     se_CloseConn = (\<lambda>c w. (w, None))\<rparr>"

text \<open>A whole call of the service, with its interceptor, that enters at an address.\<close>

definition serve_at ::
    "(bytes \<Rightarrow> u32) \<Rightarrow> 'db badger \<Rightarrow> (err \<Rightarrow> string) \<Rightarrow> string \<times> rpc \<Rightarrow> ('s, 'db, 'x) cluster \<Rightarrow> ('s, 'db, 'x) cluster" where
  "serve_at sum32 B code ar C =
     (case C (fst ar) of
        None \<Rightarrow> C
      | Some p \<Rightarrow> leave (fst ar) (srv_node (fst p)) (serve (hop_env sum32 B) code (snd ar) (enter C (fst ar) p)))"

lemma hop_env_sel [simp]:
  "se_sum32 (hop_env sum32 B) = sum32" "se_badger (hop_env sum32 B) = B"
  "se_sum32 (leaf_env sum32 B) = sum32" "se_badger (leaf_env sum32 B) = B"
  "se_peer_Add (hop_env sum32 B) a areq = peer_call (Server_Add (leaf_env sum32 B) areq) a"
  "se_peer_BatchAdd (hop_env sum32 B) a breq = peer_call (Server_BatchAdd (leaf_env sum32 B) breq) a"
  "se_peer_Query (hop_env sum32 B) a qreq = peer_call (Server_Query (leaf_env sum32 B) qreq) a"
  by (simp_all add: hop_env_def leaf_env_def)

lemma own_world_simps [simp]:
  "own_world (world_with y w) = w" "w_engine (own_world v) = w_engine v" "w_store (own_world v) = w_store v"
  "w_engine (world_with y w) = w_engine w" "w_ext (world_with y w) = (w_ext w, y)"
  by (simp_all add: own_world_def world_with_def)

lemma enter_simps [simp]:
  "srv_node (fst (enter C a p)) = map_option among_peers (srv_node (fst p))"
  "srv_router (fst (enter C a p)) = srv_router (fst p)" "srv_selfAddr (fst (enter C a p)) = srv_selfAddr (fst p)"
  "srv_conns (fst (enter C a p)) = srv_conns (fst p)" "snd (enter C a p) = world_with (C(a := None)) (snd p)"
  by (simp_all add: enter_def)

section \<open>Members and routing\<close>

text \<open>All members know the same ring and their own address, and their connections lead where they
  were dialled to.\<close>

definition member :: "Ring \<Rightarrow> string \<Rightarrow> ('s, 'db, 'x, string) srv_state \<Rightarrow> bool" where
  "member r a p \<longleftrightarrow> a \<noteq> [] \<and> srv_router (fst p) = Some r \<and> srv_selfAddr (fst p) = a
     \<and> (\<forall>b c. srv_conns (fst p) b = Some c \<longrightarrow> c = b)"

definition ring_ok :: "Ring \<Rightarrow> bool" where
  "ring_ok r \<longleftrightarrow> ring_inv r \<and> ring r \<noteq> [] \<and> [] \<notin> ran (nodeMap r)"

definition cluster_ok :: "Ring \<Rightarrow> ('s, 'db, 'x) cluster \<Rightarrow> bool" where
  "cluster_ok r C \<longleftrightarrow> ring_ok r \<and> (\<forall>a p. C a = Some p \<longrightarrow> member r a p)"

definition engine_at :: "('s, 'db, 'x) cluster \<Rightarrow> string \<Rightarrow> 's engine" where
  "engine_at C a = w_engine (snd (the (C a)))"

lemma member_metrics [simp]: "member r a (upd_metrics f p) = member r a p"
  by (simp add: member_def)

lemma Resolve_ran:
  assumes "ring_inv r" and "ring r \<noteq> []"
  shows "Resolve sum32 r g \<in> ran (nodeMap r)"
proof -
  let ?p = "clockwise (set (ring r)) (sum32 (bytes_of_string g))"
  have "?p \<in> dom (nodeMap r)" using Resolve_successor(2) [OF assms] assms(1) by (simp add: ring_inv_def)
  then show ?thesis
    using Resolve_successor(1) [OF assms, of sum32 g] by (auto simp: owner_def intro: ranI)
qed

lemma member_forward_owner:
  assumes "ring_ok r" and "member r a p" and "se_sum32 env = sum32"
  shows "forward_owner env (fst p) g = (if Resolve sum32 r g = a then None else Some (Resolve sum32 r g))"
proof -
  have "Resolve sum32 r g \<noteq> []"
    using assms(1) Resolve_ran [of r sum32 g] by (auto simp: ring_ok_def)
  then show ?thesis using assms(2,3) by (simp add: forward_owner_def member_def)
qed

text \<open>What a call leaves of the server object.\<close>

definition same_config :: "('s, 'db, 'x, string) Server \<Rightarrow> ('s, 'db, 'x, string) Server \<Rightarrow> bool" where
  "same_config srv srv' \<longleftrightarrow> srv_router srv' = srv_router srv \<and> srv_node srv' = srv_node srv
     \<and> srv_selfAddr srv' = srv_selfAddr srv
     \<and> ((\<forall>b c. srv_conns srv b = Some c \<longrightarrow> c = b) \<longrightarrow> (\<forall>b c. srv_conns srv' b = Some c \<longrightarrow> c = b))"

lemma same_config_refl [simp]: "same_config srv srv" "same_config srv (fst (upd_metrics f (srv, w)))"
  by (simp_all add: same_config_def)

lemma member_same_config: "member r a p \<Longrightarrow> same_config (fst p) (fst p') \<Longrightarrow> member r a p'"
  by (simp add: member_def same_config_def)

section \<open>What a call changes\<close>

text \<open>The effect of an addition at the server that owns the group: a proposal, or in standalone mode
  an insertion that is persisted.\<close>

definition local_add ::
    "'db badger \<Rightarrow> ('s, 'db, 'x) RaftNode option \<Rightarrow> string \<Rightarrow> u64 \<Rightarrow> ('s, 'db, 'x) world \<Rightarrow> ('s, 'db, 'x) world" where
  "local_add B node g x w =
     (case node of
        Some propose \<Rightarrow> fst (propose g x w)
      | None \<Rightarrow> (case AddAndPersist (w_engine w) g x (Save B g) (w_store w) of
          (eng, st, _) \<Rightarrow> w\<lparr>w_engine := eng, w_store := st\<rparr>))"

lemma addID_local:
  assumes "forward_owner env (fst sw) g = None"
  shows "snd (fst (addID env method g x sw)) = local_add (se_badger env) (srv_node (fst sw)) g x (snd sw)"
    and "same_config (fst sw) (fst (fst (addID env method g x sw)))"
proof -
  obtain srv w where sw: "sw = (srv, w)" by (cases sw)
  have "snd (fst (addID env method g x sw)) = local_add (se_badger env) (srv_node (fst sw)) g x (snd sw)
    \<and> same_config (fst sw) (fst (fst (addID env method g x sw)))"
  proof (cases "srv_node srv")
    case None
    then show ?thesis using assms by (simp add: addID_def local_add_def sw split_beta)
  next
    case (Some propose)
    obtain w' er where "propose g x w = (w', er)" by (cases "propose g x w")
    then show ?thesis
      using assms Some by (cases er) (simp_all add: addID_def local_add_def sw upd_metrics_def same_config_def)
  qed
  then show "snd (fst (addID env method g x sw)) = local_add (se_badger env) (srv_node (fst sw)) g x (snd sw)"
    and "same_config (fst sw) (fst (fst (addID env method g x sw)))" by blast+
qed

lemma local_add_among_peers:
  "own_world (local_add B (map_option among_peers node) g x w) = local_add B node g x (own_world w)"
  "snd (w_ext (local_add B (map_option among_peers node) g x w)) = snd (w_ext w)"
proof -
  have "own_world (local_add B (map_option among_peers node) g x w) = local_add B node g x (own_world w)
    \<and> snd (w_ext (local_add B (map_option among_peers node) g x w)) = snd (w_ext w)"
  proof (cases node)
    case None
    obtain e st er where "AddAndPersist (w_engine w) g x (Save B g) (w_store w) = (e, st, er)"
      by (cases "AddAndPersist (w_engine w) g x (Save B g) (w_store w)")
    with None show ?thesis by (simp add: local_add_def own_world_def)
  next
    case (Some propose)
    obtain w' er where "propose g x (own_world w) = (w', er)" by (cases "propose g x (own_world w)")
    with Some show ?thesis by (simp add: local_add_def among_peers_def)
  qed
  then show "own_world (local_add B (map_option among_peers node) g x w) = local_add B node g x (own_world w)"
    and "snd (w_ext (local_add B (map_option among_peers node) g x w)) = snd (w_ext w)" by blast+
qed

lemma local_add_standalone:
  "w_engine (local_add B None g x w) = fst (Engine_Add (w_engine w) g x)"
  "w_store (local_add B None g x w) = fst (Persist (fst (Engine_Add (w_engine w) g x)) g (Save B g) (w_store w))"
  by (simp_all add: local_add_def AddAndPersist_eq Let_def split_beta)

text \<open>A called server reaches nobody.\<close>

lemma forward_call_leaf:
  fixes sw :: "('s, 'db, 'x, string) srv_state"
  shows "snd (fst (forward_call (leaf_env sum32 B) a method (\<lambda>c w. (w, Inl e)) sw)) = snd sw"
    and "same_config (fst sw) (fst (fst (forward_call (leaf_env sum32 B) a method (\<lambda>c w. (w, Inl e)) sw)))"
  by (cases sw; auto simp: forward_call_def getPeerClient_def leaf_env_def upd_metrics_def same_config_def
      split: option.split)+

lemma leaf_calls:
  "se_peer_Add (leaf_env sum32 B) = (\<lambda>c req w. (w, Inl (ErrExternal ''unreachable'')))"
  "se_peer_BatchAdd (leaf_env sum32 B) = (\<lambda>c req w. (w, Inl (ErrExternal ''unreachable'')))"
  "se_peer_Query (leaf_env sum32 B) = (\<lambda>c req w. (w, Inl (ErrExternal ''unreachable'')))"
  by (simp_all add: leaf_env_def)

text \<open>The receiving server reaches every other one.\<close>

lemma forward_call_hop:
  fixes sw :: "('s, 'db, 'x) hop_state"
  assumes "\<forall>b c. srv_conns (fst sw) b = Some c \<longrightarrow> c = b"
    and "r = forward_call (hop_env sum32 B) a method (peer_call h) sw"
  shows "same_config (fst sw) (fst (fst r))"
    and "snd (fst r) = (case snd (w_ext (snd sw)) a of None \<Rightarrow> snd sw
      | Some p \<Rightarrow> (snd sw)\<lparr>w_ext := (fst (w_ext (snd sw)), (snd (w_ext (snd sw)))(a \<mapsto> fst (h p)))\<rparr>)"
    and "snd (w_ext (snd sw)) a = Some p \<Longrightarrow> snd r = snd (h p)"
proof -
  obtain srv w where sw: "sw = (srv, w)" by (cases sw)
  have c: "srv_conns srv a = Some c \<Longrightarrow> c = a" for c using assms(1) sw by simp
  note defs = forward_call_def getPeerClient_def hop_env_def upd_metrics_def sw peer_call_def
  have "same_config (fst sw) (fst (fst r))
    \<and> snd (fst r) = (case snd (w_ext w) a of None \<Rightarrow> w
      | Some p \<Rightarrow> w\<lparr>w_ext := (fst (w_ext w), (snd (w_ext w))(a \<mapsto> fst (h p)))\<rparr>)
    \<and> (\<forall>p. snd (w_ext w) a = Some p \<longrightarrow> snd r = snd (h p))"
  proof (cases "snd (w_ext w) a")
    case None
    with c show ?thesis
      unfolding assms(2) by (cases "srv_conns srv a") (auto simp: defs same_config_def domIff)
  next
    case (Some p)
    obtain p' q where "h p = (p', q)" by (cases "h p")
    with Some c show ?thesis
      unfolding assms(2) by (cases "srv_conns srv a"; cases q) (auto simp: defs same_config_def domIff)
  qed
  then show "same_config (fst sw) (fst (fst r))"
    and "snd (fst r) = (case snd (w_ext (snd sw)) a of None \<Rightarrow> snd sw
      | Some p \<Rightarrow> (snd sw)\<lparr>w_ext := (fst (w_ext (snd sw)), (snd (w_ext (snd sw)))(a \<mapsto> fst (h p)))\<rparr>)"
    and "snd (w_ext (snd sw)) a = Some p \<Longrightarrow> snd r = snd (h p)"
    unfolding sw fst_conv snd_conv by blast+
qed

section \<open>Shards\<close>

text \<open>The part of a set of additions that the ring gives to one address.\<close>

definition shard :: "(bytes \<Rightarrow> u32) \<Rightarrow> Ring \<Rightarrow> string \<Rightarrow> (string \<times> u64) set \<Rightarrow> (string \<times> u64) set" where
  "shard sum32 r a A = {(g, x) \<in> A. Resolve sum32 r g = a}"

lemma shard_mono: "A \<subseteq> A' \<Longrightarrow> shard sum32 r a A \<subseteq> shard sum32 r a A'"
  by (auto simp: shard_def)

lemma shard_insert [simp]:
  "shard sum32 r a (insert (g, x) A) = (if Resolve sum32 r g = a then insert (g, x) else id) (shard sum32 r a A)"
  by (auto simp: shard_def)

text \<open>An invariant \<open>I a A w\<close> of the world of the server at \<open>a\<close>, which has been asked for the additions
  \<open>A\<close>: when it survives the additions of the server itself, it holds on every server of the
  cluster, for the additions of that server's shard.\<close>

locale member_inv =
  fixes sum32 :: "bytes \<Rightarrow> u32" and r :: Ring and B :: "'db badger"
    and node :: "string \<Rightarrow> ('s, 'db, 'x) RaftNode option"
    and I :: "string \<Rightarrow> (string \<times> u64) set \<Rightarrow> ('s, 'db, 'x) world \<Rightarrow> bool"
  assumes ring_ok: "ring_ok r"
    and I_mono: "I a A w \<Longrightarrow> A \<subseteq> A' \<Longrightarrow> I a A' w"
    and I_local: "I a A w \<Longrightarrow> I a (insert (g, x) A) (local_add B (node a) g x w)"
begin

definition leaf_inv :: "string \<Rightarrow> (string \<times> u64) set \<Rightarrow> ('s, 'db, 'x, string) srv_state \<Rightarrow> bool" where
  "leaf_inv a A p \<longleftrightarrow> member r a p \<and> srv_node (fst p) = node a \<and> I a (shard sum32 r a A) (snd p)"

definition hop_inv :: "string \<Rightarrow> (string \<times> u64) set \<Rightarrow> ('s, 'db, 'x) hop_state \<Rightarrow> bool" where
  "hop_inv a A sw \<longleftrightarrow> member r a sw \<and> srv_node (fst sw) = map_option among_peers (node a)
     \<and> I a (shard sum32 r a A) (own_world (snd sw))
     \<and> (\<forall>b p. snd (w_ext (snd sw)) b = Some p \<longrightarrow> leaf_inv b A p)"

definition cluster_inv :: "(string \<times> u64) set \<Rightarrow> ('s, 'db, 'x) cluster \<Rightarrow> bool" where
  "cluster_inv A C \<longleftrightarrow> (\<forall>a p. C a = Some p \<longrightarrow> leaf_inv a A p)"

lemma leaf_inv_mono: "leaf_inv a A p \<Longrightarrow> A \<subseteq> A' \<Longrightarrow> leaf_inv a A' p"
  using I_mono [OF _ shard_mono [of A A']] by (simp add: leaf_inv_def)

lemma hop_inv_mono: "hop_inv a A sw \<Longrightarrow> A \<subseteq> A' \<Longrightarrow> hop_inv a A' sw"
  using I_mono [OF _ shard_mono [of A A']] leaf_inv_mono [of _ A _ A'] by (simp add: hop_inv_def)

lemma leaf_inv_config:
  "leaf_inv a A p \<Longrightarrow> same_config (fst p) (fst p') \<Longrightarrow> I a (shard sum32 r a A') (snd p') \<Longrightarrow> leaf_inv a A' p'"
  using member_same_config [of r a p p'] by (auto simp: leaf_inv_def same_config_def)

lemma leaf_inv_local:
  assumes "leaf_inv a A p" and "forward_owner (leaf_env sum32 B) (fst p) g = None"
  shows "leaf_inv a (insert (g, x) A) (fst (addID (leaf_env sum32 B) method g x p))"
proof -
  have "Resolve sum32 r g = a"
    using assms member_forward_owner [OF ring_ok _ hop_env_sel(3), of a p sum32 B g]
    by (simp add: leaf_inv_def split: if_splits)
  moreover have "I a (insert (g, x) (shard sum32 r a A)) (local_add B (node a) g x (snd p))"
    using I_local assms(1) by (simp add: leaf_inv_def)
  ultimately have "I a (shard sum32 r a (insert (g, x) A)) (snd (fst (addID (leaf_env sum32 B) method g x p)))"
    using assms(1) by (simp add: addID_local(1) [OF assms(2)] leaf_inv_def)
  then show ?thesis by (rule leaf_inv_config [OF assms(1) addID_local(2) [OF assms(2)]])
qed

lemma leaf_inv_forward:
  assumes "leaf_inv a A p" and "A \<subseteq> A'"
  shows "leaf_inv a A' (fst (forward_call (leaf_env sum32 B) peer method (\<lambda>c w. (w, Inl e)) p))"
proof (rule leaf_inv_config [OF assms(1) forward_call_leaf(2)])
  show "I a (shard sum32 r a A') (snd (fst (forward_call (leaf_env sum32 B) peer method (\<lambda>c w. (w, Inl e)) p)))"
    using leaf_inv_mono [OF assms] by (simp add: forward_call_leaf(1) leaf_inv_def)
qed

end

sublocale member_inv \<subseteq> leaf: handler_inv "leaf_env sum32 B :: ('s, 'db, 'x, string) server_env" "leaf_inv a" for a
proof (unfold_locales, goal_cases)
  case (1 A sw A')
  then show ?case by (rule leaf_inv_mono)
next
  case (2 A f sw)
  then show ?case by (simp add: leaf_inv_def)
next
  case (3 A sw g x meth)
  then show ?case by (rule leaf_inv_local)
next
  case (4 A sw areq peer meth)
  show ?case unfolding leaf_calls by (rule leaf_inv_forward [OF 4(1) subset_insertI])
next
  case (5 A sw breq peer meth)
  show ?case unfolding leaf_calls by (rule leaf_inv_forward [OF 5(1) Un_upper1])
next
  case (6 A sw qreq peer meth)
  show ?case unfolding leaf_calls by (rule leaf_inv_forward [OF 6(1) order_refl])
qed


context member_inv
begin

lemma hop_inv_local:
  assumes "hop_inv a A sw" and "forward_owner (hop_env sum32 B) (fst sw) g = None"
  shows "hop_inv a (insert (g, x) A) (fst (addID (hop_env sum32 B) method g x sw))"
proof -
  let ?w = "snd (fst (addID (hop_env sum32 B) method g x sw))"
  have m: "member r a sw" "srv_node (fst sw) = map_option among_peers (node a)" using assms(1) by (simp_all add: hop_inv_def)
  have "Resolve sum32 r g = a"
    using assms(2) member_forward_owner [OF ring_ok m(1) hop_env_sel(1), of sum32 B g] by (simp split: if_splits)
  moreover have w: "?w = local_add B (map_option among_peers (node a)) g x (snd sw)"
    using addID_local(1) [OF assms(2)] m(2) by simp
  moreover have "I a (insert (g, x) (shard sum32 r a A)) (local_add B (node a) g x (own_world (snd sw)))"
    using I_local assms(1) by (simp add: hop_inv_def)
  ultimately have "I a (shard sum32 r a (insert (g, x) A)) (own_world ?w)"
    by (simp add: local_add_among_peers)
  moreover have "\<forall>b p. snd (w_ext ?w) b = Some p \<longrightarrow> leaf_inv b (insert (g, x) A) p"
    using assms(1) leaf_inv_mono [OF _ subset_insertI] by (simp add: w local_add_among_peers hop_inv_def)
  ultimately show ?thesis
    using member_same_config [OF m(1) addID_local(2) [OF assms(2)]] addID_local(2) [OF assms(2)] m(2)
    by (simp add: hop_inv_def same_config_def)
qed

lemma hop_inv_forward:
  assumes "hop_inv a A sw" and "A \<subseteq> A'" and "\<And>p. leaf_inv peer A p \<Longrightarrow> leaf_inv peer A' (fst (h p))"
  shows "hop_inv a A' (fst (forward_call (hop_env sum32 B) peer method (peer_call h) sw))"
proof -
  let ?q = "fst (forward_call (hop_env sum32 B) peer method (peer_call h) sw)"
  have m: "member r a sw" using assms(1) by (simp add: hop_inv_def)
  then have c: "\<forall>b c. srv_conns (fst sw) b = Some c \<longrightarrow> c = b" by (simp add: member_def)
  note s = forward_call_hop(1) [OF c refl, of sum32 B peer "method" h]
  note w = forward_call_hop(2) [OF c refl, of sum32 B peer "method" h]
  have peers: "leaf_inv b A p \<and> leaf_inv b A' p" if "snd (w_ext (snd sw)) b = Some p" for b p
    using that assms(1) hop_inv_mono [OF assms(1,2)] unfolding hop_inv_def by blast
  have "own_world (snd ?q) = own_world (snd sw)"
    by (simp add: w own_world_def split: option.split)
  moreover have "leaf_inv b A' p" if "snd (w_ext (snd ?q)) b = Some p" for b p
    using that peers assms(3) by (auto simp: w split: option.splits if_splits)
  ultimately show ?thesis
    using hop_inv_mono [OF assms(1,2)] member_same_config [OF m s] s by (auto simp: hop_inv_def same_config_def)
qed

end

sublocale member_inv \<subseteq> hop: handler_inv "hop_env sum32 B :: ('s, 'db, 'x \<times> ('s, 'db, 'x) cluster, string) server_env" "hop_inv a" for a
proof (unfold_locales, goal_cases)
  case (1 A sw A')
  then show ?case by (rule hop_inv_mono)
next
  case (2 A f sw)
  then show ?case by (simp add: hop_inv_def)
next
  case (3 A sw g x meth)
  then show ?case by (rule hop_inv_local)
next
  case (4 A sw areq peer meth)
  show ?case unfolding hop_env_sel
  proof (rule hop_inv_forward [OF 4(1) subset_insertI])
    fix p assume "leaf_inv peer A p"
    from leaf.P_Add [OF this, of areq]
    show "leaf_inv peer (insert (areq_Group areq, areq_Id areq) A) (fst (Server_Add (leaf_env sum32 B) areq p))"
      by (rule leaf.P_mono) auto
  qed
next
  case (5 A sw breq peer meth)
  show ?case unfolding hop_env_sel
  proof (rule hop_inv_forward [OF 5(1) Un_upper1])
    fix p assume "leaf_inv peer A p"
    from leaf.P_BatchAdd [OF this, of breq]
    show "leaf_inv peer (A \<union> Pair (breq_Group breq) ` set (breq_Ids breq)) (fst (Server_BatchAdd (leaf_env sum32 B) breq p))"
      by (rule leaf.P_mono) auto
  qed
next
  case (6 A sw qreq peer meth)
  show ?case unfolding hop_env_sel by (rule hop_inv_forward [OF 6(1) order_refl leaf.P_Query])
qed

context member_inv
begin

lemma cluster_invD: "cluster_inv A C \<Longrightarrow> C a = Some p \<Longrightarrow> leaf_inv a A p"
  unfolding cluster_inv_def by blast

lemma hop_inv_enter: "cluster_inv A C \<Longrightarrow> C a = Some p \<Longrightarrow> hop_inv a A (enter C a p)"
proof -
  assume C: "cluster_inv A C" "C a = Some p"
  then have l: "leaf_inv a A p" by (rule cluster_invD)
  then have "member r a (enter C a p)" by (simp add: leaf_inv_def member_def)
  moreover have "\<forall>b q. (C(a := None)) b = Some q \<longrightarrow> leaf_inv b A q"
    using cluster_invD [OF C(1)] by simp
  ultimately show ?thesis using l unfolding hop_inv_def by (simp add: leaf_inv_def [of a])
qed

lemma cluster_inv_leave: "hop_inv a A sw \<Longrightarrow> cluster_inv A (leave a (node a) sw)"
  by (simp add: cluster_inv_def hop_inv_def leave_def leaf_inv_def member_def)

lemma cluster_inv_serve_at:
  assumes "cluster_inv A C"
  shows "cluster_inv (A \<union> rpc_adds (snd ar)) (serve_at sum32 B code ar C)"
proof (cases "C (fst ar)")
  case None
  then show ?thesis using assms leaf_inv_mono [OF _ Un_upper1] by (simp add: serve_at_def cluster_inv_def)
next
  case (Some p)
  then have "srv_node (fst p) = node (fst ar)" using cluster_invD [OF assms] by (simp add: leaf_inv_def)
  then show ?thesis
    using cluster_inv_leave [OF hop.P_serve [OF hop_inv_enter [OF assms Some]]] Some by (simp add: serve_at_def)
qed

lemma cluster_inv_calls:
  "cluster_inv A C \<Longrightarrow>
   cluster_inv (A \<union> (\<Union>ar \<in> set calls. rpc_adds (snd ar))) (fold (serve_at sum32 B code) calls C)"
proof (induction calls arbitrary: A C)
  case (Cons ar calls)
  from Cons.IH [OF cluster_inv_serve_at [OF Cons.prems]] show ?case by (simp add: Un_assoc)
qed simp

lemma cluster_inv_ok: "cluster_inv A C \<Longrightarrow> cluster_ok r C"
  by (simp add: cluster_inv_def cluster_ok_def leaf_inv_def ring_ok)

end

text \<open>In standalone mode the invariant is that a server holds additions of its shard only, and that its
  store mirrors its engine while the saves succeed.\<close>

definition grown ::
    "'db badger \<Rightarrow> ('db \<Rightarrow> (bytes \<rightharpoonup> bytes)) \<Rightarrow> 's engine \<Rightarrow> (string \<times> u64) set \<Rightarrow> ('s, 'db, 'x) world \<Rightarrow> bool" where
  "grown B contents e0 A w \<longleftrightarrow> (\<exists>ops. set ops \<subseteq> A \<and> w_engine w = run_adds ops e0)
     \<and> ((\<forall>(g, x) \<in> A. saves_ok B g) \<longrightarrow> mirrors (stored_groups contents (w_store w)) (w_engine w))"

lemma grown_mono: "grown B contents e0 A w \<Longrightarrow> A \<subseteq> A' \<Longrightarrow> grown B contents e0 A' w"
  unfolding grown_def by blast

lemma grown_local_add:
  assumes "badger_spec B contents" and "grown B contents e0 A w"
  shows "grown B contents e0 (insert (g, x) A) (local_add B None g x w)"
proof -
  obtain ops where "set ops \<subseteq> A" "w_engine w = run_adds ops e0" using assms(2) by (auto simp: grown_def)
  then have "set (ops @ [(g, x)]) \<subseteq> insert (g, x) A \<and> w_engine (local_add B None g x w) = run_adds (ops @ [(g, x)]) e0"
    by (auto simp: local_add_standalone run_adds_def)
  then have "\<exists>ops. set ops \<subseteq> insert (g, x) A \<and> w_engine (local_add B None g x w) = run_adds ops e0" by blast
  moreover have "mirrors (stored_groups contents (w_store (local_add B None g x w))) (w_engine (local_add B None g x w))"
    if "\<forall>(g, x) \<in> insert (g, x) A. saves_ok B g"
    using assms(2) that unfolding local_add_standalone
    by (intro badger_spec.Add_mirrors [OF assms(1)]) (simp_all add: grown_def)
  ultimately show ?thesis by (simp add: grown_def)
qed

locale standalone_members = badger_spec B contents
  for B :: "'db badger" and contents :: "'db \<Rightarrow> (bytes \<rightharpoonup> bytes)" +
  fixes sum32 :: "bytes \<Rightarrow> u32" and r :: Ring and e0 :: "string \<Rightarrow> 's engine"
  assumes members_ring: "ring_ok r"

sublocale standalone_members \<subseteq> sm: member_inv sum32 r B "\<lambda>_. None" "\<lambda>a. grown B contents (e0 a)"
  by unfold_locales (auto intro: members_ring grown_mono grown_local_add [OF badger_spec_axioms])

section \<open>Answers\<close>

definition standalone :: "('s, 'db, 'x) cluster \<Rightarrow> bool" where
  "standalone C \<longleftrightarrow> (\<forall>a p. C a = Some p \<longrightarrow> srv_node (fst p) = None)"

definition reported :: "'s engine \<Rightarrow> string \<Rightarrow> u64" where
  "reported e g = (case Engine_Cardinality e g of Inl _ \<Rightarrow> 0 | Inr c \<Rightarrow> c)"

lemma cluster_okD: "cluster_ok r C \<Longrightarrow> C a = Some p \<Longrightarrow> member r a p"
  unfolding cluster_ok_def by blast

lemma cluster_ok_upd: "cluster_ok r C \<Longrightarrow> member r a p \<Longrightarrow> cluster_ok r (C(a \<mapsto> p))"
  by (auto simp: cluster_ok_def)

lemma member_enter: "member r a (enter C a p) = member r a p"
  by (simp add: member_def)

lemma leave_member:
  assumes "member r a sw"
  obtains p' where "leave a n sw = (snd (w_ext (snd sw)))(a \<mapsto> p')" and "member r a p'" and "srv_node (fst p') = n"
    and "w_engine (snd p') = w_engine (snd sw)"
  using assms by (intro that [OF leave_def]) (simp_all add: member_def)

lemma Server_Add_local:
  assumes "forward_owner env (fst sw) g = None" and "srv_node (fst sw) = None" and "saves_ok (se_badger env) g"
    and "g \<noteq> []"
  shows "snd (Server_Add env \<lparr>areq_Group = g, areq_Id = x\<rparr> sw) = Inr \<lparr>aresp_Ok = True\<rparr>"
    and "same_config (fst sw) (fst (fst (Server_Add env \<lparr>areq_Group = g, areq_Id = x\<rparr> sw)))"
    and "w_engine (snd (fst (Server_Add env \<lparr>areq_Group = g, areq_Id = x\<rparr> sw))) = fst (Engine_Add (w_engine (snd sw)) g x)"
    and "w_ext (snd (fst (Server_Add env \<lparr>areq_Group = g, areq_Id = x\<rparr> sw))) = w_ext (snd sw)"
  using assms(4)
  by (simp_all add: Server_Add_def addID_standalone_ok [OF assms(1-3)] finish_def upd_metrics_def same_config_def)

lemma Server_Add_forward:
  assumes "forward_owner env (fst sw) g = Some peer" and "g \<noteq> []"
    and "forward_call env peer ''Add'' (\<lambda>c. se_peer_Add env c \<lparr>areq_Group = g, areq_Id = x\<rparr>) sw = (sw', Inr resp)"
  shows "\<exists>f. Server_Add env \<lparr>areq_Group = g, areq_Id = x\<rparr> sw = (upd_metrics f sw', Inr \<lparr>aresp_Ok = True\<rparr>)"
  using assms by (auto simp: Server_Add_def addID_def finish_def split_beta)

lemma Server_Query_local:
  assumes "forward_owner env (fst sw) g = None" and "g \<noteq> []"
  shows "snd (Server_Query env \<lparr>qreq_Group = g, qreq_StaleOk = b\<rparr> sw)
    = Inr \<lparr>qresp_Group = g, qresp_Cardinality = reported (w_engine (snd sw)) g\<rparr>"
  using assms by (simp add: Server_Query_def reported_def)

text \<open>The owner of a group is a member.\<close>

lemma owner_is_member:
  assumes "cluster_ok r C" and "ran (nodeMap r) \<subseteq> dom C"
  obtains q where "C (Resolve sum32 r g) = Some q" and "member r (Resolve sum32 r g) q"
proof -
  have "Resolve sum32 r g \<in> dom C"
    using assms Resolve_ran [of r sum32 g] by (auto simp: cluster_ok_def ring_ok_def)
  with that cluster_okD [OF assms(1)] show ?thesis by blast
qed

lemma cluster_Add_self:
  fixes C :: "('s, 'db, 'x) cluster"
  assumes "cluster_ok r C" and "standalone C" and "saves_ok B g" and "g \<noteq> []" and "C (Resolve sum32 r g) = Some p"
  shows "\<exists>p'. call_at (Server_Add (hop_env sum32 B) \<lparr>areq_Group = g, areq_Id = x\<rparr>) (Resolve sum32 r g) C
      = (C(Resolve sum32 r g \<mapsto> p'), Inr \<lparr>aresp_Ok = True\<rparr>)
    \<and> member r (Resolve sum32 r g) p' \<and> srv_node (fst p') = None
    \<and> w_engine (snd p') = fst (Engine_Add (w_engine (snd p)) g x)"
proof -
  let ?a = "Resolve sum32 r g" and ?env = "hop_env sum32 B :: ('s, 'db, 'x \<times> ('s, 'db, 'x) cluster, string) server_env"
  let ?req = "\<lparr>areq_Group = g, areq_Id = x\<rparr>"
  have m: "member r ?a (enter C ?a p)" using cluster_okD [OF assms(1,5)] by (simp add: member_enter)
  have n: "srv_node (fst p) = None" using assms(2,5) unfolding standalone_def by blast
  have f: "forward_owner ?env (fst (enter C ?a p)) g = None"
    using member_forward_owner [OF _ m hop_env_sel(1)] assms(1) by (simp add: cluster_ok_def)
  note s = Server_Add_local [OF f _ _ assms(4), of x, simplified n enter_simps hop_env_sel, simplified, OF assms(3)]
  obtain p' where p': "leave ?a None (fst (Server_Add ?env ?req (enter C ?a p)))
      = (snd (w_ext (snd (fst (Server_Add ?env ?req (enter C ?a p))))))(?a \<mapsto> p')"
    "member r ?a p'" "srv_node (fst p') = None"
    "w_engine (snd p') = w_engine (snd (fst (Server_Add ?env ?req (enter C ?a p))))"
    using leave_member [OF member_same_config [OF m s(2)]] by blast
  have "call_at (Server_Add ?env ?req) ?a C = (C(?a \<mapsto> p'), Inr \<lparr>aresp_Ok = True\<rparr>)"
    using p'(1) s(1,4) assms(5) n by (simp add: call_at_def split_beta)
  moreover have "w_engine (snd p') = fst (Engine_Add (w_engine (snd p)) g x)" using p'(4) s(3) by simp
  ultimately show ?thesis using p'(2,3) by blast
qed

lemma cluster_Add_hop:
  fixes C :: "('s, 'db, 'x) cluster"
  assumes "cluster_ok r C" and "standalone C" and "saves_ok B g" and "g \<noteq> []" and "C a = Some p"
    and "C (Resolve sum32 r g) = Some q" and "Resolve sum32 r g \<noteq> a"
  shows "\<exists>p' q'. call_at (Server_Add (hop_env sum32 B) \<lparr>areq_Group = g, areq_Id = x\<rparr>) a C
      = (C(Resolve sum32 r g \<mapsto> q', a \<mapsto> p'), Inr \<lparr>aresp_Ok = True\<rparr>)
    \<and> member r a p' \<and> srv_node (fst p') = None \<and> w_engine (snd p') = w_engine (snd p)
    \<and> member r (Resolve sum32 r g) q' \<and> srv_node (fst q') = None
    \<and> w_engine (snd q') = fst (Engine_Add (w_engine (snd q)) g x)"
proof -
  let ?o = "Resolve sum32 r g" and ?env = "hop_env sum32 B :: ('s, 'db, 'x \<times> ('s, 'db, 'x) cluster, string) server_env"
  let ?leaf = "leaf_env sum32 B :: ('s, 'db, 'x, string) server_env" and ?req = "\<lparr>areq_Group = g, areq_Id = x\<rparr>"
  have r: "ring_ok r" using assms(1) by (simp add: cluster_ok_def)
  have m: "member r a (enter C a p)" using cluster_okD [OF assms(1,5)] by (simp add: member_enter)
  have mq: "member r ?o q" by (rule cluster_okD [OF assms(1,6)])
  have n: "srv_node (fst p) = None" "srv_node (fst q) = None" using assms(2,5,6) unfolding standalone_def by blast+
  have "forward_owner ?leaf (fst q) g = None" using member_forward_owner [OF r mq hop_env_sel(3)] by simp
  note sq = Server_Add_local [OF this n(2) _ assms(4), unfolded hop_env_sel, OF assms(3), of x]
  define q' where "q' = fst (Server_Add ?leaf ?req q)"
  have q': "member r ?o q'" "srv_node (fst q') = None" "w_engine (snd q') = fst (Engine_Add (w_engine (snd q)) g x)"
    using member_same_config [OF mq sq(2)] sq(2,3) n(2) by (simp_all add: q'_def same_config_def)
  have c: "\<forall>b c. srv_conns (fst (enter C a p)) b = Some c \<longrightarrow> c = b" using m by (simp add: member_def)
  have o: "snd (w_ext (snd (enter C a p))) ?o = Some q" using assms(6,7) by simp
  define sw where "sw = fst (forward_call ?env ?o ''Add'' (peer_call (Server_Add ?leaf ?req)) (enter C a p))"
  have "forward_call ?env ?o ''Add'' (\<lambda>c. se_peer_Add ?env c ?req) (enter C a p) = (sw, Inr \<lparr>aresp_Ok = True\<rparr>)"
    unfolding hop_env_sel by (simp add: sw_def prod_eq_iff forward_call_hop(3) [OF c refl o] sq(1))
  moreover have "forward_owner ?env (fst (enter C a p)) g = Some ?o"
    using member_forward_owner [OF r m hop_env_sel(1)] assms(7) by simp
  ultimately obtain f where add: "Server_Add ?env ?req (enter C a p) = (upd_metrics f sw, Inr \<lparr>aresp_Ok = True\<rparr>)"
    using Server_Add_forward [OF _ assms(4)] by blast
  have sw: "snd sw = world_with ((C(a := None))(?o \<mapsto> q')) (snd p)"
    unfolding sw_def forward_call_hop(2) [OF c refl] o option.case by (simp add: world_with_def q'_def)
  have "member r a (upd_metrics f sw)"
    unfolding sw_def member_metrics by (rule member_same_config [OF m forward_call_hop(1) [OF c refl]])
  then obtain p' where p': "leave a None (upd_metrics f sw) = (snd (w_ext (snd (upd_metrics f sw))))(a \<mapsto> p')"
    "member r a p'" "srv_node (fst p') = None" "w_engine (snd p') = w_engine (snd (upd_metrics f sw))"
    using leave_member by blast
  have "leave a None (upd_metrics f sw) = C(?o \<mapsto> q', a \<mapsto> p')"
    unfolding p'(1) using assms(7) by (auto simp: sw fun_upd_def)
  then have "call_at (Server_Add ?env ?req) a C = (C(?o \<mapsto> q', a \<mapsto> p'), Inr \<lparr>aresp_Ok = True\<rparr>)"
    using add assms(5) n(1) by (simp add: call_at_def)
  moreover have "w_engine (snd p') = w_engine (snd p)" using p'(4) by (simp add: sw)
  ultimately show ?thesis using p'(2,3) q' by blast
qed

lemma cluster_Add_effect:
  assumes "cluster_ok r C" and "standalone C" and "ran (nodeMap r) \<subseteq> dom C" and "saves_ok B g" and "g \<noteq> []" and "a \<in> dom C"
  shows "\<exists>C'. call_at (Server_Add (hop_env sum32 B) \<lparr>areq_Group = g, areq_Id = x\<rparr>) a C = (C', Inr \<lparr>aresp_Ok = True\<rparr>)
    \<and> cluster_ok r C' \<and> standalone C' \<and> dom C' = dom C
    \<and> (\<forall>c. engine_at C' c = (if c = Resolve sum32 r g then fst (Engine_Add (engine_at C c) g x) else engine_at C c))"
proof -
  obtain q where q: "C (Resolve sum32 r g) = Some q" using owner_is_member [OF assms(1,3)] by blast
  obtain p where p: "C a = Some p" using assms(6) by blast
  show ?thesis
  proof (cases "Resolve sum32 r g = a")
    case True
    obtain p' where "call_at (Server_Add (hop_env sum32 B) \<lparr>areq_Group = g, areq_Id = x\<rparr>) a C
        = (C(a \<mapsto> p'), Inr \<lparr>aresp_Ok = True\<rparr>)" "member r a p'" "srv_node (fst p') = None"
      "w_engine (snd p') = fst (Engine_Add (w_engine (snd q)) g x)"
      using cluster_Add_self [OF assms(1,2,4,5) q, of x] True by auto
    then show ?thesis
      using cluster_ok_upd [OF assms(1)] assms(2,6) q True
      by (intro exI [of _ "C(a \<mapsto> p')"]) (auto simp: engine_at_def standalone_def)
  next
    case False
    obtain p' q' where c: "call_at (Server_Add (hop_env sum32 B) \<lparr>areq_Group = g, areq_Id = x\<rparr>) a C
        = (C(Resolve sum32 r g \<mapsto> q', a \<mapsto> p'), Inr \<lparr>aresp_Ok = True\<rparr>)"
      "member r a p'" "srv_node (fst p') = None" "w_engine (snd p') = w_engine (snd p)"
      "member r (Resolve sum32 r g) q'" "srv_node (fst q') = None"
      "w_engine (snd q') = fst (Engine_Add (w_engine (snd q)) g x)"
      using cluster_Add_hop [OF assms(1,2,4,5) p q False, of x] by blast
    have "cluster_ok r (C(Resolve sum32 r g \<mapsto> q', a \<mapsto> p'))"
      using c(2,5) assms(1) by (intro cluster_ok_upd)
    with c show ?thesis
      using assms(2) p q False
      by (intro exI [of _ "C(Resolve sum32 r g \<mapsto> q', a \<mapsto> p')"]) (auto simp: engine_at_def standalone_def)
  qed
qed

lemma cluster_Query:
  fixes C :: "('s, 'db, 'x) cluster"
  assumes "cluster_ok r C" and "ran (nodeMap r) \<subseteq> dom C" and "g \<noteq> []" and "a \<in> dom C"
  shows "snd (call_at (Server_Query (hop_env sum32 B) \<lparr>qreq_Group = g, qreq_StaleOk = b\<rparr>) a C)
    = Inr \<lparr>qresp_Group = g, qresp_Cardinality = reported (engine_at C (Resolve sum32 r g)) g\<rparr>"
proof -
  let ?o = "Resolve sum32 r g" and ?env = "hop_env sum32 B :: ('s, 'db, 'x \<times> ('s, 'db, 'x) cluster, string) server_env"
  let ?leaf = "leaf_env sum32 B :: ('s, 'db, 'x, string) server_env" and ?req = "\<lparr>qreq_Group = g, qreq_StaleOk = b\<rparr>"
  obtain p where p: "C a = Some p" using assms(4) by blast
  obtain q where q: "C ?o = Some q" "member r ?o q" using owner_is_member [OF assms(1,2)] by blast
  have r: "ring_ok r" using assms(1) by (simp add: cluster_ok_def)
  have m: "member r a (enter C a p)" using cluster_okD [OF assms(1) p] by (simp add: member_enter)
  have call: "snd (call_at (Server_Query ?env ?req) a C) = snd (Server_Query ?env ?req (enter C a p))"
    using p by (simp add: call_at_def split_beta)
  show ?thesis
  proof (cases "?o = a")
    case True
    then have "forward_owner ?env (fst (enter C a p)) g = None"
      using member_forward_owner [OF r m hop_env_sel(1)] by simp
    from Server_Query_local [OF this assms(3)] True p show ?thesis by (simp add: call engine_at_def)
  next
    case False
    have c: "\<forall>b c. srv_conns (fst (enter C a p)) b = Some c \<longrightarrow> c = b" using m by (simp add: member_def)
    have o: "snd (w_ext (snd (enter C a p))) ?o = Some q" using q(1) False by simp
    have "forward_owner ?env (fst (enter C a p)) g = Some ?o"
      using member_forward_owner [OF r m hop_env_sel(1)] False by simp
    then have "snd (Server_Query ?env ?req (enter C a p)) = snd (Server_Query ?leaf ?req q)"
      using assms(3) by (simp add: Server_Query_def [of ?env] forward_call_hop(3) [OF c refl o])
    moreover have "forward_owner ?leaf (fst q) g = None" using member_forward_owner [OF r q(2) hop_env_sel(3)] by simp
    ultimately show ?thesis using Server_Query_local [OF _ assms(3)] q(1) by (simp add: call engine_at_def)
  qed
qed

section \<open>Properties\<close>

text \<open>C7: a client may talk to any server of a cluster of standalone servers. When the saves of the
  group succeed, an \<^verbatim>\<open>Add\<close> that enters at \<open>a\<close> answers ok and inserts the id into the engine of the
  server that the ring names, after at most one hop, and into no other; a query for the group at
  any server \<open>b\<close>, the same or another, then reports what the owner's engine holds, the new id
  included. The cluster stays consistent.\<close>

theorem cluster_Add_then_Query:
  assumes "cluster_ok r C" and "standalone C" and "ran (nodeMap r) \<subseteq> dom C" and "saves_ok B g" and "g \<noteq> []"
    and "a \<in> dom C" and "b \<in> dom C"
  shows "\<exists>C'. call_at (Server_Add (hop_env sum32 B) \<lparr>areq_Group = g, areq_Id = x\<rparr>) a C = (C', Inr \<lparr>aresp_Ok = True\<rparr>)
    \<and> cluster_ok r C' \<and> standalone C' \<and> dom C' = dom C
    \<and> (\<forall>c. engine_at C' c = (if c = Resolve sum32 r g then fst (Engine_Add (engine_at C c) g x) else engine_at C c))
    \<and> snd (call_at (Server_Query (hop_env sum32 B) \<lparr>qreq_Group = g, qreq_StaleOk = st\<rparr>) b C')
      = Inr \<lparr>qresp_Group = g,
          qresp_Cardinality = reported (fst (Engine_Add (engine_at C (Resolve sum32 r g)) g x)) g\<rparr>"
proof -
  obtain C' where C': "call_at (Server_Add (hop_env sum32 B) \<lparr>areq_Group = g, areq_Id = x\<rparr>) a C = (C', Inr \<lparr>aresp_Ok = True\<rparr>)"
    "cluster_ok r C'" "standalone C'" "dom C' = dom C"
    "\<forall>c. engine_at C' c = (if c = Resolve sum32 r g then fst (Engine_Add (engine_at C c) g x) else engine_at C c)"
    using cluster_Add_effect [OF assms(1-6)] by blast
  have "ran (nodeMap r) \<subseteq> dom C'" "b \<in> dom C'" using C'(4) assms(3,7) by simp_all
  from cluster_Query [OF C'(2) this(1) assms(5) this(2), of sum32 B st] C' show ?thesis by auto
qed

definition two_servers :: "(u64 set Sketch, (bytes \<times> bytes) list, unit) cluster" where
  "two_servers =
     (let w = \<lparr>w_engine = NewEngine (hll_Algorithm (example_env 0) ref_roaring), w_store = ref_store, w_ext = ()\<rparr>
      in [''n1'' \<mapsto> (server_New None (Some two_node_ring) ''n1'', w), ''n2'' \<mapsto> (server_New None (Some two_node_ring) ''n2'', w)])"

lemma two_node_ring_ok: "ring_ok two_node_ring" and ran_two_node_ring: "ran (nodeMap two_node_ring) = {''n2'', ''n1''}"
proof -
  show "ran (nodeMap two_node_ring) = {''n2'', ''n1''}" by (simp add: two_node_ring_def ran_map_upd)
  then show "ring_ok two_node_ring" by (auto simp: ring_ok_def ring_inv_def two_node_ring_def)
qed

interpretation ref_members: standalone_members ref_badger map_of "\<lambda>_. 15" two_node_ring
    "\<lambda>_. NewEngine (hll_Algorithm (example_env 0) ref_roaring)"
  by unfold_locales (rule two_node_ring_ok)

lemma two_servers_ok: "cluster_ok two_node_ring two_servers" and two_servers_standalone: "standalone two_servers"
  by (auto simp: cluster_ok_def standalone_def two_node_ring_ok two_servers_def member_def server_New_def Let_def split: if_splits)

lemma dom_two_servers: "dom two_servers = {''n2'', ''n1''}"
  by (simp add: two_servers_def Let_def)

theorem cluster_Add_then_Query_witness:
  "\<exists>C'. call_at (Server_Add (hop_env (\<lambda>_. 15) ref_badger) \<lparr>areq_Group = ''a'', areq_Id = 7\<rparr>) ''n1'' two_servers
      = (C', Inr \<lparr>aresp_Ok = True\<rparr>) \<and> engine_at C' ''n1'' = engine_at two_servers ''n1''
    \<and> engine_at C' ''n2'' = fst (Engine_Add (engine_at two_servers ''n2'') ''a'' 7)"
proof -
  have "Resolve (\<lambda>_. 15) two_node_ring ''a'' = ''n2''"
    by (simp add: Resolve_def two_node_ring_def sort_Search_def search_loop.simps owner_def)
  with cluster_Add_then_Query [OF two_servers_ok two_servers_standalone _ ref_saves_ok, of "''n1''" "''n2''" "\<lambda>_. 15" 7 False]
  obtain C' where "call_at (Server_Add (hop_env (\<lambda>_. 15) ref_badger) \<lparr>areq_Group = ''a'', areq_Id = 7\<rparr>) ''n1'' two_servers
      = (C', Inr \<lparr>aresp_Ok = True\<rparr>)"
    and "\<forall>c. engine_at C' c = (if c = ''n2'' then fst (Engine_Add (engine_at two_servers c) ''a'' 7)
      else engine_at two_servers c)"
    unfolding ran_two_node_ring dom_two_servers by (auto simp only: list.distinct simp_thms insert_iff order_refl)
  then show ?thesis by (intro exI [of _ C']) simp
qed

end
