(* ===== verification/Handler.thy ===== *)
theory Handler
  imports Engine
begin

text \<open>
  Package \<^verbatim>\<open>internal/raft/handler\<close>: the registry of command types and the three built-in
  commands \<^verbatim>\<open>ADD\<close>, \<^verbatim>\<open>BATCH_ADD\<close> and \<^verbatim>\<open>MERGE_SKETCH\<close>. Handlers see the engine only through the
  \<^verbatim>\<open>Adder\<close> interface, a method table over a receiver state \<open>'a\<close>; what they rely on is the locale
  \<open>adder_contract\<close>, which the engine is shown to satisfy for every lawful algorithm.
\<close>

section \<open>Commands, handlers and the registry\<close>

record Command =
  cmd_Type :: string
  cmd_Group :: string
  cmd_Payload :: bytes

record 'a Adder =
  ad_Add :: "'a \<Rightarrow> string \<Rightarrow> u64 \<Rightarrow> 'a \<times> err"
  ad_MergeBytes :: "'a \<Rightarrow> string \<Rightarrow> string \<Rightarrow> bytes \<Rightarrow> ('a \<times> err) outcome"

type_synonym 'a Handler = "Command \<Rightarrow> 'a Adder \<Rightarrow> 'a \<Rightarrow> ('a \<times> err) outcome"

record 'a Registry =
  reg_m :: "string \<rightharpoonup> 'a Handler"

definition NewRegistry :: "'a Registry" where
  "NewRegistry = \<lparr>reg_m = Map.empty\<rparr>"

definition Register :: "'a Registry \<Rightarrow> string \<Rightarrow> 'a Handler \<Rightarrow> 'a Registry" where
  "Register r t h = r\<lparr>reg_m := (reg_m r)(t \<mapsto> h)\<rparr>"

text \<open>A \<^verbatim>\<open>nil\<close> command and a \<^verbatim>\<open>nil\<close> adder are \<open>None\<close>.\<close>

definition Dispatch ::
    "'a Registry \<Rightarrow> Command option \<Rightarrow> 'a Adder option \<Rightarrow> 'a \<Rightarrow> ('a \<times> err) outcome" where
  "Dispatch r cmd adder a =
     (case cmd of
        None \<Rightarrow> Return (a, Some (ErrUnknownCommand None))
      | Some c \<Rightarrow>
          (case reg_m r (cmd_Type c) of
             None \<Rightarrow> Return (a, Some (ErrUnknownCommand (Some (cmd_Type c))))
           | Some h \<Rightarrow>
               (case adder of
                  None \<Rightarrow> Return (a, Some ErrNilAdder)
                | Some A \<Rightarrow> h c A a)))"

section \<open>The ADD command\<close>

definition TypeAdd :: string where
  "TypeAdd = ''ADD''"

definition applyAdd :: "'a Handler" where
  "applyAdd cmd A a =
     (let (x, n) = Uvarint (cmd_Payload cmd)
      in if n \<le> 0 \<or> n \<noteq> int (length (cmd_Payload cmd))
         then Return (a, Some (ErrBadPayload NotSingleVarint))
         else Return (ad_Add A a (cmd_Group cmd) x))"

definition RegisterAdd :: "'a Registry \<Rightarrow> 'a Registry" where
  "RegisterAdd r = Register r TypeAdd applyAdd"

section \<open>The BATCH\_ADD command\<close>

definition TypeBatchAdd :: string where
  "TypeBatchAdd = ''BATCH_ADD''"

function batch_loop :: "'a Adder \<Rightarrow> string \<Rightarrow> u64 \<Rightarrow> u64 \<Rightarrow> bytes \<Rightarrow> 'a \<Rightarrow> 'a \<times> err" where
  "batch_loop A g n i buf a =
     (if i < n
      then let (x, m) = Uvarint buf
           in if m \<le> 0 then (a, Some (ErrBadPayload (TruncatedId (i + 1) n)))
              else (case ad_Add A a g x of
                      (a', Some e) \<Rightarrow> (a', Some e)
                    | (a', None) \<Rightarrow> batch_loop A g n (i + 1) (drop (nat m) buf) a')
      else (a, None))"
  by pat_completeness auto

termination batch_loop
proof (relation "measure (\<lambda>(A, g, n, i, buf, a). unat n - unat i)")
  fix A :: "'a Adder" and g n i buf a p x m and q :: "'a \<times> err" and a' e
  assume "i < (n :: u64)"
  then have "unat (i + 1) = Suc (unat i)" "unat i < unat n"
    by (simp_all add: word_less_nat_alt unat_Suc_less)
  then show "((A, g, n, i + 1, drop (nat m) buf, a'), A, g, n, i, buf, a)
      \<in> measure (\<lambda>(A, g, n, i, buf, a). unat n - unat i)"
    by simp
qed simp

declare batch_loop.simps [simp del]

definition applyBatchAdd :: "'a Handler" where
  "applyBatchAdd cmd A a =
     (let (n, k) = Uvarint (cmd_Payload cmd)
      in if k \<le> 0 then Return (a, Some (ErrBadPayload MissingCount))
         else Return (batch_loop A (cmd_Group cmd) n 0 (drop (nat k) (cmd_Payload cmd)) a))"

definition RegisterBatch :: "'a Registry \<Rightarrow> 'a Registry" where
  "RegisterBatch r = Register r TypeBatchAdd applyBatchAdd"

section \<open>The MERGE\_SKETCH command\<close>

definition TypeMergeSketch :: string where
  "TypeMergeSketch = ''MERGE_SKETCH''"

definition applyMergeSketch :: "'a Handler" where
  "applyMergeSketch cmd A a =
     (let (algoLen, n) = Uvarint (cmd_Payload cmd)
      in if n \<le> 0 then Return (a, Some (ErrBadPayload MissingAlgoLen))
         else let buf = drop (nat n) (cmd_Payload cmd)
              in if (word_of_nat (length buf) :: u64) < algoLen
                 then Return (a, Some (ErrBadPayload (AlgoLenExceeds algoLen (length buf))))
                 else ad_MergeBytes A a (cmd_Group cmd) (string_of_bytes (take (unat algoLen) buf))
                        (drop (unat algoLen) buf))"

definition RegisterMerge :: "'a Registry \<Rightarrow> 'a Registry" where
  "RegisterMerge r = Register r TypeMergeSketch applyMergeSketch"

definition DefaultRegistry :: "'a Registry" where
  "DefaultRegistry = RegisterMerge (RegisterBatch (RegisterAdd NewRegistry))"

text \<open>\<^verbatim>\<open>*cardinality.Engine\<close> as an \<^verbatim>\<open>Adder\<close>.\<close>

definition engine_adder :: "'s engine Adder" where
  "engine_adder = \<lparr>ad_Add = Engine_Add, ad_MergeBytes = MergeBytes\<rparr>"

lemmas command_types = TypeAdd_def TypeBatchAdd_def TypeMergeSketch_def

lemma DefaultRegistry_m:
  "reg_m DefaultRegistry =
    [TypeAdd \<mapsto> applyAdd, TypeBatchAdd \<mapsto> applyBatchAdd, TypeMergeSketch \<mapsto> applyMergeSketch]"
  by (simp add: DefaultRegistry_def RegisterMerge_def RegisterBatch_def RegisterAdd_def Register_def
      NewRegistry_def)

lemma Dispatch_default:
  "Dispatch DefaultRegistry (Some c) (Some A) a =
    (if cmd_Type c = TypeAdd then applyAdd c A a
     else if cmd_Type c = TypeBatchAdd then applyBatchAdd c A a
     else if cmd_Type c = TypeMergeSketch then applyMergeSketch c A a
     else Return (a, Some (ErrUnknownCommand (Some (cmd_Type c)))))"
  by (simp add: Dispatch_def DefaultRegistry_m command_types)

section \<open>Payload encodings\<close>

text \<open>The payload schemas of the package documentation.\<close>

definition batch_payload :: "u64 \<Rightarrow> u64 list \<Rightarrow> bytes" where
  "batch_payload n xs = AppendUvarint [] n @ concat (map (AppendUvarint []) xs)"

definition merge_payload :: "string \<Rightarrow> bytes \<Rightarrow> bytes" where
  "merge_payload name sketch =
     AppendUvarint [] (word_of_nat (length name)) @ bytes_of_string name @ sketch"

text \<open>One varint is consumed from the front of the buffer.\<close>

lemma Uvarint_AppendUvarint_pos:
  obtains k where "Uvarint (AppendUvarint [] x @ rest) = (x, int k)" and "0 < k"
    and "drop k (AppendUvarint [] x @ rest) = rest"
  using Uvarint_AppendUvarint [of x rest] AppendUvarint_nonempty [of x] by auto

lemma applyAdd_varint:
  "applyAdd \<lparr>cmd_Type = t, cmd_Group = g, cmd_Payload = AppendUvarint [] x\<rparr> A a = Return (ad_Add A a g x)"
  using Uvarint_AppendUvarint [of x "[]"] AppendUvarint_nonempty [of x]
  by (simp add: applyAdd_def)

lemma batch_loop_step:
  assumes "i < n"
  shows "batch_loop A g n i (AppendUvarint [] x @ rest) a =
    (case ad_Add A a g x of
       (a', Some e) \<Rightarrow> (a', Some e)
     | (a', None) \<Rightarrow> batch_loop A g n (i + 1) rest a')"
proof -
  obtain k where "Uvarint (AppendUvarint [] x @ rest) = (x, int k)" "0 < k"
    "drop k (AppendUvarint [] x @ rest) = rest"
    by (rule Uvarint_AppendUvarint_pos)
  with assms show ?thesis by (subst batch_loop.simps) (simp cong: option.case_cong)
qed

lemma batch_loop_done: "batch_loop A g n n buf a = (a, None)"
  by (simp add: batch_loop.simps)

lemma batch_loop_truncated: "i < n \<Longrightarrow> batch_loop A g n i [] a = (a, Some (ErrBadPayload (TruncatedId (i + 1) n)))"
  by (simp add: batch_loop.simps)

section \<open>What handlers rely on\<close>

locale adder_adds =
  fixes A :: "'a Adder" and ok :: "'a \<Rightarrow> bool" and groups :: "'a \<Rightarrow> string \<Rightarrow> 'v"
  assumes add_ok: "ok a \<Longrightarrow> \<exists>a'. ad_Add A a g x = (a', None) \<and> ok a' \<and> (\<forall>h. h \<noteq> g \<longrightarrow> groups a' h = groups a h)"
begin

lemma batch_loop_ok:
  "ok a \<Longrightarrow> batch_loop A g n i buf a = (a', er) \<Longrightarrow>
   ok a' \<and> (\<forall>t. er \<noteq> Some (ErrUnknownCommand t)) \<and> (\<forall>h. h \<noteq> g \<longrightarrow> groups a' h = groups a h)"
proof (induction "unat n - unat i" arbitrary: i buf a)
  case 0
  then have "\<not> i < n" by (simp add: word_less_nat_alt)
  with 0 show ?case by (simp add: batch_loop.simps)
next
  case (Suc k)
  then have i: "i < n" by (simp add: word_less_nat_alt)
  obtain x m where u: "Uvarint buf = (x, m)" by (cases "Uvarint buf")
  show ?case
  proof (cases "m \<le> 0")
    case True
    with Suc.prems i u show ?thesis by (subst (asm) batch_loop.simps) auto
  next
    case False
    obtain a1 where a1: "ad_Add A a g x = (a1, None)" "ok a1" "\<forall>h. h \<noteq> g \<longrightarrow> groups a1 h = groups a h"
      using add_ok [OF Suc.prems(1)] by blast
    with False i u Suc.prems(2) have "batch_loop A g n (i + 1) (drop (nat m) buf) a1 = (a', er)"
      by (subst (asm) batch_loop.simps) simp
    moreover have "k = unat n - unat (i + 1)" using Suc.hyps(2) i by (simp add: unat_Suc_less)
    ultimately show ?thesis using Suc.hyps(1) a1(2,3) by auto
  qed
qed

lemma batch_loop_all:
  "ok a \<Longrightarrow> unat i + length xs \<le> unat n \<Longrightarrow>
   batch_loop A g n i (concat (map (AppendUvarint []) xs) @ rest) a =
   batch_loop A g n (i + word_of_nat (length xs)) rest (fold (\<lambda>x a. fst (ad_Add A a g x)) xs a)"
proof (induction xs arbitrary: i a)
  case (Cons x xs)
  then have i: "i < n" by (simp add: word_less_nat_alt)
  obtain a1 where a1: "ad_Add A a g x = (a1, None)" "ok a1" using add_ok [OF Cons.prems(1)] by blast
  have "unat (i + 1) + length xs \<le> unat n" using Cons.prems(2) unat_Suc_less [OF i] by simp
  from Cons.IH [OF a1(2) this] show ?case
    by (simp add: batch_loop_step [OF i] a1(1) algebra_simps)
qed simp

end

locale adder_contract = adder_adds +
  assumes merge_ok: "ok a \<Longrightarrow> \<exists>a' er. ad_MergeBytes A a g name b = Return (a', er) \<and> ok a'
      \<and> (er \<noteq> None \<longrightarrow> a' = a) \<and> (\<forall>t. er \<noteq> Some (ErrUnknownCommand t))
      \<and> (\<forall>h. h \<noteq> g \<longrightarrow> groups a' h = groups a h)"
begin

text \<open>Dispatching never panics and touches only the command's group.\<close>

lemma Dispatch_total:
  assumes "ok a"
  shows "\<exists>a' er. Dispatch DefaultRegistry (Some c) (Some A) a = Return (a', er) \<and> ok a'
    \<and> (\<forall>h. h \<noteq> cmd_Group c \<longrightarrow> groups a' h = groups a h)
    \<and> (er \<noteq> None \<longrightarrow> cmd_Type c \<noteq> TypeBatchAdd \<longrightarrow> a' = a)
    \<and> ((\<exists>t. er = Some (ErrUnknownCommand t)) \<longleftrightarrow> cmd_Type c \<notin> {TypeAdd, TypeBatchAdd, TypeMergeSketch})"
proof -
  consider "cmd_Type c = TypeAdd" | "cmd_Type c = TypeBatchAdd" | "cmd_Type c = TypeMergeSketch"
    | "cmd_Type c \<notin> {TypeAdd, TypeBatchAdd, TypeMergeSketch}" by blast
  then show ?thesis
  proof cases
    case 1
    then show ?thesis
      using assms add_ok [OF assms, of "cmd_Group c" "fst (Uvarint (cmd_Payload c))"]
      by (auto simp: Dispatch_default applyAdd_def split: prod.split)
  next
    case 2
    obtain n k where u: "Uvarint (cmd_Payload c) = (n, k)" by (cases "Uvarint (cmd_Payload c)")
    obtain a' er where b: "batch_loop A (cmd_Group c) n 0 (drop (nat k) (cmd_Payload c)) a = (a', er)"
      by (cases "batch_loop A (cmd_Group c) n 0 (drop (nat k) (cmd_Payload c)) a")
    from 2 show ?thesis
      using assms batch_loop_ok [OF assms b]
      by (simp add: Dispatch_default applyBatchAdd_def command_types u b)
  next
    case 3
    obtain l n where u: "Uvarint (cmd_Payload c) = (l, n)" by (cases "Uvarint (cmd_Payload c)")
    let ?buf = "drop (nat n) (cmd_Payload c)"
    from 3 show ?thesis
      using assms merge_ok [OF assms, of "cmd_Group c" "string_of_bytes (take (unat l) ?buf)" "drop (unat l) ?buf"]
      by (simp add: Dispatch_default applyMergeSketch_def command_types Let_def u) blast
  next
    case 4
    then show ?thesis using assms by (simp add: Dispatch_default)
  qed
qed

end

section \<open>The engine is an adder\<close>

lemma Engine_Merge_frame: "Engine_Merge e g r = Return (e', er) \<Longrightarrow> h \<noteq> g \<Longrightarrow> eng_groups e' h = eng_groups e h"
  by (auto simp: Engine_Merge_def split: option.splits if_splits outcome.splits)

lemma MergeBytes_frame:
  "MergeBytes e g name b = Return (e', er) \<Longrightarrow> h \<noteq> g \<Longrightarrow> eng_groups e' h = eng_groups e h"
  by (auto simp: MergeBytes_def Engine_Merge_frame split: if_splits sum.splits)

lemma MergeBytes_err:
  "MergeBytes e g name b = Return (e', Some er) \<Longrightarrow> e' = e \<and> (\<forall>t. er \<noteq> ErrUnknownCommand t)"
  by (auto simp: MergeBytes_def Engine_Merge_def split: option.splits if_splits sum.splits outcome.splits)

sublocale sketch_contract \<subseteq> eng: adder_contract engine_adder engine_ok eng_groups
proof
  fix e g x
  assume "engine_ok e"
  then show "\<exists>e'. ad_Add engine_adder e g x = (e', None) \<and> engine_ok e'
      \<and> (\<forall>h. h \<noteq> g \<longrightarrow> eng_groups e' h = eng_groups e h)"
    using Engine_Add_refines(1) [of e g x] by (auto simp: engine_adder_def Engine_Add_def Let_def)
next
  fix e g name b
  assume ok: "engine_ok e"
  from MergeBytes_total [OF this, of g name b] obtain e' er
    where "MergeBytes e g name b = Return (e', er)" "engine_ok e'" by blast
  then show "\<exists>e' er. ad_MergeBytes engine_adder e g name b = Return (e', er) \<and> engine_ok e'
      \<and> (er \<noteq> None \<longrightarrow> e' = e) \<and> (\<forall>t. er \<noteq> Some (ErrUnknownCommand t))
      \<and> (\<forall>h. h \<noteq> g \<longrightarrow> eng_groups e' h = eng_groups e h)"
    using MergeBytes_err [of e g name b e'] MergeBytes_frame [of e g name b e' er]
    by (auto simp: engine_adder_def)
qed

lemma Dispatch_batch_loop:
  "Dispatch DefaultRegistry (Some \<lparr>cmd_Type = TypeBatchAdd, cmd_Group = g, cmd_Payload = AppendUvarint [] n @ buf\<rparr>)
     (Some A) a = Return (batch_loop A g n 0 buf a)"
proof -
  obtain k where "Uvarint (AppendUvarint [] n @ buf) = (n, int k)" "0 < k"
    "drop k (AppendUvarint [] n @ buf) = buf"
    by (rule Uvarint_AppendUvarint_pos)
  then show ?thesis by (simp add: Dispatch_default applyBatchAdd_def command_types)
qed

interpretation engine_adds: adder_adds engine_adder "\<lambda>_. True" eng_groups
  by unfold_locales (auto simp: engine_adder_def Engine_Add_def Let_def)

lemma engine_adder_sel [simp]:
  "ad_Add engine_adder = Engine_Add" "ad_MergeBytes engine_adder = MergeBytes"
  by (simp_all add: engine_adder_def)

lemma engine_batch_loop:
  "unat i + length xs \<le> unat n \<Longrightarrow>
   batch_loop engine_adder g n i (concat (map (AppendUvarint []) xs) @ rest) e =
   batch_loop engine_adder g n (i + word_of_nat (length xs)) rest (run_adds (map (Pair g) xs) e)"
  by (simp add: engine_adds.batch_loop_all run_adds_def fold_map comp_def)

lemma Dispatch_truncated_batch:
  assumes "length xs < unat n"
  shows "Dispatch DefaultRegistry (Some \<lparr>cmd_Type = TypeBatchAdd, cmd_Group = g,
       cmd_Payload = batch_payload n xs\<rparr>) (Some engine_adder) e
    = Return (run_adds (map (Pair g) xs) e,
        Some (ErrBadPayload (TruncatedId (word_of_nat (length xs) + 1) n)))"
proof -
  have "length xs < 2 ^ 64" using assms unsigned_less [where 'a = nat, of n] by simp
  then have "(word_of_nat (length xs) :: u64) < n" using assms by (simp add: word_less_nat_alt unat_of_nat)
  then show ?thesis
    using assms engine_batch_loop [of 0 xs n g "[]" e]
    by (simp add: batch_payload_def Dispatch_batch_loop batch_loop_truncated)
qed

section \<open>Properties\<close>



text \<open>An \<^verbatim>\<open>ADD\<close> command whose payload is the varint of an id inserts that id into its group, for
  every id and every engine.\<close>

lemma Dispatch_ADD_roundtrip:
  "Dispatch DefaultRegistry (Some \<lparr>cmd_Type = ''ADD'', cmd_Group = g, cmd_Payload = AppendUvarint [] x\<rparr>)
     (Some engine_adder) e = Return (Engine_Add e g x)"
  by (simp add: Dispatch_default command_types applyAdd_varint)

text \<open>A well-formed \<^verbatim>\<open>BATCH_ADD\<close> payload (the count, then that many ids) inserts exactly these ids
  in order and succeeds; bytes after the last id are ignored.\<close>

lemma Dispatch_BATCH_ADD_roundtrip:
  assumes "length xs < 2 ^ 64"
  shows "Dispatch DefaultRegistry (Some \<lparr>cmd_Type = ''BATCH_ADD'', cmd_Group = g,
       cmd_Payload = batch_payload (word_of_nat (length xs)) xs @ rest\<rparr>) (Some engine_adder) e
    = Return (run_adds (map (Pair g) xs) e, None)"
  using assms engine_batch_loop [of 0 xs "word_of_nat (length xs)" g rest e]
  by (simp add: batch_payload_def Dispatch_batch_loop [unfolded TypeBatchAdd_def] batch_loop_done unat_of_nat)

lemma Dispatch_BATCH_ADD_roundtrip_example:
  "Dispatch DefaultRegistry (Some \<lparr>cmd_Type = ''BATCH_ADD'', cmd_Group = ''a'',
       cmd_Payload = batch_payload 2 [3, 300] @ [7]\<rparr>) (Some engine_adder)
       (NewEngine (hll_Algorithm (example_env 0) ref_roaring))
    = Return (run_adds [(''a'', 3), (''a'', 300)] (NewEngine (hll_Algorithm (example_env 0) ref_roaring)), None)"
  using Dispatch_BATCH_ADD_roundtrip [of "[3, 300]" "''a''" "[7]"] by simp

text \<open>A \<^verbatim>\<open>BATCH_ADD\<close> that announces more ids than it holds is reported as truncated at the first
  missing id, but the ids before it have already been inserted.\<close>

lemma Dispatch_BATCH_ADD_truncated:
  assumes "length xs < unat n"
  shows "Dispatch DefaultRegistry (Some \<lparr>cmd_Type = ''BATCH_ADD'', cmd_Group = g,
       cmd_Payload = batch_payload n xs\<rparr>) (Some engine_adder) e
    = Return (run_adds (map (Pair g) xs) e,
        Some (ErrBadPayload (TruncatedId (word_of_nat (length xs) + 1) n)))"
  using Dispatch_truncated_batch [OF assms] by (simp add: TypeBatchAdd_def)

lemma Dispatch_BATCH_ADD_truncated_example:
  "Dispatch DefaultRegistry (Some \<lparr>cmd_Type = ''BATCH_ADD'', cmd_Group = ''a'', cmd_Payload = batch_payload 3 [5]\<rparr>)
       (Some engine_adder) (NewEngine (hll_Algorithm (example_env 0) ref_roaring))
    = Return (run_adds [(''a'', 5)] (NewEngine (hll_Algorithm (example_env 0) ref_roaring)),
        Some (ErrBadPayload (TruncatedId 2 3)))"
  using Dispatch_BATCH_ADD_truncated [of "[5]" 3 "''a''"] by simp

text \<open>A \<^verbatim>\<open>MERGE_SKETCH\<close> payload (the length of the algorithm name, the name, the sketch bytes)
  reaches \<^verbatim>\<open>MergeBytes\<close> with exactly that name and these bytes.\<close>

lemma Dispatch_MERGE_SKETCH_roundtrip:
  assumes "length name + length b < 2 ^ 64"
  shows "Dispatch DefaultRegistry (Some \<lparr>cmd_Type = ''MERGE_SKETCH'', cmd_Group = g,
       cmd_Payload = merge_payload name b\<rparr>) (Some engine_adder) e = MergeBytes e g name b"
proof -
  obtain k where "Uvarint (AppendUvarint [] (word_of_nat (length name)) @ bytes_of_string name @ b)
      = (word_of_nat (length name), int k)" "0 < k"
    "drop k (AppendUvarint [] (word_of_nat (length name)) @ bytes_of_string name @ b) = bytes_of_string name @ b"
    by (rule Uvarint_AppendUvarint_pos)
  moreover have "\<not> (word_of_nat (length name + length b) :: u64) < word_of_nat (length name)"
    using assms by (simp only: word_less_nat_alt unat_of_nat len_of_numeral_defs) simp
  ultimately show ?thesis
    using assms by (simp add: Dispatch_default command_types applyMergeSketch_def merge_payload_def Let_def
        unat_of_nat del: of_nat_add)
qed

lemma Dispatch_MERGE_SKETCH_roundtrip_example:
  "Dispatch DefaultRegistry (Some \<lparr>cmd_Type = ''MERGE_SKETCH'', cmd_Group = ''a'', cmd_Payload = merge_payload ''hll'' [1, 2]\<rparr>)
       (Some engine_adder) (NewEngine (hll_Algorithm (example_env 0) ref_roaring))
    = MergeBytes (NewEngine (hll_Algorithm (example_env 0) ref_roaring)) ''a'' ''hll'' [1, 2]"
  by (rule Dispatch_MERGE_SKETCH_roundtrip) simp

text \<open>An \<^verbatim>\<open>ADD\<close> payload has at most ten bytes, and the largest ids need all ten.\<close>

lemma add_payload_ten_bytes: "length (AppendUvarint [] (2 ^ 63)) = 10"
  by (simp add: AppendUvarint.simps word_le_nat_alt)

end
