(* ===== verification/Proto_Wire.thy ===== *)
theory Proto_Wire
  imports Go_Binary
begin

text \<open>
  The protocol-buffer wire format, as far as the messages of \<^verbatim>\<open>api/proto/cardinality/v1\<close> use it: varint and
  length-delimited fields, zero values left out, repeated integers packed, strings in UTF-8. The
  library that implements it is outside the repository; this is the reference codec on which the
  assumptions about it are shown to hold together.
\<close>

section \<open>Fields\<close>

definition read_varint :: "bytes \<Rightarrow> (u64 \<times> bytes) option" where
  "read_varint b = (let (x, k) = Uvarint b in if 0 < k then Some (x, drop (nat k) b) else None)"

lemma read_varint_append [wire_simps]: "read_varint (AppendUvarint [] x @ rest) = Some (x, rest)"
  by (simp add: read_varint_def wire_simps)

lemma read_varint_shorter: "read_varint b = Some (x, rest) \<Longrightarrow> length rest < length b"
  using Uvarint_read [of b] by (fastforce simp: read_varint_def split: prod.splits if_splits)

datatype wire_value = Varint u64 | Len bytes

function dec_fields :: "bytes \<Rightarrow> (u64 \<times> wire_value) list option" where
  "dec_fields b =
     (if b = [] then Some []
      else case read_varint b of
        None \<Rightarrow> None
      | Some (tag, b1) \<Rightarrow>
          (case read_varint b1 of
             None \<Rightarrow> None
           | Some (v, b2) \<Rightarrow>
               if tag AND 7 = 0 then map_option (Cons (drop_bit 3 tag, Varint v)) (dec_fields b2)
               else if tag AND 7 = 2 \<and> unat v \<le> length b2
                 then map_option (Cons (drop_bit 3 tag, Len (take (unat v) b2))) (dec_fields (drop (unat v) b2))
               else None))"
  by auto
termination dec_fields
  by (relation "measure length") (auto dest!: read_varint_shorter)

declare dec_fields.simps [simp del]

fun enc_field :: "u64 \<times> wire_value \<Rightarrow> bytes" where
  "enc_field (f, Varint x) = AppendUvarint [] (push_bit 3 f) @ AppendUvarint [] x"
| "enc_field (f, Len b) = AppendUvarint [] (push_bit 3 f OR 2) @ AppendUvarint [] (word_of_nat (length b)) @ b"

definition enc_fields :: "(u64 \<times> wire_value) list \<Rightarrow> bytes" where
  "enc_fields fs = concat (map enc_field fs)"

fun field_ok :: "u64 \<times> wire_value \<Rightarrow> bool" where
  "field_ok (f, Varint x) = (f < 2 ^ 61)"
| "field_ok (f, Len b) = (f < 2 ^ 61 \<and> length b < 2 ^ 64)"

lemma field_number_bits:
  assumes "f < 2 ^ 61" and "bit (f :: u64) n" shows "n < 61"
proof (rule ccontr)
  assume n: "\<not> n < 61"
  have "unat f < 2 ^ 61" using assms(1) by (simp add: word_less_nat_alt)
  then have "take_bit 61 (unat f) = unat f" by (simp add: take_bit_nat_eq_self)
  then have "\<not> bit (unat f) n" using n by (metis bit_take_bit_iff)
  then show False using assms(2) by (simp add: bit_unsigned_iff)
qed

lemma tag_bits:
  assumes "f < (2 ^ 61 :: u64)"
  shows "push_bit 3 f AND 7 = 0" and "drop_bit 3 (push_bit 3 f) = f"
    and "(push_bit 3 f OR 2) AND 7 = 2" and "drop_bit 3 (push_bit 3 f OR 2) = f"
proof -
  have m: "(7 :: u64) = mask 3" "drop_bit 3 (2 :: u64) = 0" "take_bit 3 (2 :: u64) = 2"
    by (simp_all add: mask_eq_exp_minus_1)
  have t: "take_bit 3 (push_bit 3 f) = 0" by (rule bit_eqI) (simp add: bit_take_bit_iff bit_push_bit_iff)
  show "push_bit 3 f AND 7 = 0" using t by (simp add: m(1) flip: take_bit_eq_mask)
  show d: "drop_bit 3 (push_bit 3 f) = f"
    by (rule bit_eqI) (auto simp: bit_drop_bit_eq bit_push_bit_iff dest: field_number_bits [OF assms])
  show "(push_bit 3 f OR 2) AND 7 = 2" using t m(3) by (simp add: m(1) take_bit_or flip: take_bit_eq_mask)
  show "drop_bit 3 (push_bit 3 f OR 2) = f" by (simp only: drop_bit_or d m(2) or.right_neutral)
qed

lemma dec_enc_fields: "list_all field_ok fs \<Longrightarrow> dec_fields (enc_fields fs) = Some fs"
proof (induction fs)
  case Nil
  then show ?case by (simp add: enc_fields_def dec_fields.simps)
next
  case (Cons p fs)
  then have IH: "dec_fields (concat (map enc_field fs)) = Some fs" by (simp add: enc_fields_def)
  show ?case
  proof (cases p)
    case (Pair f v)
    then have "f < 2 ^ 61" using Cons.prems by (cases v) simp_all
    with Pair Cons.prems IH show ?thesis
      by (cases v) (simp_all add: enc_fields_def dec_fields.simps [of "_ @ _"] wire_simps tag_bits unat_of_nat)
  qed
qed

section \<open>Packed integers and strings\<close>

function dec_packed :: "bytes \<Rightarrow> u64 list option" where
  "dec_packed b =
     (if b = [] then Some []
      else case read_varint b of None \<Rightarrow> None | Some (x, b1) \<Rightarrow> map_option (Cons x) (dec_packed b1))"
  by auto
termination dec_packed
  by (relation "measure length") (auto dest!: read_varint_shorter)

declare dec_packed.simps [simp del]

lemma dec_packed_Nil [simp]: "dec_packed [] = Some []"
  by (simp add: dec_packed.simps)

lemma dec_packed_enc [wire_simps]: "dec_packed (concat (map (AppendUvarint []) xs)) = Some xs"
proof (induction xs)
  case (Cons x xs)
  then show ?case by (simp add: dec_packed.simps [of "_ @ _"] wire_simps)
qed simp

definition continuation :: "byte \<Rightarrow> bool" where
  "continuation b \<longleftrightarrow> 0x80 \<le> b \<and> b \<le> 0xBF"

text \<open>The number of continuation bytes after a leading byte and the range of the first of them.\<close>

definition utf8_lead :: "byte \<Rightarrow> (nat \<times> byte \<times> byte) option" where
  "utf8_lead b =
     (if b < 0x80 then Some (0, 0, 0)
      else if 0xC2 \<le> b \<and> b \<le> 0xDF then Some (1, 0x80, 0xBF)
      else if b = 0xE0 then Some (2, 0xA0, 0xBF)
      else if b = 0xED then Some (2, 0x80, 0x9F)
      else if 0xE1 \<le> b \<and> b \<le> 0xEF then Some (2, 0x80, 0xBF)
      else if b = 0xF0 then Some (3, 0x90, 0xBF)
      else if 0xF1 \<le> b \<and> b \<le> 0xF3 then Some (3, 0x80, 0xBF)
      else if b = 0xF4 then Some (3, 0x80, 0x8F)
      else None)"

function utf8_ok :: "bytes \<Rightarrow> bool" where
  "utf8_ok [] = True"
| "utf8_ok (b # bs) =
     (case utf8_lead b of
        None \<Rightarrow> False
      | Some (n, lo, hi) \<Rightarrow>
          n \<le> length bs \<and> (n = 0 \<or> lo \<le> hd bs \<and> hd bs \<le> hi) \<and> list_all continuation (take n bs) \<and> utf8_ok (drop n bs))"
  by pat_completeness auto
termination utf8_ok
  by (relation "measure length") auto

section \<open>Messages\<close>

text \<open>Fields as a message has them: a zero value is not written.\<close>

definition bytes_field :: "u64 \<Rightarrow> bytes \<Rightarrow> (u64 \<times> wire_value) list" where
  "bytes_field f b = (if b = [] then [] else [(f, Len b)])"

definition uint_field :: "u64 \<Rightarrow> u64 \<Rightarrow> (u64 \<times> wire_value) list" where
  "uint_field f x = (if x = 0 then [] else [(f, Varint x)])"

text \<open>Reading a field: the last occurrence wins, a field that is absent or has another wire type is
  zero.\<close>

fun get_bytes :: "u64 \<Rightarrow> (u64 \<times> wire_value) list \<Rightarrow> bytes \<Rightarrow> bytes" where
  "get_bytes f [] d = d"
| "get_bytes f ((n, v) # fs) d = get_bytes f fs (case v of Len b \<Rightarrow> if n = f then b else d | Varint _ \<Rightarrow> d)"

fun get_uint :: "u64 \<Rightarrow> (u64 \<times> wire_value) list \<Rightarrow> u64 \<Rightarrow> u64" where
  "get_uint f [] d = d"
| "get_uint f ((n, v) # fs) d = get_uint f fs (case v of Varint x \<Rightarrow> if n = f then x else d | Len _ \<Rightarrow> d)"

lemma get_append [simp]:
  "get_bytes f (fs @ gs) d = get_bytes f gs (get_bytes f fs d)" "get_uint f (fs @ gs) e = get_uint f gs (get_uint f fs e)"
  by (induction fs arbitrary: d e) auto

lemma get_field [simp]:
  "get_bytes f (bytes_field n b) d = (if n = f \<and> b \<noteq> [] then b else d)" "get_bytes f (uint_field n x) d = d"
  "get_uint f (uint_field n x) e = (if n = f \<and> x \<noteq> 0 then x else e)" "get_uint f (bytes_field n b) e = e"
  by (simp_all add: bytes_field_def uint_field_def)

lemma fields_ok [simp]:
  "list_all field_ok (bytes_field f b) \<longleftrightarrow> b = [] \<or> f < 2 ^ 61 \<and> length b < 2 ^ 64"
  "list_all field_ok (uint_field f x) \<longleftrightarrow> x = 0 \<or> f < 2 ^ 61"
  by (auto simp: bytes_field_def uint_field_def)

text \<open>A message is written when its strings are valid and it is not too large, and read when its
  strings are valid and its fields make sense.\<close>

definition marshal :: "bytes list \<Rightarrow> (u64 \<times> wire_value) list \<Rightarrow> go_error + bytes" where
  "marshal strs fs =
     (if list_all utf8_ok strs \<and> list_all field_ok fs then Inr (enc_fields fs)
      else Inl (ErrExternal ''string field contains invalid UTF-8''))"

definition unmarshal :: "((u64 \<times> wire_value) list \<Rightarrow> bytes list) \<Rightarrow> ((u64 \<times> wire_value) list \<Rightarrow> 'm option) \<Rightarrow> bytes \<Rightarrow>
     go_error + 'm" where
  "unmarshal strs msg b =
     (case dec_fields b of
        None \<Rightarrow> Inl (ErrExternal ''cannot parse invalid wire-format data'')
      | Some fs \<Rightarrow>
          if \<not> list_all utf8_ok (strs fs) then Inl (ErrExternal ''string field contains invalid UTF-8'')
          else case msg fs of
            None \<Rightarrow> Inl (ErrExternal ''cannot parse invalid wire-format data'')
          | Some m \<Rightarrow> Inr m)"

lemma unmarshal_marshal:
  assumes "marshal ss fs = Inr b" and "strs fs = ss" and "msg fs = Some m"
  shows "unmarshal strs msg b = Inr m"
  using assms by (auto simp: marshal_def unmarshal_def dec_enc_fields split: if_splits)

end
