(* ===== verification/Raft_Node.thy ===== *)
theory Raft_Node
  imports Handler Badger_Store Proto_Wire
begin

text \<open>
  Package \<^verbatim>\<open>internal/raft\<close>: the node that feeds committed log entries to the engine, persists the
  groups they touch and takes snapshots. The etcd Raft library, its in-memory log storage and the
  protocol-buffer codec are outside the repository: they are the fields of \<open>etcd_raft\<close> and of
  \<open>node_env\<close>. Log output is not modelled. The event loop with its channels and goroutines is a
  step relation on a node together with its channels.
\<close>

section \<open>The Raft library\<close>

datatype EntryType = EntryNormal | EntryConfChange | EntryConfChangeV2

record Entry =
  ent_Type :: EntryType
  ent_Index :: u64
  ent_Data :: bytes

record Ready =
  rd_Entries :: "Entry list"
  rd_CommittedEntries :: "Entry list"

record Snapshot =
  snap_Data :: bytes
  snap_Index :: u64
  snap_Term :: u64

record Config =
  cfg_ID :: u64
  cfg_ElectionTick :: nat
  cfg_HeartbeatTick :: nat
  cfg_MaxSizePerMsg :: nat
  cfg_MaxInflightMsgs :: nat

text \<open>\<open>'n\<close> is the state of the Raft instance, \<open>'m\<close> that of its \<^verbatim>\<open>MemoryStorage\<close>. \<open>er_Ready n rd\<close>
  says that the instance can hand out the batch \<open>rd\<close>, \<open>er_evolve\<close> is progress of its own
  goroutine.\<close>

record ('n, 'm) etcd_raft =
  er_NewMemoryStorage :: 'm
  er_StartNode :: "Config \<Rightarrow> u64 list \<Rightarrow> 'n"
  er_Tick :: "'n \<Rightarrow> 'n"
  er_Propose :: "'n \<Rightarrow> bytes \<Rightarrow> 'n \<times> err"
  er_Ready :: "'n \<Rightarrow> Ready \<Rightarrow> bool"
  er_Advance :: "'n \<Rightarrow> 'n"
  er_Stop :: "'n \<Rightarrow> 'n"
  er_evolve :: "'n \<Rightarrow> 'n \<Rightarrow> bool"
  er_Status :: "'n \<Rightarrow> u64 \<times> u64"
  er_Append :: "'m \<Rightarrow> Entry list \<Rightarrow> 'm \<times> err"
  er_ApplySnapshot :: "'m \<Rightarrow> Snapshot \<Rightarrow> 'm \<times> err"
  er_Compact :: "'m \<Rightarrow> u64 \<Rightarrow> 'm \<times> err"

definition etcd_ErrCompacted :: go_error where
  "etcd_ErrCompacted = ErrExternal ''requested index is unavailable due to compaction''"

section \<open>The node\<close>

definition snapshotThreshold :: u64 where
  "snapshotThreshold = 10000"

record Peer =
  peer_ID :: u64
  peer_Addr :: string

record ('s, 'db, 'n, 'm) Node =
  nd_id :: u64
  nd_node :: 'n
  nd_storage :: 'm
  nd_engine :: "'s engine"
  nd_store :: "'db BadgerStore"
  nd_registry :: "'s engine Registry"
  nd_appliedIdx :: u64
  nd_snapCount :: u64

record ('db, 'n, 'm) node_env =
  ne_raft :: "('n, 'm) etcd_raft"
  ne_badger :: "'db badger"
  ne_Marshal :: "Command \<Rightarrow> go_error + bytes"
  ne_Unmarshal :: "bytes \<Rightarrow> go_error + Command"
  ne_order :: "string set \<Rightarrow> string list"

definition NewNode ::
    "('db, 'n, 'm) node_env \<Rightarrow> u64 \<Rightarrow> Peer list \<Rightarrow> 's engine \<Rightarrow> 'db BadgerStore \<Rightarrow> ('s, 'db, 'n, 'm) Node" where
  "NewNode env i peers eng st =
     (let cfg = \<lparr>cfg_ID = i, cfg_ElectionTick = 10, cfg_HeartbeatTick = 1, cfg_MaxSizePerMsg = 4096,
                 cfg_MaxInflightMsgs = 256\<rparr>;
          rpeers = map peer_ID peers
      in \<lparr>nd_id = i, nd_node = er_StartNode (ne_raft env) cfg rpeers,
          nd_storage = er_NewMemoryStorage (ne_raft env), nd_engine = eng, nd_store = st,
          nd_registry = DefaultRegistry, nd_appliedIdx = 0, nd_snapCount = 0\<rparr>)"

text \<open>One committed entry. Every failure is logged and skipped; only an entry that was dispatched
  without error is persisted and counted, and a failing save is logged but still counted.\<close>

definition applyEntry ::
    "('db, 'n, 'm) node_env \<Rightarrow> ('s, 'db, 'n, 'm) Node \<Rightarrow> Entry \<Rightarrow> ('s, 'db, 'n, 'm) Node outcome" where
  "applyEntry env n e =
     (if ent_Type e \<noteq> EntryNormal \<or> ent_Data e = [] then Return n
      else case ne_Unmarshal env (ent_Data e) of
        Inl _ \<Rightarrow> Return n
      | Inr cmd \<Rightarrow>
          (case Dispatch (nd_registry n) (Some cmd) (Some engine_adder) (nd_engine n) of
             Panic msg \<Rightarrow> Panic msg
           | Return (eng, er) \<Rightarrow>
               (case er of
                  Some _ \<Rightarrow> Return (n\<lparr>nd_engine := eng\<rparr>)
                | None \<Rightarrow>
                    let (st, _) = Persist eng (cmd_Group cmd) (Save (ne_badger env) (cmd_Group cmd)) (nd_store n)
                    in Return (n\<lparr>nd_engine := eng, nd_store := st, nd_appliedIdx := ent_Index e,
                                 nd_snapCount := nd_snapCount n + 1\<rparr>))))"

fun applyEntries ::
    "('db, 'n, 'm) node_env \<Rightarrow> ('s, 'db, 'n, 'm) Node \<Rightarrow> Entry list \<Rightarrow> ('s, 'db, 'n, 'm) Node outcome" where
  "applyEntries env n [] = Return n"
| "applyEntries env n (e # es) =
     (case applyEntry env n e of Panic msg \<Rightarrow> Panic msg | Return n' \<Rightarrow> applyEntries env n' es)"

definition maybeSnapshot ::
    "('db, 'n, 'm) node_env \<Rightarrow> ('s, 'db, 'n, 'm) Node \<Rightarrow> ('s, 'db, 'n, 'm) Node" where
  "maybeSnapshot env n =
     (let count = nd_snapCount n; idx = nd_appliedIdx n
      in if count < snapshotThreshold then n
         else (case Marshal gob_encode (ne_order env) (nd_engine n) of
             Inl _ \<Rightarrow> n
           | Inr data \<Rightarrow>
               let (storage, er) = er_ApplySnapshot (ne_raft env) (nd_storage n)
                     \<lparr>snap_Data = data, snap_Index = idx, snap_Term = 1\<rparr>
               in (case er of
                     Some _ \<Rightarrow> n\<lparr>nd_storage := storage\<rparr>
                   | None \<Rightarrow>
                       let (storage, _) = er_Compact (ne_raft env) storage idx
                       in n\<lparr>nd_storage := storage, nd_snapCount := 0\<rparr>)))"

text \<open>The body of the \<^verbatim>\<open>Ready\<close> case of \<^verbatim>\<open>Run\<close>.\<close>

definition handleReady ::
    "('db, 'n, 'm) node_env \<Rightarrow> ('s, 'db, 'n, 'm) Node \<Rightarrow> Ready \<Rightarrow> ('s, 'db, 'n, 'm) Node outcome" where
  "handleReady env n rd =
     (let (storage, _) = er_Append (ne_raft env) (nd_storage n) (rd_Entries rd)
      in (case applyEntries env (n\<lparr>nd_storage := storage\<rparr>) (rd_CommittedEntries rd) of
            Panic msg \<Rightarrow> Panic msg
          | Return n' \<Rightarrow> Return (maybeSnapshot env (n'\<lparr>nd_node := er_Advance (ne_raft env) (nd_node n')\<rparr>))))"

definition Node_Status :: "('db, 'n, 'm) node_env \<Rightarrow> ('s, 'db, 'n, 'm) Node \<Rightarrow> u64 \<times> bool \<times> u64" where
  "Node_Status env n =
     (let (trm, lead) = er_Status (ne_raft env) (nd_node n)
      in (trm, lead \<noteq> 0 \<and> lead = nd_id n, nd_appliedIdx n))"

text \<open>The command \<^verbatim>\<open>ProposeAdd\<close> submits.\<close>

definition add_command :: "string \<Rightarrow> u64 \<Rightarrow> Command" where
  "add_command g x = \<lparr>cmd_Type = TypeAdd, cmd_Group = g, cmd_Payload = AppendUvarint [] x\<rparr>"

section \<open>The event loop and its channels\<close>

text \<open>A node with its channels: the buffered proposal channel (a reply number and the data of each
  waiting proposal), the goroutines that are about to call \<^verbatim>\<open>Propose\<close>, the reply channels, and
  whether \<^verbatim>\<open>stopC\<close> and \<^verbatim>\<open>doneC\<close> are closed.\<close>

record ('s, 'db, 'n, 'm) node_sys =
  sys_node :: "('s, 'db, 'n, 'm) Node"
  sys_proposeC :: "(nat \<times> bytes) list"
  sys_inflight :: "(nat \<times> bytes) list"
  sys_results :: "nat \<rightharpoonup> err"
  sys_next :: nat
  sys_stopC :: bool
  sys_doneC :: bool

definition proposeC_cap :: nat where
  "proposeC_cap = 128"

datatype node_event = EvProposeAdd string u64 | EvInternal

text \<open>\<^verbatim>\<open>ProposeAdd\<close> has two halves, each ending in a \<^verbatim>\<open>select\<close> with the caller's context: \<open>ctx\<close> is its
  error once it is done. The result lists the branches that are ready, in source order; when
  there is none the caller blocks. The first half marshals the command and hands it to the event
  loop, which needs room in the channel; the second waits for the reply.\<close>

definition ProposeAdd_send ::
    "('db, 'n, 'm) node_env \<Rightarrow> err \<Rightarrow> ('s, 'db, 'n, 'm) node_sys \<Rightarrow> string \<Rightarrow> u64 \<Rightarrow>
     (go_error + ('s, 'db, 'n, 'm) node_sys \<times> nat) list" where
  "ProposeAdd_send env ctx s g x =
     (case ne_Marshal env (add_command g x) of
        Inl e \<Rightarrow> [Inl e]
      | Inr data \<Rightarrow>
          (if length (sys_proposeC s) < proposeC_cap
           then [Inr (s\<lparr>sys_proposeC := sys_proposeC s @ [(sys_next s, data)], sys_next := Suc (sys_next s)\<rparr>,
                      sys_next s)]
           else [])
          @ (case ctx of None \<Rightarrow> [] | Some e \<Rightarrow> [Inl e]))"

definition ProposeAdd_wait :: "err \<Rightarrow> ('s, 'db, 'n, 'm) node_sys \<Rightarrow> nat \<Rightarrow> err list" where
  "ProposeAdd_wait ctx s k =
     (case sys_results s k of None \<Rightarrow> [] | Some er \<Rightarrow> [er]) @ (case ctx of None \<Rightarrow> [] | Some e \<Rightarrow> [Some e])"

text \<open>\<^verbatim>\<open>Stop\<close> closes a channel, which panics when it is closed already, and then waits for the other.\<close>

definition Stop_close :: "('s, 'db, 'n, 'm) node_sys \<Rightarrow> ('s, 'db, 'n, 'm) node_sys outcome" where
  "Stop_close s = (if sys_stopC s then Panic ''close of closed channel'' else Return (s\<lparr>sys_stopC := True\<rparr>))"

definition Stop_returns :: "('s, 'db, 'n, 'm) node_sys \<Rightarrow> bool" where
  "Stop_returns s = sys_doneC s"

lemma Stop_close_Return [simp]: "Stop_close s = Return s' \<longleftrightarrow> \<not> sys_stopC s \<and> s' = s\<lparr>sys_stopC := True\<rparr>"
  by (auto simp: Stop_close_def)

inductive node_step ::
    "('db, 'n, 'm) node_env \<Rightarrow> ('s, 'db, 'n, 'm) node_sys \<Rightarrow> node_event \<Rightarrow> ('s, 'db, 'n, 'm) node_sys \<Rightarrow> bool"
  for env where
  stop_close: "Stop_close s = Return s' \<Longrightarrow> node_step env s EvInternal s'"
| run_stop: "\<not> sys_doneC s \<Longrightarrow> sys_stopC s \<Longrightarrow>
    node_step env s EvInternal
      (s\<lparr>sys_node := (sys_node s)\<lparr>nd_node := er_Stop (ne_raft env) (nd_node (sys_node s))\<rparr>, sys_doneC := True\<rparr>)"
| run_tick: "\<not> sys_doneC s \<Longrightarrow>
    node_step env s EvInternal
      (s\<lparr>sys_node := (sys_node s)\<lparr>nd_node := er_Tick (ne_raft env) (nd_node (sys_node s))\<rparr>\<rparr>)"
| run_take: "\<not> sys_doneC s \<Longrightarrow> sys_proposeC s = p # ps \<Longrightarrow>
    node_step env s EvInternal (s\<lparr>sys_proposeC := ps, sys_inflight := sys_inflight s @ [p]\<rparr>)"
| run_ready: "\<not> sys_doneC s \<Longrightarrow> er_Ready (ne_raft env) (nd_node (sys_node s)) rd \<Longrightarrow>
    handleReady env (sys_node s) rd = Return n' \<Longrightarrow>
    node_step env s EvInternal (s\<lparr>sys_node := n'\<rparr>)"
| go_propose: "sys_inflight s = ps @ (k, data) # qs \<Longrightarrow>
    er_Propose (ne_raft env) (nd_node (sys_node s)) data = (rn, er) \<Longrightarrow>
    node_step env s EvInternal
      (s\<lparr>sys_node := (sys_node s)\<lparr>nd_node := rn\<rparr>, sys_inflight := ps @ qs, sys_results := (sys_results s)(k \<mapsto> er)\<rparr>)"
| raft_evolve: "er_evolve (ne_raft env) (nd_node (sys_node s)) rn \<Longrightarrow>
    node_step env s EvInternal (s\<lparr>sys_node := (sys_node s)\<lparr>nd_node := rn\<rparr>\<rparr>)"
| propose_send: "Inr (s', k) \<in> set (ProposeAdd_send env ctx s g x) \<Longrightarrow> node_step env s (EvProposeAdd g x) s'"

lemma stop_call: "\<not> sys_stopC s \<Longrightarrow> node_step env s EvInternal (s\<lparr>sys_stopC := True\<rparr>)"
  by (rule stop_close) simp

lemma ProposeAdd_send_Inr:
  assumes "Inr (s', k) \<in> set (ProposeAdd_send env ctx s g x)"
  obtains data where "ne_Marshal env (add_command g x) = Inr data"
    and "s' = s\<lparr>sys_proposeC := sys_proposeC s @ [(sys_next s, data)], sys_next := Suc (sys_next s)\<rparr>"
  using assms that by (auto simp: ProposeAdd_send_def split: sum.splits if_splits option.splits)

inductive node_run ::
    "('db, 'n, 'm) node_env \<Rightarrow> ('s, 'db, 'n, 'm) node_sys \<Rightarrow> node_event list \<Rightarrow> ('s, 'db, 'n, 'm) node_sys \<Rightarrow> bool"
  for env s0 where
  run_init: "node_run env s0 [] s0"
| run_step: "node_run env s0 evs s \<Longrightarrow> node_step env s ev s' \<Longrightarrow> node_run env s0 (evs @ [ev]) s'"

definition node_sys_init :: "('s, 'db, 'n, 'm) Node \<Rightarrow> ('s, 'db, 'n, 'm) node_sys" where
  "node_sys_init n = \<lparr>sys_node = n, sys_proposeC = [], sys_inflight = [], sys_results = Map.empty,
     sys_next = 0, sys_stopC = False, sys_doneC = False\<rparr>"

section \<open>Applying a log of additions\<close>

text \<open>\<open>add_log env es ops\<close>: the entries \<open>es\<close> are the additions \<open>ops\<close> in order, with configuration
  and empty entries in between.\<close>

definition noop_entry :: "Entry \<Rightarrow> bool" where
  "noop_entry e \<longleftrightarrow> ent_Type e \<noteq> EntryNormal \<or> ent_Data e = []"

inductive add_log :: "('db, 'n, 'm) node_env \<Rightarrow> Entry list \<Rightarrow> (string \<times> u64) list \<Rightarrow> bool" for env where
  add_log_Nil: "add_log env [] []"
| add_log_noop: "noop_entry e \<Longrightarrow> add_log env es ops \<Longrightarrow> add_log env (e # es) ops"
| add_log_add: "\<not> noop_entry e \<Longrightarrow> ne_Unmarshal env (ent_Data e) = Inr (add_command g x) \<Longrightarrow>
    add_log env es ops \<Longrightarrow> add_log env (e # es) ((g, x) # ops)"

lemma Dispatch_add_command:
  "Dispatch DefaultRegistry (Some (add_command g x)) (Some engine_adder) e = Return (Engine_Add e g x)"
  by (simp add: add_command_def Dispatch_default applyAdd_varint)

lemma applyEntry_noop: "noop_entry e \<Longrightarrow> applyEntry env n e = Return n"
  by (auto simp: noop_entry_def applyEntry_def)

lemma applyEntry_add:
  assumes "\<not> noop_entry e" and "ne_Unmarshal env (ent_Data e) = Inr (add_command g x)"
    and "nd_registry n = DefaultRegistry"
  shows "applyEntry env n e = Return (n\<lparr>nd_engine := fst (Engine_Add (nd_engine n) g x),
    nd_store := fst (Persist (fst (Engine_Add (nd_engine n) g x)) g (Save (ne_badger env) g) (nd_store n)),
    nd_appliedIdx := ent_Index e, nd_snapCount := nd_snapCount n + 1\<rparr>)"
proof -
  have g: "cmd_Group (add_command g x) = g" by (simp add: add_command_def)
  have "Engine_Add (nd_engine n) g x = (fst (Engine_Add (nd_engine n) g x), None)"
    by (simp add: Engine_Add_def Let_def)
  then show ?thesis
    using assms by (auto simp: applyEntry_def noop_entry_def Dispatch_add_command g split: prod.split)
qed

context badger_spec
begin

lemma applyEntries_add_log:
  assumes "add_log env es ops" and "ne_badger env = B" and "nd_registry n = DefaultRegistry"
  shows "\<exists>n'. applyEntries env n es = Return n' \<and> nd_engine n' = run_adds ops (nd_engine n)
    \<and> nd_registry n' = DefaultRegistry \<and> nd_node n' = nd_node n
    \<and> nd_snapCount n' = nd_snapCount n + word_of_nat (length ops)
    \<and> (mirrors (stored_groups contents (nd_store n)) (nd_engine n) \<longrightarrow> (\<forall>(g, x) \<in> set ops. saves_ok B g) \<longrightarrow>
        mirrors (stored_groups contents (nd_store n')) (nd_engine n'))"
  using assms
proof (induction arbitrary: n rule: add_log.induct)
  case (add_log_noop e es ops)
  then show ?case by (simp add: applyEntry_noop)
next
  case (add_log_add e g x es ops)
  define n1 where "n1 = n\<lparr>nd_engine := fst (Engine_Add (nd_engine n) g x),
    nd_store := fst (Persist (fst (Engine_Add (nd_engine n) g x)) g (Save (ne_badger env) g) (nd_store n)),
    nd_appliedIdx := ent_Index e, nd_snapCount := nd_snapCount n + 1\<rparr>"
  have e1: "applyEntry env n e = Return n1"
    unfolding n1_def by (rule applyEntry_add [OF add_log_add.hyps(1,2) add_log_add.prems(2)])
  have "nd_registry n1 = DefaultRegistry" using add_log_add.prems(2) by (simp add: n1_def)
  from add_log_add.IH [OF add_log_add.prems(1) this] obtain n' where n':
    "applyEntries env n1 es = Return n'" "nd_engine n' = run_adds ops (nd_engine n1)"
    "nd_registry n' = DefaultRegistry" "nd_node n' = nd_node n1"
    "nd_snapCount n' = nd_snapCount n1 + word_of_nat (length ops)"
    "mirrors (stored_groups contents (nd_store n1)) (nd_engine n1) \<longrightarrow> (\<forall>(g, x) \<in> set ops. saves_ok B g) \<longrightarrow>
      mirrors (stored_groups contents (nd_store n')) (nd_engine n')" by blast
  have "mirrors (stored_groups contents (nd_store n1)) (nd_engine n1)"
    if "mirrors (stored_groups contents (nd_store n)) (nd_engine n)" "saves_ok B g"
    using Add_mirrors [OF that] add_log_add.prems(1) by (simp add: n1_def)
  with e1 n' show ?case by (auto simp: n1_def algebra_simps)
qed simp

end

section \<open>What is relied on of Raft and the codec\<close>

text \<open>Only proposed data is ever committed: \<open>proposed\<close> is the data an instance has been given.\<close>

locale raft_spec =
  fixes L :: "('n, 'm) etcd_raft" and proposed :: "'n \<Rightarrow> bytes set"
  assumes proposed_start: "proposed (er_StartNode L cfg ps) = {}"
    and proposed_tick: "proposed (er_Tick L n) \<subseteq> proposed n"
    and proposed_advance: "proposed (er_Advance L n) \<subseteq> proposed n"
    and proposed_stop: "proposed (er_Stop L n) \<subseteq> proposed n"
    and proposed_evolve: "er_evolve L n n' \<Longrightarrow> proposed n' \<subseteq> proposed n"
    and proposed_propose: "proposed (fst (er_Propose L n d)) \<subseteq> insert d (proposed n)"
    and committed_proposed: "er_Ready L n rd \<Longrightarrow> e \<in> set (rd_CommittedEntries rd) \<Longrightarrow> \<not> noop_entry e \<Longrightarrow>
      ent_Data e \<in> proposed n"

definition proto_codec :: "('db, 'n, 'm) node_env \<Rightarrow> bool" where
  "proto_codec env \<longleftrightarrow> (\<forall>c b. ne_Marshal env c = Inr b \<longrightarrow> ne_Unmarshal env b = Inr c)"

section \<open>Runs of the event loop\<close>

definition requested :: "node_event list \<Rightarrow> (string \<times> u64) set" where
  "requested evs = {(g, x). EvProposeAdd g x \<in> set evs}"

definition add_data :: "('db, 'n, 'm) node_env \<Rightarrow> (string \<times> u64) set \<Rightarrow> bytes set" where
  "add_data env A = {b. \<exists>(g, x) \<in> A. ne_Marshal env (add_command g x) = Inr b}"

lemma requested_append [simp]:
  "requested (evs @ [EvInternal]) = requested evs"
  "requested (evs @ [EvProposeAdd g x]) = insert (g, x) (requested evs)"
  by (auto simp: requested_def)

lemma add_data_insert: "add_data env A \<subseteq> add_data env (insert p A)"
  by (auto simp: add_data_def)

lemma maybeSnapshot_same [simp]:
  "nd_engine (maybeSnapshot env n) = nd_engine n" "nd_store (maybeSnapshot env n) = nd_store n"
  "nd_registry (maybeSnapshot env n) = nd_registry n" "nd_node (maybeSnapshot env n) = nd_node n"
  "nd_id (maybeSnapshot env n) = nd_id n" "nd_appliedIdx (maybeSnapshot env n) = nd_appliedIdx n"
  by (simp_all add: maybeSnapshot_def Let_def split: sum.split prod.split option.split)

lemma add_log_of_data:
  assumes "proto_codec env" and "\<forall>e \<in> set es. \<not> noop_entry e \<longrightarrow> ent_Data e \<in> add_data env A"
  shows "\<exists>ops. set ops \<subseteq> A \<and> add_log env es ops"
  using assms(2)
proof (induction es)
  case Nil
  then show ?case by (intro exI [of _ "[]"]) (simp add: add_log_Nil)
next
  case (Cons e es)
  then obtain ops where ops: "set ops \<subseteq> A" "add_log env es ops" by auto
  show ?case
  proof (cases "noop_entry e")
    case True
    with ops show ?thesis by (blast intro: add_log_noop)
  next
    case False
    with Cons.prems obtain g x where gx: "(g, x) \<in> A" "ne_Marshal env (add_command g x) = Inr (ent_Data e)"
      by (auto simp: add_data_def)
    then have "ne_Unmarshal env (ent_Data e) = Inr (add_command g x)"
      using assms(1) by (simp add: proto_codec_def)
    with False ops gx(1) show ?thesis
      by (intro exI [of _ "(g, x) # ops"]) (simp add: add_log_add)
  qed
qed

locale node_world = rs: raft_spec L proposed + db: badger_spec B contents
  for L :: "('n, 'm) etcd_raft" and proposed :: "'n \<Rightarrow> bytes set"
    and B :: "'db badger" and contents :: "'db \<Rightarrow> (bytes \<rightharpoonup> bytes)" +
  fixes env :: "('db, 'n, 'm) node_env"
  assumes env_raft: "ne_raft env = L" and env_badger: "ne_badger env = B" and codec: "proto_codec env"
begin

text \<open>What holds of a node after a run that requested the additions \<open>A\<close>, starting from \<open>e0\<close>.\<close>

definition node_inv :: "(string \<times> u64) set \<Rightarrow> 's engine \<Rightarrow> ('s, 'db, 'n, 'm) Node \<Rightarrow> bool" where
  "node_inv A e0 n \<longleftrightarrow> nd_registry n = DefaultRegistry \<and> proposed (nd_node n) \<subseteq> add_data env A
     \<and> (\<exists>ops. set ops \<subseteq> A \<and> nd_engine n = run_adds ops e0)
     \<and> ((\<forall>(g, x) \<in> A. saves_ok B g) \<longrightarrow> mirrors (stored_groups contents (nd_store n)) (nd_engine n))"

definition sys_inv :: "(string \<times> u64) set \<Rightarrow> 's engine \<Rightarrow> ('s, 'db, 'n, 'm) node_sys \<Rightarrow> bool" where
  "sys_inv A e0 s \<longleftrightarrow> node_inv A e0 (sys_node s)
     \<and> snd ` (set (sys_proposeC s) \<union> set (sys_inflight s)) \<subseteq> add_data env A"

lemma node_inv_mono: "node_inv A e0 n \<Longrightarrow> node_inv (insert p A) e0 n"
  using add_data_insert [of env A p] by (auto simp: node_inv_def)

lemma node_inv_raft:
  "node_inv A e0 n \<Longrightarrow> proposed rn \<subseteq> add_data env A \<Longrightarrow> node_inv A e0 (n\<lparr>nd_node := rn\<rparr>)"
  by (simp add: node_inv_def)

lemma handleReady_inv:
  assumes "node_inv A e0 n" and "er_Ready L (nd_node n) rd"
  shows "\<exists>n'. handleReady env n rd = Return n' \<and> node_inv A e0 n'"
proof -
  define n0 where "n0 = n\<lparr>nd_storage := fst (er_Append L (nd_storage n) (rd_Entries rd))\<rparr>"
  have "\<forall>e \<in> set (rd_CommittedEntries rd). \<not> noop_entry e \<longrightarrow> ent_Data e \<in> add_data env A"
    using rs.committed_proposed [OF assms(2)] assms(1) by (auto simp: node_inv_def)
  then obtain ops where ops: "set ops \<subseteq> A" "add_log env (rd_CommittedEntries rd) ops"
    using add_log_of_data [OF codec] by blast
  have "nd_registry n0 = DefaultRegistry" using assms(1) by (simp add: n0_def node_inv_def)
  from db.applyEntries_add_log [OF ops(2) env_badger this] obtain n1 where n1:
    "applyEntries env n0 (rd_CommittedEntries rd) = Return n1" "nd_engine n1 = run_adds ops (nd_engine n)"
    "nd_registry n1 = DefaultRegistry" "nd_node n1 = nd_node n"
    "mirrors (stored_groups contents (nd_store n)) (nd_engine n) \<longrightarrow> (\<forall>(g, x) \<in> set ops. saves_ok B g) \<longrightarrow>
      mirrors (stored_groups contents (nd_store n1)) (nd_engine n1)"
    by (auto simp: n0_def)
  from assms(1) obtain ops0 where "set ops0 \<subseteq> A" "nd_engine n = run_adds ops0 e0"
    by (auto simp: node_inv_def)
  then have "\<exists>ops. set ops \<subseteq> A \<and> nd_engine n1 = run_adds ops e0"
    using ops(1) n1(2) by (intro exI [of _ "ops0 @ ops"]) (auto simp: run_adds_def)
  moreover have "(\<forall>(g, x) \<in> A. saves_ok B g) \<longrightarrow> mirrors (stored_groups contents (nd_store n1)) (nd_engine n1)"
    using assms(1) n1(5) ops(1) unfolding node_inv_def by blast
  moreover have "proposed (er_Advance L (nd_node n)) \<subseteq> add_data env A"
    using assms(1) rs.proposed_advance [of "nd_node n"] by (auto simp: node_inv_def)
  ultimately have "node_inv A e0 (maybeSnapshot env (n1\<lparr>nd_node := er_Advance L (nd_node n1)\<rparr>))"
    using n1(3,4) by (simp add: node_inv_def)
  moreover have "handleReady env n rd = Return (maybeSnapshot env (n1\<lparr>nd_node := er_Advance L (nd_node n1)\<rparr>))"
    using n1(1) by (simp add: handleReady_def env_raft n0_def split_beta)
  ultimately show ?thesis by blast
qed

lemma node_step_inv:
  assumes "node_step env s ev s'" and "sys_inv A e0 s"
  shows "case ev of EvInternal \<Rightarrow> sys_inv A e0 s' | EvProposeAdd g x \<Rightarrow> sys_inv (insert (g, x) A) e0 s'"
  using assms
proof (induction rule: node_step.cases)
  case (run_stop s)
  then show ?case
    using rs.proposed_stop [of "nd_node (sys_node s)"] by (auto simp: sys_inv_def node_inv_def env_raft)
next
  case (run_tick s)
  then show ?case
    using rs.proposed_tick [of "nd_node (sys_node s)"] by (auto simp: sys_inv_def node_inv_def env_raft)
next
  case (run_ready s rd n')
  then show ?case
    using handleReady_inv [of A e0 "sys_node s" rd] by (auto simp: sys_inv_def env_raft)
next
  case (go_propose s ps k data qs rn er)
  then have "proposed rn \<subseteq> insert data (proposed (nd_node (sys_node s)))" "data \<in> add_data env A"
    using rs.proposed_propose [of "nd_node (sys_node s)" data] by (auto simp: env_raft sys_inv_def)
  with go_propose show ?case
    by (auto simp: sys_inv_def node_inv_def)
next
  case (raft_evolve s rn)
  then show ?case
    using rs.proposed_evolve [of "nd_node (sys_node s)" rn] by (auto simp: sys_inv_def node_inv_def env_raft)
next
  case (propose_send s' k ctx s g x)
  then obtain data where "ne_Marshal env (add_command g x) = Inr data"
    "s' = s\<lparr>sys_proposeC := sys_proposeC s @ [(sys_next s, data)], sys_next := Suc (sys_next s)\<rparr>"
    by (blast elim: ProposeAdd_send_Inr)
  with propose_send show ?case
    using add_data_insert [of env A "(g, x)"] node_inv_mono [of A e0 "sys_node s"]
    by (auto simp: sys_inv_def add_data_def)
qed (auto simp: sys_inv_def)

lemma node_run_inv:
  assumes "node_run env s0 evs s" and "sys_inv {} e0 s0"
  shows "sys_inv (requested evs) e0 s"
  using assms(1)
proof (induction rule: node_run.induct)
  case run_init
  then show ?case using assms(2) by (simp add: requested_def)
next
  case (run_step evs s ev s')
  then show ?case using node_step_inv [of s ev s' "requested evs" e0] by (cases ev) simp_all
qed

lemma sys_inv_init:
  assumes "mirrors (stored_groups contents st) e0"
  shows "sys_inv {} e0 (node_sys_init (NewNode env i peers e0 st))"
proof -
  have "set [] \<subseteq> {} \<and> e0 = run_adds [] e0" by simp
  then show ?thesis
    using assms rs.proposed_start
    by (auto simp: sys_inv_def node_inv_def node_sys_init_def NewNode_def Let_def env_raft)
qed

text \<open>The event loop never gets stuck on a batch of committed entries.\<close>

lemma ready_enabled:
  assumes "sys_inv A e0 s" and "\<not> sys_doneC s" and "er_Ready L (nd_node (sys_node s)) rd"
  shows "\<exists>n'. handleReady env (sys_node s) rd = Return n' \<and> node_step env s EvInternal (s\<lparr>sys_node := n'\<rparr>)"
proof -
  obtain n' where n': "handleReady env (sys_node s) rd = Return n'"
    using handleReady_inv [of A e0 "sys_node s" rd] assms(1,3) by (auto simp: sys_inv_def)
  moreover have "node_step env s EvInternal (s\<lparr>sys_node := n'\<rparr>)"
    using assms(2,3) n' by (intro node_step.run_ready) (simp_all add: env_raft)
  ultimately show ?thesis by blast
qed

end

section \<open>A reference Raft library and codec\<close>

text \<open>A single-node instance that commits what was proposed at the next \<^verbatim>\<open>Ready\<close>, and the
  protocol-buffer encoding of a command.\<close>

definition ref_raft :: "(bytes list, unit) etcd_raft" where
  "ref_raft = \<lparr>er_NewMemoryStorage = (), er_StartNode = (\<lambda>_ _. []), er_Tick = (\<lambda>n. n),
     er_Propose = (\<lambda>n d. (n @ [d], None)),
     er_Ready = (\<lambda>n rd. rd = \<lparr>rd_Entries = [],
        rd_CommittedEntries = map (\<lambda>d. \<lparr>ent_Type = EntryNormal, ent_Index = 1, ent_Data = d\<rparr>) n\<rparr>),
     er_Advance = (\<lambda>_. []), er_Stop = (\<lambda>n. n), er_evolve = (=), er_Status = (\<lambda>_. (1, 1)),
     er_Append = (\<lambda>m _. (m, None)), er_ApplySnapshot = (\<lambda>m _. (m, None)), er_Compact = (\<lambda>m _. (m, None))\<rparr>"

text \<open>The fields of a command by their numbers.\<close>

definition Command_fields :: "Command \<Rightarrow> (u64 \<times> wire_value) list" where
  "Command_fields c = bytes_field 1 (bytes_of_string (cmd_Type c)) @ bytes_field 2 (bytes_of_string (cmd_Group c))
     @ bytes_field 3 (cmd_Payload c)"

definition Command_of :: "(u64 \<times> wire_value) list \<Rightarrow> Command" where
  "Command_of fs = \<lparr>cmd_Type = string_of_bytes (get_bytes 1 fs []), cmd_Group = string_of_bytes (get_bytes 2 fs []),
     cmd_Payload = get_bytes 3 fs []\<rparr>"

definition ref_pb_Marshal :: "Command \<Rightarrow> go_error + bytes" where
  "ref_pb_Marshal c = marshal [bytes_of_string (cmd_Type c), bytes_of_string (cmd_Group c)] (Command_fields c)"

definition ref_pb_Unmarshal :: "bytes \<Rightarrow> go_error + Command" where
  "ref_pb_Unmarshal = unmarshal (\<lambda>fs. [get_bytes 1 fs [], get_bytes 2 fs []]) (\<lambda>fs. Some (Command_of fs))"

lemma ref_pb_roundtrip: "ref_pb_Marshal c = Inr b \<Longrightarrow> ref_pb_Unmarshal b = Inr c"
  unfolding ref_pb_Marshal_def ref_pb_Unmarshal_def
  by (erule unmarshal_marshal, cases c) (auto simp: Command_fields_def Command_of_def)

definition ref_env :: "((bytes \<times> bytes) list, bytes list, unit) node_env" where
  "ref_env = \<lparr>ne_raft = ref_raft, ne_badger = ref_badger, ne_Marshal = ref_pb_Marshal,
     ne_Unmarshal = ref_pb_Unmarshal, ne_order = sorted_list_of_set\<rparr>"

interpretation ref_world: node_world ref_raft set ref_badger map_of ref_env
proof
  show "proto_codec ref_env"
    by (simp add: proto_codec_def ref_env_def ref_pb_roundtrip)
qed (auto simp: ref_raft_def ref_env_def)

section \<open>Replies\<close>

text \<open>A reply number is waiting, in flight or answered, never two of these, and never reused.\<close>

definition reply_inv :: "('s, 'db, 'n, 'm) node_sys \<Rightarrow> bool" where
  "reply_inv s \<longleftrightarrow> distinct (map fst (sys_proposeC s @ sys_inflight s))
     \<and> fst ` set (sys_proposeC s @ sys_inflight s) \<inter> dom (sys_results s) = {}
     \<and> (\<forall>k \<in> fst ` set (sys_proposeC s @ sys_inflight s) \<union> dom (sys_results s). k < sys_next s)"

lemma reply_inv_step: "node_step env s ev s' \<Longrightarrow> reply_inv s \<Longrightarrow> reply_inv s'"
proof (induction rule: node_step.cases)
  case (run_take s p ps)
  then show ?case by (auto simp: reply_inv_def)
next
  case (go_propose s ps k data qs rn er)
  then show ?case by (auto simp: reply_inv_def)
next
  case (propose_send s' k ctx s g x)
  then obtain data where s': "s' = s\<lparr>sys_proposeC := sys_proposeC s @ [(sys_next s, data)], sys_next := Suc (sys_next s)\<rparr>"
    by (blast elim: ProposeAdd_send_Inr)
  let ?I = "fst ` set (sys_proposeC s @ sys_inflight s) \<union> dom (sys_results s)"
  have less: "\<forall>k \<in> ?I. k < sys_next s" using propose_send unfolding reply_inv_def by blast
  then have "sys_next s \<notin> ?I" by blast
  moreover have "\<forall>k \<in> ?I. k < Suc (sys_next s)" using less by (simp add: less_Suc_eq)
  ultimately show ?case using propose_send by (simp add: reply_inv_def s') auto
qed (auto simp: reply_inv_def)

lemma reply_inv_run: "node_run env (node_sys_init n) evs s \<Longrightarrow> reply_inv s"
proof (induction rule: node_run.induct)
  case run_init
  show ?case by (simp add: reply_inv_def node_sys_init_def)
next
  case (run_step evs s ev s')
  then show ?case by (blast intro: reply_inv_step)
qed

lemma results_kept:
  assumes "node_step env s ev s'" and "reply_inv s" and "sys_results s k = Some er"
  shows "sys_results s' k = Some er"
  using assms
proof (induction rule: node_step.cases)
  case (go_propose s ps j data qs rn er')
  then have "j \<noteq> k" by (auto simp: reply_inv_def)
  with go_propose show ?case by simp
next
  case (propose_send s' j ctx s g x)
  then show ?case by (auto elim: ProposeAdd_send_Inr)
qed auto

section \<open>Properties\<close>

text \<open>C9: applying a committed log of additions has exactly the effect of these additions. The node
  returns without a panic, its engine is the old one with the logged ids inserted in order, the
  snapshot counter has advanced by their number, and if the store held exactly the serialised
  engine before and the saves succeed, it does so afterwards.\<close>

theorem node_applies_log:
  assumes "badger_spec (ne_badger env) contents" and "add_log env es ops"
    and "nd_registry n = DefaultRegistry"
    and "mirrors (stored_groups contents (nd_store n)) (nd_engine n)"
    and "\<forall>(g, x) \<in> set ops. saves_ok (ne_badger env) g"
  shows "\<exists>n'. applyEntries env n es = Return n' \<and> nd_engine n' = run_adds ops (nd_engine n)
    \<and> nd_snapCount n' = nd_snapCount n + word_of_nat (length ops)
    \<and> mirrors (stored_groups contents (nd_store n')) (nd_engine n')"
  using badger_spec.applyEntries_add_log [OF assms(1,2) refl assms(3)] assms(4,5) by blast

definition ref_node :: "(u64 set Sketch, (bytes \<times> bytes) list, bytes list, unit) Node" where
  "ref_node = NewNode ref_env 1 [\<lparr>peer_ID = 1, peer_Addr = []\<rparr>]
     (NewEngine (hll_Algorithm (example_env 0) ref_roaring)) ref_store"

definition ref_entry :: Entry where
  "ref_entry = \<lparr>ent_Type = EntryNormal, ent_Index = 4,
     ent_Data = projr (ref_pb_Marshal (add_command ''a'' 7))\<rparr>"

lemma ref_Marshal: "ref_pb_Marshal (add_command ''a'' 7) = Inr (ent_Data ref_entry)"
  by (simp add: ref_entry_def ref_pb_Marshal_def marshal_def Command_fields_def add_command_def TypeAdd_def
      bytes_of_string_def utf8_lead_def bytes_field_def AppendUvarint_small)

lemma ref_entry_data: "ent_Data ref_entry \<noteq> []"
  using ref_Marshal by (auto simp: ref_pb_Marshal_def marshal_def Command_fields_def enc_fields_def bytes_field_def
      add_command_def TypeAdd_def split: if_splits)

lemma ref_add_log: "add_log ref_env [ref_entry] [(''a'', 7)]"
proof (rule add_log_add [OF _ _ add_log_Nil])
  show "ne_Unmarshal ref_env (ent_Data ref_entry) = Inr (add_command ''a'' 7)"
    using ref_world.codec ref_Marshal by (simp add: proto_codec_def ref_env_def)
  show "\<not> noop_entry ref_entry"
    using ref_entry_data by (simp add: noop_entry_def) (simp add: ref_entry_def)
qed

lemma ref_node_simps:
  "nd_registry ref_node = DefaultRegistry"
  "mirrors (stored_groups map_of (nd_store ref_node)) (nd_engine ref_node)"
  "nd_engine ref_node = NewEngine (hll_Algorithm (example_env 0) ref_roaring)"
  by (simp_all add: ref_node_def NewNode_def Let_def ref_mirrors)

theorem node_applies_log_witness:
  "\<exists>n'. applyEntries ref_env ref_node [ref_entry] = Return n'
    \<and> nd_engine n' = run_adds [(''a'', 7)] (NewEngine (hll_Algorithm (example_env 0) ref_roaring))
    \<and> mirrors (stored_groups map_of (nd_store n')) (nd_engine n')"
proof -
  have "badger_spec (ne_badger ref_env) map_of" by (simp add: ref_env_def ref_db.badger_spec_axioms)
  from node_applies_log [OF this ref_add_log ref_node_simps(1,2)] show ?thesis
    by (auto simp: ref_saves_ok ref_env_def ref_node_simps(3))
qed

text \<open>C4: safety of the running node. Whatever the interleaving of the event loop, its goroutines,
  the Raft library and the callers, the engine is always the initial engine with some of the
  additions inserted that callers submitted through \<^verbatim>\<open>ProposeAdd\<close>: no id is invented and none is
  moved to another group. As long as the saves of the submitted groups succeed, the store holds
  exactly the serialised engine at every moment between two steps.\<close>

theorem node_run_safety:
  assumes "node_world L proposed B contents env" and "mirrors (stored_groups contents st) e0"
    and "node_run env (node_sys_init (NewNode env i peers e0 st)) evs s"
  shows "(\<exists>ops. set ops \<subseteq> requested evs \<and> nd_engine (sys_node s) = run_adds ops e0)
    \<and> ((\<forall>(g, x) \<in> requested evs. saves_ok B g) \<longrightarrow>
        mirrors (stored_groups contents (nd_store (sys_node s))) (nd_engine (sys_node s)))"
  using node_world.node_run_inv [OF assms(1,3) node_world.sys_inv_init [OF assms(1,2)]]
  unfolding node_world.sys_inv_def [OF assms(1)] node_world.node_inv_def [OF assms(1)] by blast

lemma ref_run:
  "\<exists>s. node_run ref_env (node_sys_init ref_node) [EvProposeAdd ''a'' 7] s
     \<and> sys_proposeC s = [(0, ent_Data ref_entry)] \<and> sys_inflight s = [] \<and> \<not> sys_doneC s \<and> \<not> sys_stopC s"
proof -
  let ?s0 = "node_sys_init ref_node"
  have "\<exists>s' k. Inr (s', k) \<in> set (ProposeAdd_send ref_env None ?s0 ''a'' 7) \<and> sys_proposeC s' = [(0, ent_Data ref_entry)]
     \<and> sys_inflight s' = [] \<and> \<not> sys_doneC s' \<and> \<not> sys_stopC s'"
    by (simp add: ProposeAdd_send_def ref_env_def ref_Marshal node_sys_init_def proposeC_cap_def)
  then obtain s' where "node_step ref_env ?s0 (EvProposeAdd ''a'' 7) s'" "sys_proposeC s' = [(0, ent_Data ref_entry)]"
    "sys_inflight s' = []" "\<not> sys_doneC s'" "\<not> sys_stopC s'" by (blast intro: propose_send)
  with run_step [OF run_init this(1)] show ?thesis by auto
qed

lemma ref_run_answered:
  "\<exists>evs s. node_run ref_env (node_sys_init ref_node) evs s \<and> sys_results s 0 = Some None \<and> \<not> sys_stopC s"
proof -
  obtain s1 where s1: "node_run ref_env (node_sys_init ref_node) [EvProposeAdd ''a'' 7] s1"
    "sys_proposeC s1 = [(0, ent_Data ref_entry)]" "sys_inflight s1 = []" "\<not> sys_doneC s1" "\<not> sys_stopC s1"
    using ref_run by blast
  let ?s2 = "s1\<lparr>sys_proposeC := [], sys_inflight := sys_inflight s1 @ [(0, ent_Data ref_entry)]\<rparr>"
  have st2: "node_step ref_env s1 EvInternal ?s2" by (rule run_take [OF s1(4,2)])
  obtain rn where p: "er_Propose (ne_raft ref_env) (nd_node (sys_node ?s2)) (ent_Data ref_entry) = (rn, None)"
    by (simp add: ref_env_def ref_raft_def)
  have "sys_inflight ?s2 = [] @ (0, ent_Data ref_entry) # []" using s1(3) by simp
  from run_step [OF run_step [OF s1(1) st2] go_propose [OF this p]] s1(5) show ?thesis by fastforce
qed

theorem node_run_safety_witness:
  "\<exists>s. node_run ref_env (node_sys_init ref_node) [EvProposeAdd ''a'' 7] s
    \<and> mirrors (stored_groups map_of (nd_store (sys_node s))) (nd_engine (sys_node s))"
proof -
  obtain s where s: "node_run ref_env (node_sys_init ref_node) [EvProposeAdd ''a'' 7] s" using ref_run by blast
  from node_run_safety [OF ref_world.node_world_axioms ref_mirrors, of 1 "[\<lparr>peer_ID = 1, peer_Addr = []\<rparr>]"] s
  show ?thesis by (fastforce simp: requested_def ref_saves_ok ref_node_def)
qed

text \<open>The event loop never gets stuck or panics on committed entries: whenever a running node
  is handed a batch, handling it returns and the loop takes a step.\<close>

lemma node_ready_progress:
  assumes "node_world L proposed B contents env" and "mirrors (stored_groups contents st) e0"
    and "node_run env (node_sys_init (NewNode env i peers e0 st)) evs s"
    and "\<not> sys_doneC s" and "er_Ready L (nd_node (sys_node s)) rd"
  shows "\<exists>n'. handleReady env (sys_node s) rd = Return n' \<and> node_step env s EvInternal (s\<lparr>sys_node := n'\<rparr>)"
  using node_world.node_run_inv [OF assms(1,3) node_world.sys_inv_init [OF assms(1,2)]]
  by (rule node_world.ready_enabled [OF assms(1) _ assms(4,5)])

lemma node_ready_progress_example:
  "\<exists>n'. handleReady ref_env ref_node \<lparr>rd_Entries = [], rd_CommittedEntries = []\<rparr> = Return n'"
proof -
  have r: "er_Ready ref_raft (nd_node (sys_node (node_sys_init ref_node))) \<lparr>rd_Entries = [], rd_CommittedEntries = []\<rparr>"
    by (simp add: ref_raft_def node_sys_init_def ref_node_def NewNode_def ref_env_def Let_def)
  show ?thesis
    using node_ready_progress [OF ref_world.node_world_axioms ref_mirrors run_init, of 1 "[\<lparr>peer_ID = 1, peer_Addr = []\<rparr>]"] r
    by (auto simp: node_sys_init_def ref_node_def)
qed

text \<open>C27: a reply to a proposal is final. Reply numbers are never reused, so once the outcome of a
  proposal has been delivered no later step of the node changes it: a caller whose context is not
  done gets this outcome, and the proposal is neither waiting nor in flight any more.
\<close>

theorem node_reply_final:
  assumes "node_run env (node_sys_init n) evs s" and "ProposeAdd_wait None s k = [er]" and "node_step env s ev s'"
  shows "ProposeAdd_wait None s' k = [er] \<and> k \<notin> fst ` set (sys_proposeC s @ sys_inflight s)"
proof -
  have r: "sys_results s k = Some er" using assms(2) by (simp add: ProposeAdd_wait_def split: option.splits)
  show ?thesis
    using results_kept [OF assms(3) reply_inv_run [OF assms(1)] r] reply_inv_run [OF assms(1)] r
    by (auto simp: reply_inv_def ProposeAdd_wait_def)
qed

theorem node_reply_final_witness:
  "\<exists>evs s s'. node_run ref_env (node_sys_init ref_node) evs s \<and> node_step ref_env s EvInternal s'
    \<and> ProposeAdd_wait None s' 0 = [None]"
proof -
  obtain evs s where s: "node_run ref_env (node_sys_init ref_node) evs s" "sys_results s 0 = Some None" "\<not> sys_stopC s"
    using ref_run_answered by blast
  have "ProposeAdd_wait None s 0 = [None]" using s(2) by (simp add: ProposeAdd_wait_def)
  from node_reply_final [OF s(1) this stop_call [OF s(3)]] s stop_call [OF s(3)] show ?thesis by blast
qed



text \<open>C37: a truncated \<^verbatim>\<open>BATCH_ADD\<close> entry leaves the store behind the engine: the ids before the
  truncation are inserted, but the group is neither saved nor is the entry counted as applied,
  because the apply loop skips the save when dispatching returns an error.\<close>

theorem applyEntry_truncated_batch:
  assumes "\<not> noop_entry e" and "nd_registry n = DefaultRegistry" and "length xs < unat k"
    and "ne_Unmarshal env (ent_Data e)
      = Inr \<lparr>cmd_Type = TypeBatchAdd, cmd_Group = g, cmd_Payload = batch_payload k xs\<rparr>"
  shows "applyEntry env n e = Return (n\<lparr>nd_engine := run_adds (map (Pair g) xs) (nd_engine n)\<rparr>)"
  using assms Dispatch_truncated_batch [OF assms(3), of g "nd_engine n"]
  by (simp add: applyEntry_def noop_entry_def)

definition ref_batch_entry :: Entry where
  "ref_batch_entry = \<lparr>ent_Type = EntryNormal, ent_Index = 5, ent_Data = projr (ref_pb_Marshal
     \<lparr>cmd_Type = TypeBatchAdd, cmd_Group = ''a'', cmd_Payload = batch_payload 3 [5]\<rparr>)\<rparr>"

theorem applyEntry_truncated_batch_witness:
  "\<exists>n'. applyEntry ref_env ref_node ref_batch_entry = Return n' \<and> nd_store n' = nd_store ref_node
     \<and> eng_groups (nd_engine n') ''a'' \<noteq> None"
proof -
  let ?c = "\<lparr>cmd_Type = TypeBatchAdd, cmd_Group = ''a'', cmd_Payload = batch_payload 3 [5]\<rparr>"
  have m: "ref_pb_Marshal ?c = Inr (ent_Data ref_batch_entry)"
    by (simp add: ref_batch_entry_def ref_pb_Marshal_def marshal_def Command_fields_def TypeBatchAdd_def
        bytes_of_string_def utf8_lead_def bytes_field_def batch_payload_def AppendUvarint_small)
  then have u: "ne_Unmarshal ref_env (ent_Data ref_batch_entry) = Inr ?c"
    using ref_world.codec by (simp add: proto_codec_def ref_env_def)
  have "\<not> noop_entry ref_batch_entry"
    using m by (auto simp: noop_entry_def ref_batch_entry_def ref_pb_Marshal_def marshal_def Command_fields_def
        enc_fields_def bytes_field_def TypeBatchAdd_def split: if_splits)
  from applyEntry_truncated_batch [OF this ref_node_simps(1) _ u] show ?thesis
    by (simp add: Engine_Add_def Let_def)
qed

end
