(* ===== verification/Observability.thy ===== *)
theory Observability
  imports Raft_Node Go_Float "HOL-Library.Multiset"
begin

text \<open>
  What an operator sees of a node: the two metric collectors of
  \<^verbatim>\<open>internal/server/collector.go\<close> and the health endpoints of \<^verbatim>\<open>internal/server/health.go\<close>. A
  collector's channel is the list of the metrics sent to it. Descriptors and constant metrics
  of the Prometheus library are plain data; \<^verbatim>\<open>sort.Slice\<close> and \<^verbatim>\<open>http.ResponseWriter\<close> of the
  standard library are modelled.
\<close>

section \<open>Sorting with a comparison function\<close>

fun insert_less :: "('a \<Rightarrow> 'a \<Rightarrow> bool) \<Rightarrow> 'a \<Rightarrow> 'a list \<Rightarrow> 'a list" where
  "insert_less lt x [] = [x]"
| "insert_less lt x (y # ys) = (if lt y x then y # insert_less lt x ys else x # y # ys)"

definition sort_Slice :: "('a \<Rightarrow> 'a \<Rightarrow> bool) \<Rightarrow> 'a list \<Rightarrow> 'a list" where
  "sort_Slice lt xs = foldr (insert_less lt) xs []"

lemma set_insert_less [simp]: "set (insert_less lt x ys) = insert x (set ys)"
  by (induction ys) auto

lemma length_insert_less [simp]: "length (insert_less lt x ys) = Suc (length ys)"
  by (induction ys) auto

lemma distinct_insert_less [simp]: "distinct (insert_less lt x ys) \<longleftrightarrow> x \<notin> set ys \<and> distinct ys"
  by (induction ys) auto

lemma set_sort_Slice [simp]: "set (sort_Slice lt xs) = set xs"
  by (induction xs) (simp_all add: sort_Slice_def)

lemma length_sort_Slice [simp]: "length (sort_Slice lt xs) = length xs"
  by (induction xs) (simp_all add: sort_Slice_def)

lemma distinct_sort_Slice [simp]: "distinct (sort_Slice lt xs) \<longleftrightarrow> distinct xs"
proof (induction xs)
  case (Cons x xs)
  then show ?case using set_sort_Slice [of lt xs] by (simp add: sort_Slice_def)
qed (simp add: sort_Slice_def)

text \<open>For a strict total order the result on distinct elements is sorted.\<close>

locale strict_total =
  fixes lt :: "'a \<Rightarrow> 'a \<Rightarrow> bool"
  assumes less_trans: "lt x y \<Longrightarrow> lt y z \<Longrightarrow> lt x z"
    and less_total: "x \<noteq> y \<Longrightarrow> lt x y \<or> lt y x"
begin

lemma sorted_insert_less: "sorted_wrt lt ys \<Longrightarrow> x \<notin> set ys \<Longrightarrow> sorted_wrt lt (insert_less lt x ys)"
proof (induction ys)
  case (Cons y ys)
  have "\<forall>z \<in> set ys. lt y z" using Cons.prems(1) by simp
  moreover have "lt x y" if "\<not> lt y x" using that less_total [of x y] Cons.prems(2) by auto
  ultimately show ?case using Cons by (auto intro: less_trans)
qed simp

lemma sorted_sort_Slice: "distinct xs \<Longrightarrow> sorted_wrt lt (sort_Slice lt xs)"
proof (induction xs)
  case (Cons x xs)
  then show ?case using sorted_insert_less [of "sort_Slice lt xs" x] set_sort_Slice [of lt xs]
    by (simp add: sort_Slice_def)
qed (simp add: sort_Slice_def)

text \<open>So a prefix of the sorted slice holds the least elements.\<close>

lemma take_sort_Slice:
  assumes "distinct xs" and "x \<in> set (take n (sort_Slice lt xs))" and "y \<in> set xs - set (take n (sort_Slice lt xs))"
  shows "lt x y"
proof -
  let ?s = "sort_Slice lt xs"
  have "y \<in> set (take n ?s) \<union> set (drop n ?s)"
    using assms(3) by (metis DiffD1 append_take_drop_id set_append set_sort_Slice)
  then have "y \<in> set (drop n ?s)" using assms(3) by blast
  moreover have "sorted_wrt lt (take n ?s @ drop n ?s)" using sorted_sort_Slice [OF assms(1)] by simp
  ultimately show ?thesis using assms(2) unfolding sorted_wrt_append by blast
qed

end

section \<open>Collectors\<close>

record Desc =
  fqName :: string
  helpText :: string
  variableLabels :: "string list"

record Metric =
  mt_desc :: Desc
  mt_value :: real
  mt_labels :: "string list"

definition groupCardinalityDesc :: Desc where
  "groupCardinalityDesc = \<lparr>fqName = ''cardinality_tracker_group_cardinality'',
     helpText = ''Estimated number of unique ids per group.'', variableLabels = [''group'']\<rparr>"

definition groupsDroppedDesc :: Desc where
  "groupsDroppedDesc = \<lparr>fqName = ''cardinality_tracker_groups_dropped'',
     helpText = ''Groups not exported because -metrics-max-groups was exceeded.'', variableLabels = []\<rparr>"

definition engineGroupsDesc :: Desc where
  "engineGroupsDesc = \<lparr>fqName = ''cardinality_tracker_engine_groups'',
     helpText = ''Number of groups held by the engine.'', variableLabels = []\<rparr>"

definition raftTermDesc :: Desc where
  "raftTermDesc = \<lparr>fqName = ''cardinality_tracker_raft_term'', helpText = ''Current Raft term.'', variableLabels = []\<rparr>"

definition raftIsLeaderDesc :: Desc where
  "raftIsLeaderDesc = \<lparr>fqName = ''cardinality_tracker_raft_is_leader'',
     helpText = ''1 when this node is the Raft leader, 0 otherwise.'', variableLabels = []\<rparr>"

definition raftAppliedIndexDesc :: Desc where
  "raftAppliedIndexDesc = \<lparr>fqName = ''cardinality_tracker_raft_applied_index'',
     helpText = ''Last Raft log index applied to the FSM.'', variableLabels = []\<rparr>"

lemmas descs = groupCardinalityDesc_def groupsDroppedDesc_def engineGroupsDesc_def
  raftTermDesc_def raftIsLeaderDesc_def raftAppliedIndexDesc_def

record 's EngineCollector =
  ec_engine :: "'s engine"
  ec_maxGroups :: int

definition NewEngineCollector :: "'s engine \<Rightarrow> int \<Rightarrow> 's EngineCollector" where
  "NewEngineCollector eng maxGroups = \<lparr>ec_engine = eng, ec_maxGroups = maxGroups\<rparr>"

definition EngineCollector_Describe :: "Desc list" where
  "EngineCollector_Describe = [groupCardinalityDesc, groupsDroppedDesc, engineGroupsDesc]"

text \<open>Reading a missing key of \<^verbatim>\<open>all\<close> gives 0.\<close>

definition cardinality_at :: "(string \<rightharpoonup> u64) \<Rightarrow> string \<Rightarrow> u64" where
  "cardinality_at m g = (case m g of None \<Rightarrow> 0 | Some c \<Rightarrow> c)"

definition group_less :: "(string \<rightharpoonup> u64) \<Rightarrow> string \<Rightarrow> string \<Rightarrow> bool" where
  "group_less m g h = (if cardinality_at m g \<noteq> cardinality_at m h then cardinality_at m g > cardinality_at m h else g < h)"

definition EngineCollector_Collect :: "(string set \<Rightarrow> string list) \<Rightarrow> 's EngineCollector \<Rightarrow> Metric list" where
  "EngineCollector_Collect order c =
     (let m = Engine_CardinalityAll (ec_engine c);
          groups = order (dom m);
          (dropped, groups) =
            (if 0 < ec_maxGroups c \<and> ec_maxGroups c < int (length groups)
             then (int (length groups) - ec_maxGroups c, take (nat (ec_maxGroups c)) (sort_Slice (group_less m) groups))
             else (0, groups))
      in [\<lparr>mt_desc = groupsDroppedDesc, mt_value = fl64 (of_int dropped), mt_labels = []\<rparr>,
          \<lparr>mt_desc = engineGroupsDesc, mt_value = fl64 (of_nat (card (dom m))), mt_labels = []\<rparr>]
         @ map (\<lambda>g. \<lparr>mt_desc = groupCardinalityDesc, mt_value = fl64 (of_nat (unat (cardinality_at m g))), mt_labels = [g]\<rparr>)
             groups)"

record ('s, 'db, 'n, 'm) RaftCollector =
  rc_node :: "('s, 'db, 'n, 'm) Node"

definition NewRaftCollector :: "('s, 'db, 'n, 'm) Node \<Rightarrow> ('s, 'db, 'n, 'm) RaftCollector" where
  "NewRaftCollector n = \<lparr>rc_node = n\<rparr>"

definition RaftCollector_Describe :: "Desc list" where
  "RaftCollector_Describe = [raftTermDesc, raftIsLeaderDesc, raftAppliedIndexDesc]"

definition RaftCollector_Collect :: "('db, 'n, 'm) node_env \<Rightarrow> ('s, 'db, 'n, 'm) RaftCollector \<Rightarrow> Metric list" where
  "RaftCollector_Collect env c =
     (let (trm, leader, applied) = Node_Status env (rc_node c);
          leaderVal = (if leader then 1 else 0)
      in [\<lparr>mt_desc = raftTermDesc, mt_value = fl64 (of_nat (unat trm)), mt_labels = []\<rparr>,
          \<lparr>mt_desc = raftIsLeaderDesc, mt_value = leaderVal, mt_labels = []\<rparr>,
          \<lparr>mt_desc = raftAppliedIndexDesc, mt_value = fl64 (of_nat (unat applied)), mt_labels = []\<rparr>])"

section \<open>Health endpoints\<close>

text \<open>A response: the status once it is written, and the body. The first write without a status
  sends 200; \<^verbatim>\<open>http.Error\<close> appends a newline to its message.\<close>

record ResponseWriter =
  rw_status :: "nat option"
  rw_body :: string

definition WriteHeader :: "nat \<Rightarrow> ResponseWriter \<Rightarrow> ResponseWriter" where
  "WriteHeader code w = (if rw_status w = None then w\<lparr>rw_status := Some code\<rparr> else w)"

definition rw_Write :: "string \<Rightarrow> ResponseWriter \<Rightarrow> ResponseWriter" where
  "rw_Write b w = (let w = WriteHeader 200 w in w\<lparr>rw_body := rw_body w @ b\<rparr>)"

definition http_Error :: "string \<Rightarrow> nat \<Rightarrow> ResponseWriter \<Rightarrow> ResponseWriter" where
  "http_Error msg code w = rw_Write (msg @ [CHR 0x0A]) (WriteHeader code w)"

definition HealthzHandler :: "ResponseWriter \<Rightarrow> ResponseWriter" where
  "HealthzHandler w = rw_Write (''ok'' @ [CHR 0x0A]) (WriteHeader 200 w)"

definition ReadyzHandler :: "bool \<Rightarrow> ResponseWriter \<Rightarrow> ResponseWriter" where
  "ReadyzHandler ready w =
     (if \<not> ready then http_Error (''not ready'' @ [CHR 0x0A]) 503 w
      else rw_Write (''ready'' @ [CHR 0x0A]) (WriteHeader 200 w))"

text \<open>The predicate that \<^verbatim>\<open>main.run\<close> hands to \<^verbatim>\<open>ReadyzHandler\<close>.\<close>

definition main_ready :: "('db, 'n, 'm) node_env \<Rightarrow> ('s, 'db, 'n, 'm) Node \<Rightarrow> bool" where
  "main_ready env n = (let (_, isLeader, _) = Node_Status env n in isLeader)"

section \<open>Properties\<close>

interpretation by_cardinality: strict_total "group_less m" for m
proof
  show "group_less m x z" if "group_less m x y" "group_less m y z" for x y z
    using that by (auto simp: group_less_def split: if_splits)
  show "group_less m x y \<or> group_less m y x" if "x \<noteq> y" for x y
    using that by (auto simp: group_less_def split: if_splits)
qed

text \<open>The order of the export as a linear order on counted groups, and the comparison function of the code
  as sorting in that order with the library's stable sort.\<close>

datatype counted = Counted (counted_value: u64) (counted_group: string)

instantiation counted :: linorder
begin

definition less_counted :: "counted \<Rightarrow> counted \<Rightarrow> bool" where
  "less_counted r s \<longleftrightarrow> counted_value s < counted_value r \<or> counted_value r = counted_value s \<and> counted_group r < counted_group s"

definition less_eq_counted :: "counted \<Rightarrow> counted \<Rightarrow> bool" where
  "less_eq_counted r s \<longleftrightarrow> r < s \<or> r = s"

instance
proof
  fix x y z :: counted
  show "x < y \<longleftrightarrow> x \<le> y \<and> \<not> y \<le> x" "x \<le> x" "x \<le> y \<Longrightarrow> y \<le> z \<Longrightarrow> x \<le> z" "x \<le> y \<Longrightarrow> y \<le> x \<Longrightarrow> x = y"
    by (auto simp: less_counted_def less_eq_counted_def)
  show "x \<le> y \<or> y \<le> x"
    by (cases x; cases y) (auto simp: less_counted_def less_eq_counted_def)
qed

end

lemma group_less_counted: "group_less m g h \<longleftrightarrow> Counted (cardinality_at m g) g < Counted (cardinality_at m h) h"
  by (auto simp: group_less_def less_counted_def)

lemma sort_Slice_counted:
  assumes "distinct gs"
  shows "sort_Slice (group_less m) gs = sort_key (\<lambda>g. Counted (cardinality_at m g) g) gs"
proof (rule sort_key_inj_key_eq [symmetric])
  show "mset gs = mset (sort_Slice (group_less m) gs)"
    using assms set_eq_iff_mset_eq_distinct [of gs "sort_Slice (group_less m) gs"] by simp
  show "sorted (map (\<lambda>g. Counted (cardinality_at m g) g) (sort_Slice (group_less m) gs))"
    using by_cardinality.sorted_sort_Slice [OF assms, of m]
    by (auto simp: sorted_wrt_map group_less_counted intro: sorted_wrt_mono_rel [rotated])
qed (simp add: inj_on_def)

text \<open>C32: the per-group export is capped as promised. A scrape sends the number of dropped groups,
  the number of groups and one gauge per exported group with its cardinality; every metric has a
  descriptor the collector announced. The exported groups are distinct, as many as the cap allows
  (all of them when the cap is not positive), every group left out comes after every exported one
  in the order by descending cardinality, ties by name, and the counts add up.\<close>

theorem Collect_top_groups:
  assumes "range_order order" and "finite (dom (eng_groups (ec_engine c)))"
    and "card (dom (eng_groups (ec_engine c))) < 2 ^ 53" and "m = Engine_CardinalityAll (ec_engine c)"
  shows "\<exists>gs. EngineCollector_Collect order c =
      [\<lparr>mt_desc = groupsDroppedDesc, mt_value = of_nat (card (dom m) - length gs), mt_labels = []\<rparr>,
       \<lparr>mt_desc = engineGroupsDesc, mt_value = of_nat (card (dom m)), mt_labels = []\<rparr>]
      @ map (\<lambda>g. \<lparr>mt_desc = groupCardinalityDesc, mt_value = fl64 (of_nat (unat (cardinality_at m g))), mt_labels = [g]\<rparr>) gs
    \<and> distinct gs \<and> set gs \<subseteq> dom m
    \<and> length gs = (if 0 < ec_maxGroups c then min (nat (ec_maxGroups c)) (card (dom m)) else card (dom m))
    \<and> (\<forall>g \<in> set gs. \<forall>h \<in> dom m - set gs. cardinality_at m h < cardinality_at m g \<or> cardinality_at m h = cardinality_at m g \<and> g < h)
    \<and> mt_desc ` set (EngineCollector_Collect order c) \<subseteq> set EngineCollector_Describe"
proof -
  have dm: "dom m = dom (eng_groups (ec_engine c))" by (auto simp: assms(4) Engine_CardinalityAll_def)
  define ks where "ks = order (dom m)"
  have ks: "distinct ks" "set ks = dom m"
    using range_orderD [OF assms(1), of "dom m"] assms(2) by (simp_all add: ks_def dm)
  then have ks3: "length ks = card (dom m)" by (metis distinct_card)
  let ?capped = "0 < ec_maxGroups c \<and> ec_maxGroups c < int (length ks)"
  define gs where "gs = (if ?capped then take (nat (ec_maxGroups c)) (sort_Slice (group_less m) ks) else ks)"
  have len: "length gs = (if 0 < ec_maxGroups c then min (nat (ec_maxGroups c)) (card (dom m)) else card (dom m))"
    using ks3 by (auto simp: gs_def min_def)
  define k where "k = (if ?capped then int (length ks) - ec_maxGroups c else 0)"
  have "k = int (card (dom m) - length gs)" using ks3 by (auto simp: len k_def)
  then have dropped: "fl64 (of_int k) = of_nat (card (dom m) - length gs)"
    using assms(3) fl64_of_nat [of "card (dom m) - length gs"] by (simp add: dm del: of_nat_diff)
  have total: "fl64 (of_nat (card (dom m))) = of_nat (card (dom m))"
    using assms(3) by (simp add: fl64_of_nat dm)
  have kgs: "(if ?capped then (int (length ks) - ec_maxGroups c, take (nat (ec_maxGroups c)) (sort_Slice (group_less m) ks))
      else (0, ks)) = (k, gs)"
    by (simp add: k_def gs_def)
  have C: "EngineCollector_Collect order c =
      [\<lparr>mt_desc = groupsDroppedDesc, mt_value = of_nat (card (dom m) - length gs), mt_labels = []\<rparr>,
       \<lparr>mt_desc = engineGroupsDesc, mt_value = of_nat (card (dom m)), mt_labels = []\<rparr>]
      @ map (\<lambda>g. \<lparr>mt_desc = groupCardinalityDesc, mt_value = fl64 (of_nat (unat (cardinality_at m g))), mt_labels = [g]\<rparr>) gs"
    by (simp only: EngineCollector_Collect_def Let_def assms(4) [symmetric] ks_def [symmetric] kgs prod.case dropped total)
  have top: "group_less m g h" if "g \<in> set gs" "h \<in> dom m - set gs" for g h
    using that by_cardinality.take_sort_Slice [OF ks(1)] ks(2) by (auto simp: gs_def split: if_splits)
  have top': "cardinality_at m h < cardinality_at m g \<or> cardinality_at m h = cardinality_at m g \<and> g < h" if "g \<in> set gs" "h \<in> dom m - set gs" for g h
    using top [OF that] by (simp add: group_less_def split: if_splits)
  have "set gs \<subseteq> dom m" "distinct gs" using ks by (auto simp: gs_def dest: in_set_takeD)
  moreover have "mt_desc ` set (EngineCollector_Collect order c) \<subseteq> set EngineCollector_Describe"
    unfolding C EngineCollector_Describe_def by auto
  ultimately show ?thesis using C len top' by blast
qed

theorem Collect_top_groups_witness:
  "mt_value (EngineCollector_Collect sorted_list_of_set (NewEngineCollector (run_adds [(''a'', 1), (''b'', 2)]
      (NewEngine (hll_Algorithm (example_env 0) ref_roaring))) 1) ! 0) = 1"
proof -
  define e where "e = run_adds [(''a'', 1), (''b'', 2)] (NewEngine (hll_Algorithm (example_env 0) ref_roaring))"
  have d: "dom (eng_groups e) = {''b'', ''a''}"
    by (simp add: e_def run_adds_def Engine_Add_def NewEngine_def Let_def)
  then have m: "dom (Engine_CardinalityAll e) = {''b'', ''a''}"
    by (simp add: Engine_CardinalityAll_def dom_def)
  let ?c = "NewEngineCollector e 1"
  have c: "ec_engine ?c = e" "ec_maxGroups ?c = 1" by (simp_all add: NewEngineCollector_def)
  obtain gs where gs: "EngineCollector_Collect sorted_list_of_set ?c =
      [\<lparr>mt_desc = groupsDroppedDesc, mt_value = of_nat (card {''b'', ''a''} - length gs), mt_labels = []\<rparr>,
       \<lparr>mt_desc = engineGroupsDesc, mt_value = of_nat (card {''b'', ''a''}), mt_labels = []\<rparr>]
      @ map (\<lambda>g. \<lparr>mt_desc = groupCardinalityDesc,
          mt_value = fl64 (of_nat (unat (cardinality_at (Engine_CardinalityAll e) g))), mt_labels = [g]\<rparr>) gs"
    "length gs = (if 0 < (1 :: int) then min (nat 1) (card {''b'', ''a''}) else card {''b'', ''a''})"
    using Collect_top_groups [OF range_order_sorted, of ?c, unfolded c d, OF _ _ refl, unfolded m] by auto
  have "mt_value (EngineCollector_Collect sorted_list_of_set ?c ! 0) = 1" using gs by simp
  then show ?thesis by (simp only: e_def)
qed

text \<open>The two signals an operator has for leadership agree: \<^verbatim>\<open>/readyz\<close> answers 200 exactly when
  the leadership gauge of a scrape is 1, and 503 exactly when it is 0, while \<^verbatim>\<open>/healthz\<close> answers 200
  in either case. A node reports leadership only for a leader with its own, non-zero id.\<close>

lemma readyz_agrees_with_gauge:
  "\<exists>v. \<lparr>mt_desc = raftIsLeaderDesc, mt_value = v, mt_labels = []\<rparr> \<in> set (RaftCollector_Collect env (NewRaftCollector n))
    \<and> rw_status (ReadyzHandler (main_ready env n) \<lparr>rw_status = None, rw_body = []\<rparr>) = Some (if v = 1 then 200 else 503)
    \<and> v = (if nd_id n \<noteq> 0 \<and> snd (er_Status (ne_raft env) (nd_node n)) = nd_id n then 1 else 0)
    \<and> rw_status (HealthzHandler \<lparr>rw_status = None, rw_body = []\<rparr>) = Some 200"
  by (auto simp: RaftCollector_Collect_def NewRaftCollector_def main_ready_def Node_Status_def Let_def
      ReadyzHandler_def HealthzHandler_def http_Error_def rw_Write_def WriteHeader_def split: prod.split)

end
