(* ===== verification/Startup.thy ===== *)
theory Startup
  imports Cluster Observability
begin

text \<open>
  \<^verbatim>\<open>cmd/server/main.go\<close>: the command-line flags and \<^verbatim>\<open>run\<close>, which opens the store, rebuilds the
  engine from it, builds the hash ring and its own address from the peers flag, starts the Raft
  node, the gRPC server, the HTTP gateway and the metrics server, waits for a signal and shuts
  down. \<open>run\<close> yields the trace of what the main goroutine does, deferred calls included, and its
  result; what the started goroutines do then is the matter of the other theories. Opening a
  listener and registering the gateway are parameters.
\<close>

section \<open>Flags\<close>

record main_flags =
  grpcPort :: int
  httpPort :: int
  metricsPort :: int
  metricsMaxGroups :: int
  dataDir :: string
  nodeID :: u64
  peersFlag :: string

definition default_flags :: main_flags where
  "default_flags = \<lparr>grpcPort = 9090, httpPort = 8080, metricsPort = 8081, metricsMaxGroups = 1000,
     dataDir = ''/tmp/cardinality-data'', nodeID = 1, peersFlag = ''''\<rparr>"

text \<open>\<^verbatim>\<open>strings.Split\<close> with a separator of one character.\<close>

fun strings_Split :: "char \<Rightarrow> string \<Rightarrow> string list" where
  "strings_Split c [] = [[]]"
| "strings_Split c (x # xs) =
     (if x = c then [] # strings_Split c xs
      else (case strings_Split c xs of [] \<Rightarrow> [[x]] | p # ps \<Rightarrow> (x # p) # ps))"

section \<open>Rebuilding the state\<close>

text \<open>The function \<^verbatim>\<open>run\<close> passes to \<^verbatim>\<open>LoadAll\<close>, on the engine and the counter of restored groups.\<close>

definition restore_group :: "string \<Rightarrow> bytes \<Rightarrow> 's engine \<times> nat \<Rightarrow> ('s engine \<times> nat) \<times> err" where
  "restore_group g b en =
     (let (eng, restored) = en in
      case Restore eng g b of
        (eng, Some e) \<Rightarrow> ((eng, restored), Some e)
      | (eng, None) \<Rightarrow> ((eng, restored + 1), None))"

definition restore_engine ::
    "'s algorithm \<Rightarrow> 'db badger \<Rightarrow> 'db BadgerStore \<Rightarrow> ('s engine \<times> nat) \<times> err" where
  "restore_engine alg B st = LoadAll B st restore_group (NewEngine alg, 0)"

text \<open>Ring and own address. \<^verbatim>\<open>int(*nodeID)\<close> reads the 64 bits as a signed number; the index
  \<^verbatim>\<open>*nodeID-1\<close> is unsigned and is checked against the slice.\<close>

definition ring_and_self :: "(bytes \<Rightarrow> u32) \<Rightarrow> main_flags \<Rightarrow> (Ring option \<times> string) outcome" where
  "ring_and_self sum32 fl =
     (if peersFlag fl \<noteq> [] then
        let peerAddrs = strings_Split (CHR '','') (peersFlag fl);
            rg = fold (\<lambda>addr r. AddNode sum32 r addr) peerAddrs router_New
        in if nodeID fl > 0 \<and> sint (nodeID fl) \<le> int (length peerAddrs)
           then (if unat (nodeID fl - 1) < length peerAddrs then Return (Some rg, peerAddrs ! unat (nodeID fl - 1))
                 else Panic ''index out of range'')
           else Return (Some rg, [])
      else Return (None, []))"

section \<open>The life of the process\<close>

datatype ('s, 'db, 'n, 'm) effect =
    StoreOpen | StoreClose
  | EngineRestored nat
  | NodeRun "('s, 'db, 'n, 'm) Node" | NodeStop
  | MustRegister "'s EngineCollector" "('s, 'db, 'n, 'm) RaftCollector"
  | ServerNew "Ring option" string | ServerClose
  | GrpcServe int | GrpcGracefulStop
  | ContextWithCancel | ContextCancel
  | GatewayRegister int
  | HttpServe int | HttpShutdown
  | MetricsServe int | MetricsShutdown
  | SignalReceived
  | ShutdownContext | ShutdownCancel

type_synonym ('s, 'db, 'n, 'm) life = "('s, 'db, 'n, 'm) effect list \<times> err outcome"

definition perform :: "('s, 'db, 'n, 'm) effect \<Rightarrow> ('s, 'db, 'n, 'm) life \<Rightarrow> ('s, 'db, 'n, 'm) life" where
  "perform x l = (x # fst l, snd l)"

text \<open>A deferred call runs when the rest of the function has returned or panicked.\<close>

definition deferring :: "('s, 'db, 'n, 'm) effect \<Rightarrow> ('s, 'db, 'n, 'm) life \<Rightarrow> ('s, 'db, 'n, 'm) life" where
  "deferring x l = (fst l @ [x], snd l)"

definition fails :: "string \<Rightarrow> go_error \<Rightarrow> ('s, 'db, 'n, 'm) life" where
  "fails what e = ([], Return (Some (ErrWrap what e)))"

record ('s, 'db, 'n, 'm) main_env =
  me_node :: "('db, 'n, 'm) node_env"
  me_alg :: "'s algorithm"
  me_sum32 :: "bytes \<Rightarrow> u32"
  me_Listen :: "int \<Rightarrow> err"
  me_Gateway :: "int \<Rightarrow> err"

text \<open>From the signal on: stop the gRPC server, then both HTTP servers under a five second context.
  Errors of the two shutdowns are logged only.\<close>

definition run_shutdown :: "('s, 'db, 'n, 'm) life" where
  "run_shutdown =
     perform SignalReceived (perform GrpcGracefulStop
       (perform ShutdownContext (deferring ShutdownCancel
         (perform HttpShutdown (perform MetricsShutdown ([], Return None))))))"

text \<open>From the gRPC listener on.\<close>

definition run_serve :: "('s, 'db, 'n, 'm) main_env \<Rightarrow> main_flags \<Rightarrow> ('s, 'db, 'n, 'm) life" where
  "run_serve env fl =
     (case me_Listen env (grpcPort fl) of
        Some e \<Rightarrow> fails ''listen grpc failed'' e
      | None \<Rightarrow>
          perform (GrpcServe (grpcPort fl)) (perform ContextWithCancel (deferring ContextCancel
            (case me_Gateway env (grpcPort fl) of
               Some e \<Rightarrow> fails ''register gateway failed'' e
             | None \<Rightarrow>
                 perform (GatewayRegister (grpcPort fl)) (perform (HttpServe (httpPort fl))
                   (perform (MetricsServe (metricsPort fl)) run_shutdown))))))"

definition run :: "('s, 'db, 'n, 'm) main_env \<Rightarrow> main_flags \<Rightarrow> ('s, 'db, 'n, 'm) life" where
  "run env fl =
     (case Open (ne_badger (me_node env)) (dataDir fl) of
        Inl e \<Rightarrow> fails ''open store failed'' e
      | Inr st \<Rightarrow>
          perform StoreOpen (deferring StoreClose
            (case restore_engine (me_alg env) (ne_badger (me_node env)) st of
               (_, Some e) \<Rightarrow> fails ''restore engine state failed'' e
             | ((eng, restored), None) \<Rightarrow>
                 perform (EngineRestored restored)
                   (case ring_and_self (me_sum32 env) fl of
                      Panic msg \<Rightarrow> ([], Panic msg)
                    | Return (rg, selfAddr) \<Rightarrow>
                        let peers = [\<lparr>peer_ID = nodeID fl, peer_Addr = []\<rparr>];
                            node = NewNode (me_node env) (nodeID fl) peers eng st
                        in perform (NodeRun node) (deferring NodeStop
                          (perform (MustRegister (NewEngineCollector eng (metricsMaxGroups fl)) (NewRaftCollector node))
                            (perform (ServerNew rg selfAddr) (deferring ServerClose (run_serve env fl)))))))))"

text \<open>\<^verbatim>\<open>main\<close>: the exit code, when there is one.\<close>

definition main_exit :: "('s, 'db, 'n, 'm) main_env \<Rightarrow> main_flags \<Rightarrow> int outcome" where
  "main_exit env fl =
     (case snd (run env fl) of Panic msg \<Rightarrow> Panic msg | Return (Some _) \<Rightarrow> Return 1 | Return None \<Rightarrow> Return 0)"

section \<open>Restoring a mirrored store\<close>

context sketch_contract
begin

lemma restore_pairs:
  assumes "engine_ok e" and "\<forall>g \<in> set gs. inv (the (m g))"
  shows "\<exists>e'. load_pairs restore_group (map (\<lambda>g. (g, sk_Bytes alg (the (m g)))) gs) (e, n) = ((e', n + length gs), None)
    \<and> engine_ok e' \<and> engine_view view e' = (\<lambda>g. if g \<in> set gs then Some (view (the (m g))) else engine_view view e g)"
  using assms
proof (induction gs arbitrary: e n)
  case (Cons g gs)
  then obtain e1 where e1: "Restore e g (sk_Bytes alg (the (m g))) = (e1, None)" "engine_ok e1"
    "engine_view view e1 = (engine_view view e)(g \<mapsto> view (the (m g)))"
    using Restore_Bytes [of e "the (m g)" g] by auto
  from Cons.IH [OF e1(2), of "Suc n"] Cons.prems(2) obtain e' where
    "load_pairs restore_group (map (\<lambda>g. (g, sk_Bytes alg (the (m g)))) gs) (e1, Suc n) = ((e', Suc n + length gs), None)"
    "engine_ok e'" "engine_view view e' = (\<lambda>h. if h \<in> set gs then Some (view (the (m h))) else engine_view view e1 h)"
    by auto
  moreover have "restore_group g (sk_Bytes alg (the (m g))) (e, n) = ((e1, Suc n), None)"
    using e1(1) by (simp add: restore_group_def)
  ultimately show ?case using e1(3) by (intro exI [of _ e']) auto
qed simp

end

text \<open>A store that mirrors an engine is restored to an engine with the same view.\<close>

lemma hll_restore_mirrored:
  assumes "badger_spec B contents" and "hll.engine_ok env R e" and "mirrors (stored_groups contents st) e"
  shows "\<exists>e'. restore_engine (hll_Algorithm env R) B st = ((e', card (dom (eng_groups e))), None)
    \<and> hll.engine_ok env R e' \<and> engine_view hll_view e' = engine_view hll_view e"
proof -
  have alg: "eng_alg e = hll_Algorithm env R" by (rule hll.engine_ok_alg [OF assms(2)])
  have sg: "stored_groups contents st g = map_option (sk_Bytes (hll_Algorithm env R)) (eng_groups e g)" for g
    using assms(3) by (simp add: mirrors_def alg)
  have dom: "dom (stored_groups contents st) = dom (eng_groups e)" by (auto simp: sg domIff)
  have fin: "finite (dom (eng_groups e))"
    using assms(2) by (auto simp: hll.engine_ok_def engine_inv_def)
  let ?gs = "sorted_list_of_set (dom (eng_groups e))"
  have "map (\<lambda>g. (g, the (stored_groups contents st g))) ?gs
      = map (\<lambda>g. (g, sk_Bytes (hll_Algorithm env R) (the (eng_groups e g)))) ?gs"
    using fin by (auto simp: sg option.map_sel)
  note eq = this
  have L: "restore_engine (hll_Algorithm env R) B st = load_pairs restore_group
      (map (\<lambda>g. (g, sk_Bytes (hll_Algorithm env R) (the (eng_groups e g)))) ?gs) (NewEngine (hll_Algorithm env R), 0)"
    by (simp only: restore_engine_def badger_spec.LoadAll_eq [OF assms(1)] dom eq)
  have "\<forall>g \<in> set ?gs. hll_inv (the (eng_groups e g))"
    using fin hll.engine_ok_groupsD [OF assms(2)] by auto
  from hll.restore_pairs [OF hll.engine_ok_NewEngine this, of env R 0] obtain e' where
    "restore_engine (hll_Algorithm env R) B st = ((e', length ?gs), None)" "hll.engine_ok env R e'"
    "engine_view hll_view e' = (\<lambda>g. if g \<in> set ?gs then Some (hll_view (the (eng_groups e g)))
      else engine_view hll_view (NewEngine (hll_Algorithm env R)) g)"
    by (auto simp: L)
  moreover from this(3) have "engine_view hll_view e' = engine_view hll_view e"
    using fin by (auto simp: engine_view_def NewEngine_def fun_eq_iff domIff)
  ultimately show ?thesis by auto
qed

section \<open>Rings from flags\<close>

lemma AddNodes:
  assumes "ring_inv r" and "ran (nodeMap r) \<subseteq> A"
  shows "ring_inv (fold (\<lambda>addr r. AddNode sum32 r addr) addrs r)
    \<and> ran (nodeMap (fold (\<lambda>addr r. AddNode sum32 r addr) addrs r)) \<subseteq> A \<union> set addrs
    \<and> (addrs \<noteq> [] \<longrightarrow> ring (fold (\<lambda>addr r. AddNode sum32 r addr) addrs r) \<noteq> [])"
  using assms
proof (induction addrs arbitrary: r A)
  case (Cons addr addrs)
  have "ran (nodeMap (AddNode sum32 r addr)) \<subseteq> insert addr A"
    using Cons.prems(2) by (auto simp: AddNode_nodeMap ran_def split: if_splits)
  from Cons.IH [OF ring_inv_AddNode [OF Cons.prems(1)] this] show ?case
    by (cases addrs) (auto simp: AddNode_nonempty)
qed simp

lemma strings_Split_nonempty: "strings_Split c s \<noteq> []"
  by (cases s) (auto split: list.split)

text \<open>Joining the parts gives the string back.\<close>

lemma strings_Split_join: "concat (map (\<lambda>p. p @ [c]) (strings_Split c s)) = s @ [c]"
  by (induction s) (auto split: list.splits simp: strings_Split_nonempty)

lemma length_strings_Split: "length (strings_Split c s) \<le> Suc (length s)"
  by (induction s) (auto split: list.splits)

lemma sint_small:
  assumes "unat x < 2 ^ 63" shows "sint (x :: u64) = int (unat x)"
proof -
  have "int (unat x) < 2 ^ 63" using assms by (metis of_nat_less_iff of_nat_numeral of_nat_power)
  moreover have "- (2 ^ 63) \<le> uint x" by (rule order_trans [of _ 0]) simp_all
  ultimately have "signed_take_bit 63 (uint x) = uint x" by (intro signed_take_bit_int_eq_self) simp_all
  then show ?thesis by (simp add: sint_uint)
qed

lemma sint_large:
  assumes "2 ^ 63 \<le> unat x" shows "sint (x :: u64) < 0"
proof (rule ccontr)
  assume "\<not> sint x < 0"
  moreover have "sint x < 2 ^ 63" using sint_lt [of x] by simp
  ultimately have "uint x = sint x" unfolding uint_sint [of x] by (intro take_bit_int_eq_self) auto
  moreover have "2 ^ 63 \<le> int (unat x)" using assms by (metis of_nat_le_iff of_nat_numeral of_nat_power)
  ultimately show False using \<open>sint x < 2 ^ 63\<close> by simp
qed

text \<open>A node id beyond the signed range passes the guard in front of the index and panics.\<close>

lemma ring_and_self_panic:
  assumes "peersFlag fl \<noteq> []" and "2 ^ 63 \<le> unat (nodeID fl)" and "length (peersFlag fl) < 2 ^ 62"
  shows "ring_and_self sum32 fl = Panic ''index out of range''"
proof -
  let ?n = "length (strings_Split (CHR '','') (peersFlag fl))"
  have "nodeID fl \<noteq> 0" using assms(2) by auto
  moreover from this have "unat (nodeID fl - 1) = unat (nodeID fl) - 1" by (rule unat_minus_one)
  then have "\<not> unat (nodeID fl - 1) < ?n"
    using length_strings_Split [of "CHR '',''" "peersFlag fl"] assms(2,3) by simp
  moreover have "sint (nodeID fl) \<le> int ?n" using sint_large [OF assms(2)] by simp
  ultimately show ?thesis using assms(1) by (simp add: ring_and_self_def Let_def word_neq_0_conv)
qed

section \<open>Brackets\<close>

text \<open>What releases what, and traces in which everything acquired is released in reverse order.\<close>

fun release_of :: "('s, 'db, 'n, 'm) effect \<Rightarrow> ('s, 'db, 'n, 'm) effect option" where
  "release_of StoreOpen = Some StoreClose"
| "release_of (NodeRun _) = Some NodeStop"
| "release_of (ServerNew _ _) = Some ServerClose"
| "release_of ContextWithCancel = Some ContextCancel"
| "release_of ShutdownContext = Some ShutdownCancel"
| "release_of _ = None"

fun is_release :: "('s, 'db, 'n, 'm) effect \<Rightarrow> bool" where
  "is_release StoreClose = True"
| "is_release NodeStop = True"
| "is_release ServerClose = True"
| "is_release ContextCancel = True"
| "is_release ShutdownCancel = True"
| "is_release _ = False"

fun bracketed :: "('s, 'db, 'n, 'm) effect list \<Rightarrow> ('s, 'db, 'n, 'm) effect list \<Rightarrow> bool" where
  "bracketed stk [] \<longleftrightarrow> stk = []"
| "bracketed stk (x # xs) \<longleftrightarrow>
     (case release_of x of
        Some r \<Rightarrow> bracketed (r # stk) xs
      | None \<Rightarrow> if is_release x then stk \<noteq> [] \<and> hd stk = x \<and> bracketed (tl stk) xs else bracketed stk xs)"

fun serves :: "('s, 'db, 'n, 'm) effect \<Rightarrow> bool" where
  "serves (GrpcServe _) = True"
| "serves (HttpServe _) = True"
| "serves (MetricsServe _) = True"
| "serves _ = False"

lemma perform_simps [simp]: "fst (perform x l) = x # fst l" "snd (perform x l) = snd l"
  by (simp_all add: perform_def)

lemma deferring_simps [simp]: "fst (deferring x l) = fst l @ [x]" "snd (deferring x l) = snd l"
  by (simp_all add: deferring_def)

lemma fails_simps [simp]: "fst (fails what e) = []" "snd (fails what e) = Return (Some (ErrWrap what e))"
  by (simp_all add: fails_def)

text \<open>What \<open>run_serve\<close> contributes is bracketed within any open brackets.\<close>

lemma bracketed_run_serve:
  "is_release x \<Longrightarrow> release_of x = None \<Longrightarrow>
   bracketed (x # stk) (fst (run_serve env fl) @ x # rest) = bracketed stk rest"
  by (auto simp: run_serve_def run_shutdown_def split: option.split)

section \<open>Properties\<close>


definition demo_env :: "(u64 set Sketch, (bytes \<times> bytes) list, bytes list, unit) main_env" where
  "demo_env = \<lparr>me_node = ref_env, me_alg = hll_Algorithm (example_env 0) ref_roaring, me_sum32 = (\<lambda>_. 0),
     me_Listen = (\<lambda>_. None), me_Gateway = (\<lambda>_. None)\<rparr>"

lemma restore_ref_store: "restore_engine alg ref_badger ref_store = ((NewEngine alg, 0), None)"
  by (simp add: restore_engine_def badger_spec.LoadAll_eq [OF ref_db.badger_spec_axioms] stored_groups_def ref_store_def)

lemma demo_run: "main_exit demo_env default_flags = Return 0"
proof -
  have "Open ref_badger ''/tmp/cardinality-data'' = Inr ref_store"
    by (simp add: Open_def ref_defs)
  then show ?thesis
    by (simp add: restore_ref_store main_exit_def run_def demo_env_def ref_env_def default_flags_def ring_and_self_def run_serve_def
        run_shutdown_def Let_def)
qed


text \<open>C26: routing set up from the command line. With a peers flag that lists non-empty addresses and
  a node id that numbers one of them, \<^verbatim>\<open>run\<close> builds a well-formed, non-empty ring whose owners are
  listed addresses only and takes the address at the node's position as its own; so every group
  resolves to a listed, non-empty address, which is what forwarding relies on.\<close>

theorem startup_routing:
  assumes "peersFlag fl \<noteq> []" and "addrs = strings_Split (CHR '','') (peersFlag fl)" and "[] \<notin> set addrs"
    and "1 \<le> unat (nodeID fl)" and "unat (nodeID fl) \<le> length addrs" and "length (peersFlag fl) < 2 ^ 62"
  shows "\<exists>rg. ring_and_self sum32 fl = Return (Some rg, addrs ! (unat (nodeID fl) - 1))
    \<and> ring_inv rg \<and> ring rg \<noteq> [] \<and> ran (nodeMap rg) \<subseteq> set addrs
    \<and> (\<forall>g. Resolve sum32 rg g \<in> set addrs - {[]})"
proof -
  define rg where "rg = fold (\<lambda>addr r. AddNode sum32 r addr) addrs router_New"
  have "addrs \<noteq> []" by (simp add: assms(2) strings_Split_nonempty)
  then have rg: "ring_inv rg" "ran (nodeMap rg) \<subseteq> set addrs" "ring rg \<noteq> []"
    using AddNodes [OF ring_inv_New, of "{}" sum32 addrs] by (auto simp: rg_def router_New_def)
  have small: "unat (nodeID fl) < 2 ^ 63"
    using assms(2,5,6) length_strings_Split [of "CHR '',''" "peersFlag fl"] by simp
  have "nodeID fl \<noteq> 0" using assms(4) by auto
  then have "unat (nodeID fl - 1) = unat (nodeID fl) - 1" "nodeID fl > 0"
    by (simp_all add: unat_minus_one word_neq_0_conv)
  moreover have "sint (nodeID fl) \<le> int (length addrs)"
    unfolding sint_small [OF small] using assms(5) by (simp only: of_nat_le_iff)
  ultimately have "ring_and_self sum32 fl = Return (Some rg, addrs ! (unat (nodeID fl) - 1))"
    using assms(1,4,5) by (simp add: ring_and_self_def Let_def rg_def assms(2) [symmetric])
  moreover have "Resolve sum32 rg g \<in> set addrs - {[]}" for g
    using Resolve_ran [OF rg(1,3), of sum32 g] rg(2) assms(3) by auto
  ultimately show ?thesis using rg by blast
qed

theorem startup_routing_witness:
  "\<exists>rg. ring_and_self (\<lambda>_. 0) (default_flags\<lparr>nodeID := 2, peersFlag := ''a:1,b:2''\<rparr>) = Return (Some rg, ''b:2'')
    \<and> Resolve (\<lambda>_. 0) rg ''g'' \<in> {''a:1'', ''b:2''}"
proof -
  have s: "strings_Split (CHR '','') ''a:1,b:2'' = [''a:1'', ''b:2'']" by simp
  have "\<exists>rg. ring_and_self (\<lambda>_. 0) (default_flags\<lparr>nodeID := 2, peersFlag := ''a:1,b:2''\<rparr>)
      = Return (Some rg, [''a:1'', ''b:2''] ! (unat (2 :: u64) - 1))
    \<and> ring_inv rg \<and> ring rg \<noteq> [] \<and> ran (nodeMap rg) \<subseteq> set [''a:1'', ''b:2'']
    \<and> (\<forall>g. Resolve (\<lambda>_. 0) rg g \<in> set [''a:1'', ''b:2''] - {[]})"
    using startup_routing [of "default_flags\<lparr>nodeID := 2, peersFlag := ''a:1,b:2''\<rparr>" "[''a:1'', ''b:2'']" "\<lambda>_. 0"] s
    by (simp add: default_flags_def)
  then show ?thesis by auto
qed

end
