(* ===== verification/Recovery.thy ===== *)
theory Recovery
  imports Startup
begin

text \<open>
  Crashes and restarts of the process of \<^verbatim>\<open>cmd/server\<close>. A life begins with rebuilding the engine from
  the store, as \<^verbatim>\<open>run\<close> does, continues with any run of the Raft node from there, and ends at any
  point: of the node only its store survives, since the Raft log is in memory.
\<close>

inductive lives ::
    "('db, 'n, 'm) node_env \<Rightarrow> 's algorithm \<Rightarrow> 'db BadgerStore \<Rightarrow> node_event list \<Rightarrow> 'db BadgerStore \<Rightarrow> bool"
  for env alg st0 where
  lives_none: "lives env alg st0 [] st0"
| lives_crash: "lives env alg st0 evs st \<Longrightarrow> restore_engine alg (ne_badger env) st = ((e, k), None) \<Longrightarrow>
    node_run env (node_sys_init (NewNode env i peers e st)) evs' s \<Longrightarrow>
    lives env alg st0 (evs @ evs') (nd_store (sys_node s))"

lemma requested_append_all: "requested (evs @ evs') = requested evs \<union> requested evs'"
  by (auto simp: requested_def)

context sketch_contract
begin

lemma run_adds_view_cong:
  assumes "engine_ok e" and "engine_ok f" and "engine_view view e = engine_view view f"
  shows "engine_view view (run_adds ops e) = engine_view view (run_adds ops f)"
  using assms by (auto simp: run_adds_view fun_eq_iff)

end

text \<open>One life: from a mirrored store to a mirrored store.\<close>

lemma life_mirrors:
  assumes "node_world L proposed B contents env" and "mirrors (stored_groups contents st) e"
    and "node_run env (node_sys_init (NewNode env i peers e st)) evs s" and "\<forall>(g, x) \<in> requested evs. saves_ok B g"
  shows "\<exists>ops. set ops \<subseteq> requested evs \<and> nd_engine (sys_node s) = run_adds ops e
    \<and> mirrors (stored_groups contents (nd_store (sys_node s))) (nd_engine (sys_node s))"
  using node_world.node_run_inv [OF assms(1,3) node_world.sys_inv_init [OF assms(1,2)]] assms(4)
  unfolding node_world.sys_inv_def [OF assms(1)] node_world.node_inv_def [OF assms(1)] by blast

text \<open>A rebuilt engine is mirrored by the store it was rebuilt from.\<close>

lemma hll_restore:
  assumes "badger_spec B contents" and "hll.engine_ok henv R e" and "mirrors (stored_groups contents st) e"
  shows "\<exists>e' k. restore_engine (hll_Algorithm henv R) B st = ((e', k), None) \<and> hll.engine_ok henv R e'
    \<and> engine_view hll_view e' = engine_view hll_view e \<and> mirrors (stored_groups contents st) e'"
proof -
  obtain e' where e': "restore_engine (hll_Algorithm henv R) B st = ((e', card (dom (eng_groups e))), None)"
    "hll.engine_ok henv R e'" "engine_view hll_view e' = engine_view hll_view e"
    using hll_restore_mirrored [OF assms] by blast
  have "sk_Bytes (hll_Algorithm henv R) = Sketch_Bytes R" by (simp add: hll_Algorithm_def)
  then have "mirrors (stored_groups contents st) e'"
    using assms(3) hll_same_view_same_bytes [OF e'(2) assms(2) e'(3)]
    by (simp add: mirrors_def hll.engine_ok_alg [OF assms(2)] hll.engine_ok_alg [OF e'(2)])
  with e' show ?thesis by blast
qed

text \<open>After any number of lives the store mirrors an engine that received requested additions only.\<close>

lemma lives_mirrors:
  assumes "node_world L proposed B contents env" and "lives env (hll_Algorithm henv R) st0 evs st"
    and "stored_groups contents st0 = Map.empty" and "\<forall>(g, x) \<in> requested evs. saves_ok B g"
  shows "\<exists>e ops. hll.engine_ok henv R e \<and> mirrors (stored_groups contents st) e \<and> set ops \<subseteq> requested evs
    \<and> engine_view hll_view e = engine_view hll_view (run_adds ops (NewEngine (hll_Algorithm henv R)))"
  using assms(2,4)
proof (induction rule: lives.induct)
  case lives_none
  have "mirrors (stored_groups contents st0) (NewEngine (hll_Algorithm henv R))"
    by (simp add: assms(3) mirrors_def NewEngine_def)
  then show ?case
    using hll.engine_ok_NewEngine by (intro exI [of _ "NewEngine (hll_Algorithm henv R)"] exI [of _ "[]"]) simp
next
  case (lives_crash evs st e k i peers evs' s)
  let ?e0 = "NewEngine (hll_Algorithm henv R)"
  have db: "badger_spec B contents" and B: "ne_badger env = B"
    using assms(1) by (simp_all add: node_world_def node_world_axioms_def)
  obtain e1 ops where e1: "hll.engine_ok henv R e1" "mirrors (stored_groups contents st) e1" "set ops \<subseteq> requested evs"
    "engine_view hll_view e1 = engine_view hll_view (run_adds ops ?e0)"
    using lives_crash.IH lives_crash.prems by (auto simp: requested_append_all)
  obtain e' k' where "restore_engine (hll_Algorithm henv R) B st = ((e', k'), None)" "hll.engine_ok henv R e'"
    "engine_view hll_view e' = engine_view hll_view e1" "mirrors (stored_groups contents st) e'"
    using hll_restore [OF db e1(1,2)] by blast
  then have e: "hll.engine_ok henv R e" "engine_view hll_view e = engine_view hll_view e1"
    "mirrors (stored_groups contents st) e"
    using lives_crash.hyps(2) by (simp_all add: B)
  obtain ops' where s: "set ops' \<subseteq> requested evs'" "nd_engine (sys_node s) = run_adds ops' e"
    "mirrors (stored_groups contents (nd_store (sys_node s))) (nd_engine (sys_node s))"
    using life_mirrors [OF assms(1) e(3) lives_crash.hyps(3)] lives_crash.prems by (auto simp: requested_append_all)
  have "engine_view hll_view (run_adds ops' e) = engine_view hll_view (run_adds ops' (run_adds ops ?e0))"
    using e(2) e1(4) by (intro hll.run_adds_view_cong [OF e(1) hll.run_adds_ok [OF hll.engine_ok_NewEngine]]) simp
  moreover have "run_adds ops' (run_adds ops ?e0) = run_adds (ops @ ops') ?e0" by (simp add: run_adds_def)
  ultimately show ?case
    using s e1(3) hll.run_adds_ok [OF e(1), of ops']
    by (intro exI [of _ "run_adds ops' e"] exI [of _ "ops @ ops'"]) (auto simp: requested_append_all)
qed

end
