(* ===== verification/Raft_Service.thy ===== *)
theory Raft_Service
  imports Grpc_Service Recovery
begin

text \<open>
  The configuration \<^verbatim>\<open>cmd/server\<close> runs: the service hands every addition to the Raft node, which
  works concurrently. The external world of the server is the node with its channels; engine and
  store are shared by pointer, so the server sees those of the node.
\<close>

section \<open>ProposeAdd as a call\<close>

text \<open>Steps of the node while a caller is blocked: everything except a new proposal.\<close>

definition internal_run :: "('db, 'n, 'm) node_env \<Rightarrow> ('s, 'db, 'n, 'm) node_sys \<Rightarrow> ('s, 'db, 'n, 'm) node_sys \<Rightarrow> bool" where
  "internal_run env s s' \<longleftrightarrow> (\<exists>evs. node_run env s evs s' \<and> requested evs = {})"

text \<open>A whole call: wait for the first \<^verbatim>\<open>select\<close>, return its error, or hand the proposal over, wait for
  the second and return what it delivers.\<close>

inductive ProposeAdd ::
    "('db, 'n, 'm) node_env \<Rightarrow> err \<Rightarrow> string \<Rightarrow> u64 \<Rightarrow> ('s, 'db, 'n, 'm) node_sys \<Rightarrow> ('s, 'db, 'n, 'm) node_sys \<Rightarrow> err \<Rightarrow> bool"
  for env ctx g x where
  refused: "internal_run env s s1 \<Longrightarrow> Inl e \<in> set (ProposeAdd_send env ctx s1 g x) \<Longrightarrow>
    ProposeAdd env ctx g x s s1 (Some e)"
| answered: "internal_run env s s1 \<Longrightarrow> Inr (s2, k) \<in> set (ProposeAdd_send env ctx s1 g x) \<Longrightarrow>
    internal_run env s2 s3 \<Longrightarrow> er \<in> set (ProposeAdd_wait ctx s3 k) \<Longrightarrow>
    ProposeAdd env ctx g x s s3 er"

type_synonym ('s, 'db, 'n, 'm) raft_world = "('s, 'db, ('s, 'db, 'n, 'm) node_sys) world"

definition coupled :: "('s, 'db, 'n, 'm) raft_world \<Rightarrow> bool" where
  "coupled w \<longleftrightarrow> w_engine w = nd_engine (sys_node (w_ext w)) \<and> w_store w = nd_store (sys_node (w_ext w))"

text \<open>A \<^verbatim>\<open>RaftNode\<close> of the server that is this node.\<close>

definition is_node ::
    "('db, 'n, 'm) node_env \<Rightarrow> ('s, 'db, ('s, 'db, 'n, 'm) node_sys) RaftNode \<Rightarrow> bool" where
  "is_node env propose \<longleftrightarrow> (\<forall>g x w w' er. coupled w \<longrightarrow> propose g x w = (w', er) \<longrightarrow>
     coupled w' \<and> (\<exists>ctx. ProposeAdd env ctx g x (w_ext w) (w_ext w') er))"

section \<open>Runs of the node under a sequence of calls\<close>

lemma node_run_trans:
  "node_run env s evs' s' \<Longrightarrow> node_run env s0 evs s \<Longrightarrow> node_run env s0 (evs @ evs') s'"
proof (induction rule: node_run.induct)
  case (run_step evs' s' ev s'')
  then show ?case using node_run.run_step [of env s0 "evs @ evs'" s' ev s''] by simp
qed simp

lemma internal_run_trans:
  assumes "node_run env s0 evs s" and "internal_run env s s'"
  obtains evs' where "node_run env s0 evs' s'" and "requested evs' = requested evs"
  using assms node_run_trans [of env s _ s' s0 evs]
  by (auto simp: internal_run_def requested_append_all) (metis requested_append_all sup_bot_right)

lemma ProposeAdd_run:
  assumes "ProposeAdd env ctx g x s s' er" and "node_run env s0 evs s"
  shows "\<exists>evs'. node_run env s0 evs' s' \<and> requested evs' \<subseteq> insert (g, x) (requested evs)"
  using assms
proof (induction rule: ProposeAdd.induct)
  case (refused s s1 e)
  then obtain evs' where "node_run env s0 evs' s1" "requested evs' = requested evs"
    using internal_run_trans by blast
  then show ?case by blast
next
  case (answered s s1 s2 k s3 er)
  obtain e1 where e1: "node_run env s0 e1 s1" "requested e1 = requested evs"
    using internal_run_trans [OF answered.prems answered.hyps(1)] by blast
  have "node_run env s0 (e1 @ [EvProposeAdd g x]) s2"
    using node_run.run_step [OF e1(1) propose_send [OF answered.hyps(2)]] .
  then obtain e2 where "node_run env s0 e2 s3" "requested e2 = requested (e1 @ [EvProposeAdd g x])"
    using internal_run_trans answered.hyps(3) by blast
  with e1(2) show ?case by auto
qed

text \<open>The world of a server on this node, after calls that asked for the additions \<open>A\<close>.\<close>

definition node_served ::
    "('db, 'n, 'm) node_env \<Rightarrow> ('s, 'db, 'n, 'm) node_sys \<Rightarrow> (string \<times> u64) set \<Rightarrow> ('s, 'db, 'n, 'm) raft_world \<Rightarrow> bool" where
  "node_served env s0 A w \<longleftrightarrow> coupled w \<and> (\<exists>evs. node_run env s0 evs (w_ext w) \<and> requested evs \<subseteq> A)"

lemma node_served_mono: "node_served env s0 A w \<Longrightarrow> A \<subseteq> A' \<Longrightarrow> node_served env s0 A' w"
  unfolding node_served_def by blast

lemma node_served_propose:
  assumes "is_node env propose" and "node_served env s0 A w"
  shows "node_served env s0 (insert (g, x) A) (fst (propose g x w))"
proof -
  obtain w' er where p: "propose g x w = (w', er)" by (cases "propose g x w")
  obtain evs where e: "coupled w" "node_run env s0 evs (w_ext w)" "requested evs \<subseteq> A"
    using assms(2) by (auto simp: node_served_def)
  have "coupled w' \<and> (\<exists>ctx. ProposeAdd env ctx g x (w_ext w) (w_ext w') er)"
    using assms(1) e(1) p unfolding is_node_def by blast
  then show ?thesis
    using ProposeAdd_run [OF _ e(2)] e(3) p unfolding node_served_def by fastforce
qed

text \<open>Background work of the node.\<close>

lemma node_served_internal:
  assumes "node_served env s0 A w" and "internal_run env (w_ext w) s"
  shows "node_served env s0 A \<lparr>w_engine = nd_engine (sys_node s), w_store = nd_store (sys_node s), w_ext = s\<rparr>"
proof -
  obtain evs where "node_run env s0 evs (w_ext w)" "requested evs \<subseteq> A" using assms(1) by (auto simp: node_served_def)
  then have "\<exists>evs'. node_run env s0 evs' s \<and> requested evs' \<subseteq> A"
    using internal_run_trans [OF _ assms(2)] by metis
  then show ?thesis by (simp add: node_served_def coupled_def)
qed

definition raft_server ::
    "('db, 'n, 'm) node_env \<Rightarrow> ('s, 'db, ('s, 'db, 'n, 'm) node_sys) RaftNode \<Rightarrow> ('s, 'db, 'n, 'm) node_sys \<Rightarrow>
     (string \<times> u64) set \<Rightarrow> ('s, 'db, ('s, 'db, 'n, 'm) node_sys, 'c) srv_state \<Rightarrow> bool" where
  "raft_server env propose s0 A sw \<longleftrightarrow> srv_node (fst sw) = Some propose \<and> srv_router (fst sw) = None
     \<and> node_served env s0 A (snd sw)"

lemma raft_server_mono: "raft_server env propose s0 A sw \<Longrightarrow> A \<subseteq> A' \<Longrightarrow> raft_server env propose s0 A' sw"
  using node_served_mono [of env s0 A _ A'] by (simp add: raft_server_def)

lemma raft_server_metrics [simp]:
  "raft_server env propose s0 A (upd_metrics f sw) = raft_server env propose s0 A sw"
  by (simp add: raft_server_def)

lemma raft_server_addID:
  assumes "is_node env propose" and "raft_server env propose s0 A sw"
  shows "raft_server env propose s0 (insert (g, x) A) (fst (addID senv method g x sw))"
proof -
  obtain srv w where sw: "sw = (srv, w)" by (cases sw)
  obtain w' er where p: "propose g x w = (w', er)" by (cases "propose g x w")
  have srv: "srv_node srv = Some propose" "srv_router srv = None" "node_served env s0 A w"
    using assms(2) by (simp_all add: raft_server_def sw)
  have "raft_server env propose s0 (insert (g, x) A) (srv, w')"
    using srv node_served_propose [OF assms(1) srv(3), of g x] p by (simp add: raft_server_def)
  moreover have "forward_owner senv srv g = None" using srv(2) by (simp add: forward_owner_def)
  ultimately show ?thesis using srv(1) p by (simp add: addID_def sw split: option.split)
qed

text \<open>So the node behind the service keeps it under every call: the service only reaches the node
  through local additions, since without a ring nothing is forwarded.\<close>

locale raft_caller =
  fixes env :: "('db, 'n, 'm) node_env" and propose :: "('s, 'db, ('s, 'db, 'n, 'm) node_sys) RaftNode"
    and s0 :: "('s, 'db, 'n, 'm) node_sys" and senv :: "('s, 'db, ('s, 'db, 'n, 'm) node_sys, 'c) server_env"
  assumes is_node: "is_node env propose"
begin

lemma raft_server_no_forward: "raft_server env propose s0 A sw \<Longrightarrow> forward_owner senv (fst sw) g = None"
  by (simp add: forward_owner_def raft_server_def)

end

sublocale raft_caller \<subseteq> handler_inv senv "raft_server env propose s0"
proof (unfold_locales, goal_cases)
  case (3 A sw g x meth)
  then show ?case using raft_server_addID [OF is_node] by blast
qed (auto simp: raft_server_no_forward intro: raft_server_mono)

context raft_caller
begin

lemmas raft_server_calls = P_calls

end

section \<open>A reference caller\<close>

text \<open>A caller of the reference node that finds its channel empty: the event loop takes the proposal,
  a goroutine proposes it, and the batch with it is applied before the caller sees the reply. With
  other proposals around, the caller's context has ended.\<close>

definition ref_propose :: "(u64 set Sketch, (bytes \<times> bytes) list, (u64 set Sketch, (bytes \<times> bytes) list, bytes list, unit) node_sys) RaftNode" where
  "ref_propose g x w =
     (let s = w_ext w in
      case ref_pb_Marshal (add_command g x) of
        Inl e \<Rightarrow> (w, Some e)
      | Inr data \<Rightarrow>
          if sys_proposeC s = [] \<and> sys_inflight s = [] \<and> \<not> sys_doneC s then
            let n = (sys_node s)\<lparr>nd_node := nd_node (sys_node s) @ [data]\<rparr>;
                n' = (case handleReady ref_env n \<lparr>rd_Entries = [], rd_CommittedEntries =
                    map (\<lambda>d. \<lparr>ent_Type = EntryNormal, ent_Index = 1, ent_Data = d\<rparr>) (nd_node n)\<rparr> of
                  Return n' \<Rightarrow> n' | Panic _ \<Rightarrow> n)
            in (\<lparr>w_engine = nd_engine n', w_store = nd_store n',
                 w_ext = s\<lparr>sys_node := n', sys_results := (sys_results s)(sys_next s \<mapsto> None), sys_next := Suc (sys_next s)\<rparr>\<rparr>,
                None)
          else (w, Some (ErrExternal ''context canceled'')))"

lemma internal_run_refl: "internal_run env s s"
  unfolding internal_run_def using node_run.run_init by (intro exI [of _ "[]"]) (simp add: requested_def)

lemma internal_run_step: "internal_run env s s' \<Longrightarrow> node_step env s' EvInternal s'' \<Longrightarrow> internal_run env s s''"
  unfolding internal_run_def using node_run.run_step by (metis requested_append(1))

lemma ref_propose_answered:
  assumes "sys_proposeC s = []" and "sys_inflight s = []" and "\<not> sys_doneC s"
    and "ref_pb_Marshal (add_command g x) = Inr data"
    and "n = (sys_node s)\<lparr>nd_node := nd_node (sys_node s) @ [data]\<rparr>"
    and "n' = n \<or> (\<exists>rd. er_Ready ref_raft (nd_node n) rd \<and> handleReady ref_env n rd = Return n')"
  shows "ProposeAdd ref_env None g x s
    (s\<lparr>sys_node := n', sys_results := (sys_results s)(sys_next s \<mapsto> None), sys_next := Suc (sys_next s)\<rparr>) None"
proof -
  define s1 where "s1 = s\<lparr>sys_proposeC := sys_proposeC s @ [(sys_next s, data)], sys_next := Suc (sys_next s)\<rparr>"
  define s2 where "s2 = s1\<lparr>sys_proposeC := [], sys_inflight := sys_inflight s1 @ [(sys_next s, data)]\<rparr>"
  define s3 where "s3 = s2\<lparr>sys_node := (sys_node s2)\<lparr>nd_node := nd_node (sys_node s2) @ [data]\<rparr>, sys_inflight := [] @ [],
    sys_results := (sys_results s2)(sys_next s \<mapsto> None)\<rparr>"
  have send: "Inr (s1, sys_next s) \<in> set (ProposeAdd_send ref_env None s g x)"
    using assms(1,4) by (simp add: ProposeAdd_send_def ref_env_def proposeC_cap_def s1_def)
  have "node_step ref_env s1 EvInternal s2"
    unfolding s2_def using assms(1,3) by (intro run_take) (simp_all add: s1_def)
  then have i2: "internal_run ref_env s1 s2" using internal_run_step internal_run_refl by blast
  have "node_step ref_env s2 EvInternal s3"
    unfolding s3_def using assms(2) by (intro go_propose) (simp_all add: s2_def s1_def ref_env_def ref_raft_def)
  with i2 have i3: "internal_run ref_env s1 s3" using internal_run_step by blast
  have n: "sys_node s3 = n" "sys_doneC s3 = sys_doneC s" by (simp_all add: s3_def s2_def s1_def assms(5))
  have "internal_run ref_env s1 (s3\<lparr>sys_node := n'\<rparr>)"
    using assms(6)
  proof
    assume "n' = n"
    then have "s3\<lparr>sys_node := n'\<rparr> = s3" using n(1) by simp
    with i3 show ?thesis by simp
  next
    assume "\<exists>rd. er_Ready ref_raft (nd_node n) rd \<and> handleReady ref_env n rd = Return n'"
    then obtain rd where "er_Ready ref_raft (nd_node n) rd" "handleReady ref_env n rd = Return n'" by blast
    then have "node_step ref_env s3 EvInternal (s3\<lparr>sys_node := n'\<rparr>)"
      using assms(3) n by (intro run_ready [where rd = rd]) (simp_all add: ref_env_def)
    with i3 show ?thesis using internal_run_step by blast
  qed
  moreover have "None \<in> set (ProposeAdd_wait None (s3\<lparr>sys_node := n'\<rparr>) (sys_next s))"
    by (simp add: ProposeAdd_wait_def s3_def)
  ultimately have "ProposeAdd ref_env None g x s (s3\<lparr>sys_node := n'\<rparr>) None"
    by (rule answered [OF internal_run_refl send])
  moreover have "s3\<lparr>sys_node := n'\<rparr>
      = s\<lparr>sys_node := n', sys_results := (sys_results s)(sys_next s \<mapsto> None), sys_next := Suc (sys_next s)\<rparr>"
    using assms(1,2) by (simp add: s3_def s2_def s1_def)
  ultimately show ?thesis by simp
qed

lemma is_node_ref_propose: "is_node ref_env ref_propose"
  unfolding is_node_def
proof (intro allI impI)
  fix g x w w' er
  assume c: "coupled w" and p: "ref_propose g x w = (w', er)"
  let ?s = "w_ext w"
  let ?idle = "sys_proposeC ?s = [] \<and> sys_inflight ?s = [] \<and> \<not> sys_doneC ?s"
  have m: "ne_Marshal ref_env = ref_pb_Marshal" by (simp add: ref_env_def)
  show "coupled w' \<and> (\<exists>ctx. ProposeAdd ref_env ctx g x (w_ext w) (w_ext w') er)"
  proof (cases "ref_pb_Marshal (add_command g x)")
    case (Inl e)
    then have "Inl e \<in> set (ProposeAdd_send ref_env None ?s g x)" by (simp add: ProposeAdd_send_def m)
    moreover have "w' = w" "er = Some e" using p Inl by (simp_all add: ref_propose_def)
    ultimately show ?thesis using c refused [OF internal_run_refl] by blast
  next
    case (Inr data)
    show ?thesis
    proof (cases ?idle)
      case False
      let ?e = "ErrExternal ''context canceled''"
      have "Inl ?e \<in> set (ProposeAdd_send ref_env (Some ?e) ?s g x)" using Inr by (simp add: ProposeAdd_send_def m)
      moreover have "w' = w" "er = Some ?e" using p Inr False by (auto simp: ref_propose_def)
      ultimately show ?thesis using c refused [OF internal_run_refl] by blast
    next
      case True
      define n where "n = (sys_node ?s)\<lparr>nd_node := nd_node (sys_node ?s) @ [data]\<rparr>"
      define rd where "rd = \<lparr>rd_Entries = [], rd_CommittedEntries =
        map (\<lambda>d. \<lparr>ent_Type = EntryNormal, ent_Index = 1, ent_Data = d\<rparr>) (nd_node n)\<rparr>"
      define n' where "n' = (case handleReady ref_env n rd of Return n' \<Rightarrow> n' | Panic _ \<Rightarrow> n)"
      have "er_Ready ref_raft (nd_node n) rd" by (simp add: ref_raft_def rd_def)
      then have "n' = n \<or> (\<exists>rd. er_Ready ref_raft (nd_node n) rd \<and> handleReady ref_env n rd = Return n')"
        unfolding n'_def by (cases "handleReady ref_env n rd") auto
      moreover have "ref_propose g x w = (\<lparr>w_engine = nd_engine n', w_store = nd_store n',
          w_ext = ?s\<lparr>sys_node := n', sys_results := (sys_results ?s)(sys_next ?s \<mapsto> None), sys_next := Suc (sys_next ?s)\<rparr>\<rparr>, None)"
        using Inr True by (simp only: ref_propose_def n_def n'_def rd_def Let_def sum.case) simp
      ultimately show ?thesis
        using ref_propose_answered [OF _ _ _ Inr n_def, of n'] True p by (auto simp: coupled_def)
    qed
  qed
qed

section \<open>Properties\<close>

text \<open>C3: the service end to end. Start a server on a Raft node over a store that mirrors its engine
  and let any sequence of calls arrive, each of them with the node's event loop, its goroutines
  and the Raft library interleaving in any way. Then the engine that queries read is the initial
  one with some of the ids that callers asked to add, under the groups they named; a query adds
  nothing and a malformed call adds nothing; and while the saves succeed, what the store holds
  is exactly that engine.\<close>

theorem raft_service_safety:
  assumes "node_world L proposed B contents env" and "is_node env propose" and "mirrors (stored_groups contents st) e0"
    and "s0 = node_sys_init (NewNode env i peers e0 st)"
    and "sw = fold (serve senv code) rpcs
      (server_New (Some propose) None selfAddr, \<lparr>w_engine = e0, w_store = st, w_ext = s0\<rparr>)"
    and "A = (\<Union>r \<in> set rpcs. rpc_adds r)"
  shows "(\<exists>ops. set ops \<subseteq> A \<and> w_engine (snd sw) = run_adds ops e0)
    \<and> ((\<forall>(g, x) \<in> A. saves_ok B g) \<longrightarrow> mirrors (stored_groups contents (w_store (snd sw))) (w_engine (snd sw)))"
proof -
  have "raft_server env propose s0 {} (server_New (Some propose) None selfAddr, \<lparr>w_engine = e0, w_store = st, w_ext = s0\<rparr>)"
    using node_run.run_init [of env s0]
    by (auto simp: raft_server_def node_served_def server_New_def coupled_def assms(4) node_sys_init_def NewNode_def Let_def requested_def
        intro!: exI [of _ "[]"])
  from raft_caller.raft_server_calls [OF raft_caller.intro [OF assms(2)] this, of rpcs senv code] obtain evs where
    "coupled (snd sw)" and evs: "node_run env s0 evs (w_ext (snd sw))" "requested evs \<subseteq> A"
    by (auto simp: raft_server_def node_served_def assms(5,6))
  then have c: "w_engine (snd sw) = nd_engine (sys_node (w_ext (snd sw)))"
    "w_store (snd sw) = nd_store (sys_node (w_ext (snd sw)))" by (simp_all add: coupled_def)
  have run: "node_run env (node_sys_init (NewNode env i peers e0 st)) evs (w_ext (snd sw))"
    using evs(1) by (simp add: assms(4))
  show ?thesis
    using node_world.node_run_inv [OF assms(1) run node_world.sys_inv_init [OF assms(1,3)]] evs(2)
    unfolding c node_world.sys_inv_def [OF assms(1)] node_world.node_inv_def [OF assms(1)] by blast
qed

definition ref_senv ::
    "(u64 set Sketch, (bytes \<times> bytes) list, (u64 set Sketch, (bytes \<times> bytes) list, bytes list, unit) node_sys, unit) server_env" where
  "ref_senv = \<lparr>se_sum32 = (\<lambda>_. 0), se_badger = ref_badger, se_Dial = (\<lambda>_ _ w. (w, Inl (ErrExternal ''unreachable''))),
     se_peer_Add = (\<lambda>_ _ w. (w, Inl (ErrExternal ''unreachable''))),
     se_peer_BatchAdd = (\<lambda>_ _ w. (w, Inl (ErrExternal ''unreachable''))),
     se_peer_Query = (\<lambda>_ _ w. (w, Inl (ErrExternal ''unreachable''))), se_CloseConn = (\<lambda>_ w. (w, None))\<rparr>"

interpretation ref_caller: raft_caller ref_env ref_propose "node_sys_init ref_node" ref_senv
  by unfold_locales (rule is_node_ref_propose)

theorem raft_service_safety_witness:
  "\<exists>ops sw. set ops \<subseteq> {(''a'', 7)} \<and> sw = serve ref_senv (\<lambda>_. []) (RpcAdd (Inr \<lparr>areq_Group = ''a'', areq_Id = 7\<rparr>))
      (server_New (Some ref_propose) None [],
        \<lparr>w_engine = nd_engine ref_node, w_store = ref_store, w_ext = node_sys_init ref_node\<rparr>)
    \<and> w_engine (snd sw) = run_adds ops (nd_engine ref_node)
    \<and> mirrors (stored_groups map_of (w_store (snd sw))) (w_engine (snd sw))"
proof -
  define sw where "sw = serve ref_senv (\<lambda>_. []) (RpcAdd (Inr \<lparr>areq_Group = ''a'', areq_Id = 7\<rparr>))
    (server_New (Some ref_propose) None [],
      \<lparr>w_engine = nd_engine ref_node, w_store = ref_store, w_ext = node_sys_init ref_node\<rparr>)"
  have "sw = fold (serve ref_senv (\<lambda>_. [])) [RpcAdd (Inr \<lparr>areq_Group = ''a'', areq_Id = 7\<rparr>)]
    (server_New (Some ref_propose) None [],
      \<lparr>w_engine = nd_engine ref_node, w_store = ref_store, w_ext = node_sys_init ref_node\<rparr>)"
    unfolding sw_def by (simp only: fold_simps)
  note sw = this [unfolded ref_node_simps(3)]
  from raft_service_safety [OF ref_world.node_world_axioms is_node_ref_propose ref_mirrors ref_node_def [THEN arg_cong] sw refl]
  obtain ops where "set ops \<subseteq> {(''a'', 7)}" "w_engine (snd sw) = run_adds ops (nd_engine ref_node)"
    "mirrors (stored_groups map_of (w_store (snd sw))) (w_engine (snd sw))"
    unfolding ref_node_simps(3) by (auto simp: ref_saves_ok)
  then show ?thesis using sw_def by blast
qed

end
