(* ===== verification/Raft_Liveness.thy ===== *)
theory Raft_Liveness
  imports Raft_Service
begin

text \<open>
  Progress and shutdown of the Raft node of \<^verbatim>\<open>internal/raft/node.go\<close>: while the event loop runs every
  proposal can be brought to its reply, and once it has returned nothing changes any more.
\<close>

section \<open>Every proposal has a place\<close>

text \<open>The reply numbers handed out are those that wait in the channel, are in flight or answered.\<close>

definition replies_complete :: "('s, 'db, 'n, 'm) node_sys \<Rightarrow> bool" where
  "replies_complete s \<longleftrightarrow>
     {..<sys_next s} = fst ` set (sys_proposeC s) \<union> fst ` set (sys_inflight s) \<union> dom (sys_results s)"

lemma replies_complete_step:
  assumes "node_step env s ev s'" and "replies_complete s"
  shows "replies_complete s'"
  using assms
proof (induction rule: node_step.cases)
  case (run_take s p ps)
  then show ?case by (auto simp: replies_complete_def)
next
  case (go_propose s ps k data qs rn er)
  then show ?case by (auto simp: replies_complete_def)
next
  case (propose_send s' k ctx s g x)
  then obtain data where "s' = s\<lparr>sys_proposeC := sys_proposeC s @ [(sys_next s, data)], sys_next := Suc (sys_next s)\<rparr>"
    by (blast elim: ProposeAdd_send_Inr)
  with propose_send show ?case by (simp add: replies_complete_def lessThan_Suc)
qed (simp_all add: replies_complete_def)

lemma replies_complete_run: "node_run env (node_sys_init n) evs s \<Longrightarrow> replies_complete s"
proof (induction rule: node_run.induct)
  case run_init
  show ?case by (simp add: replies_complete_def node_sys_init_def)
next
  case (run_step evs s ev s')
  then show ?case by (blast intro: replies_complete_step)
qed

section \<open>Draining the channel\<close>

lemma internal_run_comp: "internal_run env s s' \<Longrightarrow> internal_run env s' s'' \<Longrightarrow> internal_run env s s''"
  unfolding internal_run_def by (metis node_run_trans requested_append_all sup_bot.right_neutral)

text \<open>The event loop takes the waiting proposals one by one.\<close>

lemma take_all:
  "\<not> sys_doneC s \<Longrightarrow> sys_proposeC s = ps \<Longrightarrow>
   internal_run env s (s\<lparr>sys_proposeC := [], sys_inflight := sys_inflight s @ ps\<rparr>)"
proof (induction ps arbitrary: s)
  case Nil
  then have "s\<lparr>sys_proposeC := [], sys_inflight := sys_inflight s @ []\<rparr> = s" by simp
  then show ?case using internal_run_refl [of env s] by simp
next
  case (Cons p ps)
  let ?s1 = "s\<lparr>sys_proposeC := ps, sys_inflight := sys_inflight s @ [p]\<rparr>"
  have "internal_run env s ?s1" using internal_run_step [OF internal_run_refl run_take [OF Cons.prems]] .
  from internal_run_comp [OF this Cons.IH [of ?s1]] Cons.prems show ?case by simp
qed

text \<open>The goroutines propose and deliver the replies.\<close>

lemma answer_all:
  "sys_inflight s = ps \<Longrightarrow> \<exists>s'. internal_run env s s' \<and> sys_inflight s' = [] \<and> sys_proposeC s' = sys_proposeC s
    \<and> dom (sys_results s') = fst ` set ps \<union> dom (sys_results s) \<and> sys_next s' = sys_next s \<and> sys_doneC s' = sys_doneC s"
proof (induction ps arbitrary: s)
  case Nil
  then show ?case using internal_run_refl [of env s] by (intro exI [of _ s]) simp
next
  case (Cons p ps)
  obtain k data where p: "p = (k, data)" by (cases p)
  obtain rn er where e: "er_Propose (ne_raft env) (nd_node (sys_node s)) data = (rn, er)" by fastforce
  define s1 where "s1 = s\<lparr>sys_node := (sys_node s)\<lparr>nd_node := rn\<rparr>, sys_inflight := [] @ ps,
    sys_results := (sys_results s)(k \<mapsto> er)\<rparr>"
  have "node_step env s EvInternal s1"
    unfolding s1_def using Cons.prems p by (intro go_propose [OF _ e]) simp
  then have i: "internal_run env s s1" using internal_run_step internal_run_refl by blast
  have "sys_inflight s1 = ps" by (simp add: s1_def)
  then obtain s' where "internal_run env s1 s'" "sys_inflight s' = []" "sys_proposeC s' = sys_proposeC s1"
    "dom (sys_results s') = fst ` set ps \<union> dom (sys_results s1)" "sys_next s' = sys_next s1" "sys_doneC s' = sys_doneC s1"
    using Cons.IH by blast
  with internal_run_comp [OF i] show ?case by (intro exI [of _ s']) (auto simp: s1_def p)
qed

section \<open>After the event loop\<close>

lemma done_step:
  assumes "node_step env s ev s'" and "sys_doneC s"
  shows "sys_doneC s' \<and> nd_engine (sys_node s') = nd_engine (sys_node s) \<and> nd_store (sys_node s') = nd_store (sys_node s)
    \<and> set (sys_proposeC s) \<subseteq> set (sys_proposeC s')"
  using assms
proof (induction rule: node_step.cases)
  case (propose_send s' k ctx s g x)
  then show ?case by (auto elim: ProposeAdd_send_Inr)
qed auto

lemma done_run:
  assumes "node_run env s evs s'" and "sys_doneC s"
  shows "sys_doneC s' \<and> nd_engine (sys_node s') = nd_engine (sys_node s) \<and> nd_store (sys_node s') = nd_store (sys_node s)
    \<and> set (sys_proposeC s) \<subseteq> set (sys_proposeC s')"
  using assms(1)
proof (induction rule: node_run.induct)
  case run_init
  then show ?case using assms(2) by simp
next
  case (run_step evs s1 ev s2)
  then show ?case using done_step [OF run_step.hyps(2)] by auto
qed

text \<open>The event loop returns only after \<^verbatim>\<open>Stop\<close>, and a \<^verbatim>\<open>Stop\<close> on a running loop can return.\<close>

lemma done_stop_step: "node_step env s ev s' \<Longrightarrow> (sys_doneC s \<longrightarrow> sys_stopC s) \<Longrightarrow> sys_doneC s' \<longrightarrow> sys_stopC s'"
  by (cases rule: node_step.cases) (auto elim: ProposeAdd_send_Inr)

lemma done_stop: "node_run env (node_sys_init n) evs s \<Longrightarrow> sys_doneC s \<Longrightarrow> sys_stopC s"
proof (induction rule: node_run.induct)
  case run_init
  then show ?case by (simp add: node_sys_init_def)
next
  case (run_step evs s ev s')
  then show ?case using done_stop_step by blast
qed

lemma Stop_completes:
  assumes "Stop_close s = Return s'" and "\<not> sys_doneC s"
  shows "\<exists>s''. node_run env s' [EvInternal] s'' \<and> Stop_returns s''"
proof -
  let ?s = "s'\<lparr>sys_node := (sys_node s')\<lparr>nd_node := er_Stop (ne_raft env) (nd_node (sys_node s'))\<rparr>, sys_doneC := True\<rparr>"
  have "node_step env s' EvInternal ?s" using assms by (intro run_stop) simp_all
  from run_step [OF run_init this] show ?thesis by (intro exI [of _ ?s]) (simp add: Stop_returns_def)
qed

section \<open>Accepted additions become visible\<close>

text \<open>What is relied on of Raft for progress: a proposal it accepts is pending, and a pending one can be
  committed.\<close>

locale raft_live =
  fixes L :: "('n, 'm) etcd_raft" and pending :: "'n \<Rightarrow> bytes set"
  assumes propose_pending: "er_Propose L n d = (n', None) \<Longrightarrow> d \<in> pending n'"
    and pending_committed: "d \<in> pending n \<Longrightarrow> \<exists>n' rd e. (er_evolve L)\<^sup>*\<^sup>* n n' \<and> er_Ready L n' rd
      \<and> e \<in> set (rd_CommittedEntries rd) \<and> ent_Type e = EntryNormal \<and> ent_Data e = d"

lemma add_command_inj: "add_command g x = add_command g' x' \<longleftrightarrow> g = g' \<and> x = x'"
proof -
  have "x = x'" if "AppendUvarint [] x = AppendUvarint [] x'"
    using Uvarint_AppendUvarint [of x "[]"] Uvarint_AppendUvarint [of x' "[]"] that by simp
  then show ?thesis by (auto simp: add_command_def)
qed

lemma add_log_mem:
  assumes "add_log env es ops" and "e \<in> set es" and "\<not> noop_entry e" and "ne_Unmarshal env (ent_Data e) = Inr (add_command g x)"
  shows "(g, x) \<in> set ops"
  using assms
proof (induction rule: add_log.induct)
  case (add_log_add e' g' x' es ops)
  then show ?case using add_command_inj [of g x g' x'] by auto
qed auto

lemma evolve_run: "(er_evolve (ne_raft env))\<^sup>*\<^sup>* (nd_node (sys_node s)) n' \<Longrightarrow>
   internal_run env s (s\<lparr>sys_node := (sys_node s)\<lparr>nd_node := n'\<rparr>\<rparr>)"
proof (induction rule: rtranclp_induct)
  case base
  then show ?case using internal_run_refl [of env s] by simp
next
  case (step n1 n2)
  let ?s1 = "s\<lparr>sys_node := (sys_node s)\<lparr>nd_node := n1\<rparr>\<rparr>"
  have "node_step env ?s1 EvInternal (?s1\<lparr>sys_node := (sys_node ?s1)\<lparr>nd_node := n2\<rparr>\<rparr>)"
    using step.hyps(2) by (intro raft_evolve) simp
  from internal_run_step [OF step.IH this] show ?case by simp
qed

context node_world
begin

lemma handleReady_adds:
  assumes "node_inv A e0 n" and "er_Ready L (nd_node n) rd" and "e \<in> set (rd_CommittedEntries rd)"
    and "ent_Type e = EntryNormal" and "ent_Data e = data" and "data \<noteq> []" and "ne_Marshal env (add_command g x) = Inr data"
  shows "\<exists>n' ops. handleReady env n rd = Return n' \<and> (g, x) \<in> set ops \<and> nd_engine n' = run_adds ops (nd_engine n)"
proof -
  define n0 where "n0 = n\<lparr>nd_storage := fst (er_Append L (nd_storage n) (rd_Entries rd))\<rparr>"
  have "\<forall>e \<in> set (rd_CommittedEntries rd). \<not> noop_entry e \<longrightarrow> ent_Data e \<in> add_data env A"
    using rs.committed_proposed [OF assms(2)] assms(1) by (auto simp: node_inv_def)
  then obtain ops where ops: "add_log env (rd_CommittedEntries rd) ops" using add_log_of_data [OF codec] by blast
  have "nd_registry n0 = DefaultRegistry" using assms(1) by (simp add: n0_def node_inv_def)
  from db.applyEntries_add_log [OF ops env_badger this] obtain n1 where
    "applyEntries env n0 (rd_CommittedEntries rd) = Return n1" "nd_engine n1 = run_adds ops (nd_engine n)"
    by (auto simp: n0_def)
  moreover have "\<not> noop_entry e" using assms(4-6) by (simp add: noop_entry_def)
  then have "(g, x) \<in> set ops"
    using add_log_mem [OF ops assms(3)] codec assms(5,7) by (simp add: proto_codec_def)
  ultimately show ?thesis by (auto simp: handleReady_def env_raft n0_def split_beta)
qed

text \<open>From an answered proposal to the engine.\<close>

lemma pending_visible:
  assumes "raft_live L pending" and "sys_inv A e0 s" and "\<not> sys_doneC s" and "data \<in> pending (nd_node (sys_node s))"
    and "data \<noteq> []" and "ne_Marshal env (add_command g x) = Inr data"
  shows "\<exists>s' ops. internal_run env s s' \<and> (g, x) \<in> set ops \<and> nd_engine (sys_node s') = run_adds ops (nd_engine (sys_node s))"
proof -
  obtain rn rd e where rn: "(er_evolve L)\<^sup>*\<^sup>* (nd_node (sys_node s)) rn" "er_Ready L rn rd"
    "e \<in> set (rd_CommittedEntries rd)" "ent_Type e = EntryNormal" "ent_Data e = data"
    using raft_live.pending_committed [OF assms(1,4)] by blast
  define s1 where "s1 = s\<lparr>sys_node := (sys_node s)\<lparr>nd_node := rn\<rparr>\<rparr>"
  have i: "internal_run env s s1" unfolding s1_def using rn(1) by (intro evolve_run) (simp add: env_raft)
  have "proposed rn \<subseteq> proposed (nd_node (sys_node s))"
    using rn(1) by (induction rule: rtranclp_induct) (auto dest: rs.proposed_evolve)
  then have "node_inv A e0 (sys_node s1)"
    using assms(2) unfolding s1_def sys_inv_def by (auto intro!: node_inv_raft simp: node_inv_def)
  moreover have n: "nd_node (sys_node s1) = rn" "nd_engine (sys_node s1) = nd_engine (sys_node s)" by (simp_all add: s1_def)
  ultimately obtain n' ops where n': "handleReady env (sys_node s1) rd = Return n'" "(g, x) \<in> set ops"
    "nd_engine n' = run_adds ops (nd_engine (sys_node s))"
    using handleReady_adds [of A e0 "sys_node s1" rd e data g x] rn(2-) assms(5,6) by auto
  have "node_step env s1 EvInternal (s1\<lparr>sys_node := n'\<rparr>)"
    using assms(3) rn(2) n'(1) by (intro run_ready [where rd = rd]) (simp_all add: s1_def env_raft)
  from internal_run_step [OF i this] n'(2,3) show ?thesis by (intro exI [of _ "s1\<lparr>sys_node := n'\<rparr>"] exI [of _ ops]) simp
qed

end

interpretation ref_live: raft_live ref_raft set
proof
  fix n d n'
  show "er_Propose ref_raft n d = (n', None) \<Longrightarrow> d \<in> set n'" by (auto simp: ref_raft_def)
next
  fix d :: bytes and n
  assume "d \<in> set n"
  let ?rd = "\<lparr>rd_Entries = [], rd_CommittedEntries = map (\<lambda>d. \<lparr>ent_Type = EntryNormal, ent_Index = 1, ent_Data = d\<rparr>) n\<rparr>"
  have "er_Ready ref_raft n ?rd" by (simp add: ref_raft_def)
  moreover have "\<lparr>ent_Type = EntryNormal, ent_Index = 1, ent_Data = d\<rparr> \<in> set (rd_CommittedEntries ?rd)"
    using \<open>d \<in> set n\<close> by simp
  ultimately show "\<exists>n' rd e. (er_evolve ref_raft)\<^sup>*\<^sup>* n n' \<and> er_Ready ref_raft n' rd \<and> e \<in> set (rd_CommittedEntries rd)
      \<and> ent_Type e = EntryNormal \<and> ent_Data e = d"
    by (intro exI [of _ n] exI [of _ ?rd] exI [of _ "\<lparr>ent_Type = EntryNormal, ent_Index = 1, ent_Data = d\<rparr>"]) simp
qed

lemma results_kept_run:
  assumes "node_run env s evs s'" and "reply_inv s" and "sys_results s k = Some er"
  shows "reply_inv s' \<and> sys_results s' k = Some er"
  using assms(1)
proof (induction rule: node_run.induct)
  case run_init
  then show ?case using assms(2,3) by simp
next
  case (run_step evs s1 ev s2)
  then show ?case by (blast intro: reply_inv_step results_kept)
qed

text \<open>A proposal that finds room in the channel is handed to Raft and answered.\<close>

lemma send_and_propose:
  assumes "\<not> sys_doneC s" and "ne_Marshal env (add_command g x) = Inr data" and "length (sys_proposeC s) < proposeC_cap"
    and "\<forall>rn. snd (er_Propose (ne_raft env) rn data) = None"
  shows "\<exists>evs s' rn. node_run env s evs s' \<and> requested evs = {(g, x)} \<and> \<not> sys_doneC s'
    \<and> sys_results s' (sys_next s) = Some None \<and> nd_engine (sys_node s') = nd_engine (sys_node s)
    \<and> er_Propose (ne_raft env) rn data = (nd_node (sys_node s'), None)"
proof -
  define s1 where "s1 = s\<lparr>sys_proposeC := sys_proposeC s @ [(sys_next s, data)], sys_next := Suc (sys_next s)\<rparr>"
  define s2 where "s2 = s1\<lparr>sys_proposeC := [], sys_inflight := sys_inflight s1 @ sys_proposeC s1\<rparr>"
  obtain rn where rn: "er_Propose (ne_raft env) (nd_node (sys_node s2)) data = (rn, None)"
    using assms(4) by (metis prod.collapse)
  define s3 where "s3 = s2\<lparr>sys_node := (sys_node s2)\<lparr>nd_node := rn\<rparr>, sys_inflight := (sys_inflight s @ sys_proposeC s) @ [],
    sys_results := (sys_results s2)(sys_next s \<mapsto> None)\<rparr>"
  have "Inr (s1, sys_next s) \<in> set (ProposeAdd_send env None s g x)"
    using assms(2,3) by (simp add: ProposeAdd_send_def s1_def)
  then have r1: "node_run env s ([] @ [EvProposeAdd g x]) s1" by (intro run_step [OF run_init] propose_send)
  have "internal_run env s1 s2" unfolding s2_def using assms(1) by (intro take_all) (simp_all add: s1_def)
  moreover have "node_step env s2 EvInternal s3"
    unfolding s3_def by (intro go_propose [OF _ rn]) (simp add: s2_def s1_def)
  ultimately have "internal_run env s1 s3" by (rule internal_run_step)
  then obtain evs where e: "node_run env s1 evs s3" "requested evs = {}" by (auto simp: internal_run_def)
  have "node_run env s (([] @ [EvProposeAdd g x]) @ evs) s3" by (rule node_run_trans [OF e(1) r1])
  moreover have "requested (([] @ [EvProposeAdd g x]) @ evs) = {(g, x)}"
    using e(2) by (simp only: requested_append_all requested_append) (simp add: requested_def)
  moreover have "\<not> sys_doneC s3 \<and> sys_results s3 (sys_next s) = Some None \<and> nd_engine (sys_node s3) = nd_engine (sys_node s)
      \<and> nd_node (sys_node s3) = rn"
    using assms(1) by (simp add: s3_def s2_def s1_def)
  ultimately show ?thesis using rn by blast
qed

section \<open>Properties\<close>





text \<open>C24: after shutdown. Once \<^verbatim>\<open>Stop\<close> has returned, no step of the goroutines, the Raft library or the
  callers changes the engine or the store, so the store can be closed; a proposal that was still in
  the channel is never answered, and its caller returns only when its context ends; and a second
  \<^verbatim>\<open>Stop\<close> panics.\<close>

theorem node_stopped:
  assumes "node_run env (node_sys_init n) evs s" and "Stop_returns s" and "node_run env s evs' s'"
  shows "Stop_close s' = Panic ''close of closed channel''
    \<and> nd_engine (sys_node s') = nd_engine (sys_node s) \<and> nd_store (sys_node s') = nd_store (sys_node s)
    \<and> (\<forall>(k, data) \<in> set (sys_proposeC s). ProposeAdd_wait None s' k = [] \<and> ProposeAdd_wait (Some e) s' k = [Some e])"
proof -
  have d: "nd_engine (sys_node s') = nd_engine (sys_node s)" "nd_store (sys_node s') = nd_store (sys_node s)"
    "set (sys_proposeC s) \<subseteq> set (sys_proposeC s')"
    "sys_doneC s'" using done_run [OF assms(3) assms(2) [unfolded Stop_returns_def]] by blast+
  have "Stop_close s' = Panic ''close of closed channel''"
    using done_stop [OF node_run_trans [OF assms(3,1)] d(4)] by (simp add: Stop_close_def)
  moreover have "reply_inv s'" by (rule reply_inv_run [OF node_run_trans [OF assms(3,1)]])
  then have i: "fst ` set (sys_proposeC s' @ sys_inflight s') \<inter> dom (sys_results s') = {}" by (simp add: reply_inv_def)
  then have "sys_results s' k = None" if "(k, data) \<in> set (sys_proposeC s)" for k data
  proof -
    have "k \<in> fst ` set (sys_proposeC s' @ sys_inflight s')" using d(3) that by force
    then show ?thesis using i by blast
  qed
  ultimately show ?thesis using d(1,2) by (auto simp: ProposeAdd_wait_def)
qed

theorem node_stopped_witness:
  "\<exists>evs s. node_run ref_env (node_sys_init ref_node) evs s \<and> Stop_returns s \<and> ProposeAdd_wait None s 0 = []"
proof -
  obtain s where s: "node_run ref_env (node_sys_init ref_node) [EvProposeAdd ''a'' 7] s"
    "sys_proposeC s = [(0, ent_Data ref_entry)]" "\<not> sys_doneC s" "\<not> sys_stopC s" using ref_run by blast
  define s1 where "s1 = s\<lparr>sys_stopC := True\<rparr>"
  define s2 where "s2 = s1\<lparr>sys_node := (sys_node s1)\<lparr>nd_node := er_Stop (ne_raft ref_env) (nd_node (sys_node s1))\<rparr>, sys_doneC := True\<rparr>"
  have "node_step ref_env s EvInternal s1" unfolding s1_def by (rule stop_call [OF s(4)])
  moreover have "node_step ref_env s1 EvInternal s2" unfolding s2_def using s(3) by (intro run_stop) (simp_all add: s1_def)
  ultimately have run: "node_run ref_env (node_sys_init ref_node) (([EvProposeAdd ''a'' 7] @ [EvInternal]) @ [EvInternal]) s2"
    using s(1) by (blast intro: run_step)
  have d: "Stop_returns s2" "(0, ent_Data ref_entry) \<in> set (sys_proposeC s2)" using s(2) by (simp_all add: s2_def s1_def Stop_returns_def)
  with node_stopped [OF run d(1) run_init] have "ProposeAdd_wait None s2 0 = []" by blast
  then show ?thesis using run d(1) by blast
qed

end
