(* ===== verification/Tracker_System.thy ===== *)
theory Tracker_System
  imports Raft_Liveness
begin

text \<open>
  The whole system: a cluster of processes of \<^verbatim>\<open>cmd/server\<close>, each with its ring, its Raft node and its
  database. Calls enter at any server, the nodes work in the background, and a process may be
  killed at any point and started again later, when it rebuilds its engine from the database.
\<close>

section \<open>Runs of the system\<close>

text \<open>What the server at \<open>a\<close> consists of when \<^verbatim>\<open>run\<close> has restored the engine and created the node and
  the service.\<close>

definition boot ::
    "('db, 'n, 'm) node_env \<Rightarrow> ('s, 'db, ('s, 'db, 'n, 'm) node_sys) RaftNode \<Rightarrow> Ring \<Rightarrow> string \<Rightarrow> u64 \<Rightarrow>
     's engine \<Rightarrow> 'db BadgerStore \<Rightarrow> ('s, 'db, ('s, 'db, 'n, 'm) node_sys, string) srv_state" where
  "boot env propose r a i e st =
     (let peers = [\<lparr>peer_ID = i, peer_Addr = []\<rparr>];
          node = NewNode env i peers e st
      in (server_New (Some propose) (Some r) a, \<lparr>w_engine = e, w_store = st, w_ext = node_sys_init node\<rparr>))"

text \<open>The behaviour of the nodes during one call: how each of them resolves the choices of its
  schedule.\<close>

definition with_nodes :: "(string \<Rightarrow> ('s, 'db, 'x) RaftNode) \<Rightarrow> ('s, 'db, 'x) cluster \<Rightarrow> ('s, 'db, 'x) cluster" where
  "with_nodes propose C a = map_option (\<lambda>(srv, w). (srv\<lparr>srv_node := Some (propose a)\<rparr>, w)) (C a)"

definition shared_world :: "('s, 'db, 'n, 'm) node_sys \<Rightarrow> ('s, 'db, 'n, 'm) raft_world" where
  "shared_world s = \<lparr>w_engine = nd_engine (sys_node s), w_store = nd_store (sys_node s), w_ext = s\<rparr>"

text \<open>What a killed process leaves: its database, not its metrics.\<close>

definition reopened :: "'db BadgerStore \<Rightarrow> 'db BadgerStore" where
  "reopened st = \<lparr>st_db = st_db st, st_metrics = new_store_metrics\<rparr>"

text \<open>A state of the system has the running servers and the databases of those that are down. A run is
  labelled with the additions that callers asked for.\<close>

inductive system_run ::
    "('db, 'n, 'm) node_env \<Rightarrow> 's algorithm \<Rightarrow> (bytes \<Rightarrow> u32) \<Rightarrow> Ring \<Rightarrow> (err \<Rightarrow> string) \<Rightarrow> (string \<rightharpoonup> 'db BadgerStore) \<Rightarrow>
     (string \<times> u64) set \<Rightarrow> ('s, 'db, ('s, 'db, 'n, 'm) node_sys) cluster \<Rightarrow> (string \<rightharpoonup> 'db BadgerStore) \<Rightarrow> bool"
  for env alg sum32 r code D0 where
  sys_init: "system_run env alg sum32 r code D0 {} Map.empty D0"
| sys_boot: "system_run env alg sum32 r code D0 A C D \<Longrightarrow> D a = Some st \<Longrightarrow>
    restore_engine alg (ne_badger env) st = ((e, k), None) \<Longrightarrow>
    system_run env alg sum32 r code D0 A (C(a \<mapsto> boot env propose r a i e st)) (D(a := None))"
| sys_crash: "system_run env alg sum32 r code D0 A C D \<Longrightarrow> C a = Some p \<Longrightarrow>
    system_run env alg sum32 r code D0 A (C(a := None)) (D(a \<mapsto> reopened (w_store (snd p))))"
| sys_node: "system_run env alg sum32 r code D0 A C D \<Longrightarrow> C a = Some p \<Longrightarrow> internal_run env (w_ext (snd p)) s \<Longrightarrow>
    system_run env alg sum32 r code D0 A (C(a \<mapsto> (fst p, shared_world s))) D"
| sys_call: "system_run env alg sum32 r code D0 A C D \<Longrightarrow> (\<And>b. is_node env (propose b)) \<Longrightarrow>
    system_run env alg sum32 r code D0 (A \<union> rpc_adds rpc)
      (serve_at sum32 (ne_badger env) code (a, rpc) (with_nodes propose C)) D"

section \<open>What survives\<close>

locale hll_system = node_world L proposed B contents env
  for L :: "('n, 'm) etcd_raft" and proposed :: "'n \<Rightarrow> bytes set" and B :: "'db badger"
    and contents :: "'db \<Rightarrow> (bytes \<rightharpoonup> bytes)" and env :: "('db, 'n, 'm) node_env" +
  fixes henv :: hll_env and R :: "'r roaring64" and sum32 :: "bytes \<Rightarrow> u32" and r :: Ring
  assumes system_ring: "ring_ok r"
begin

text \<open>The store holds exactly an engine that received only additions of \<open>A\<close>.\<close>

definition durable :: "(string \<times> u64) set \<Rightarrow> 'db BadgerStore \<Rightarrow> 'r Sketch engine \<Rightarrow> bool" where
  "durable A st e \<longleftrightarrow> hll.engine_ok henv R e \<and> mirrors (stored_groups contents st) e
     \<and> (\<exists>ops. set ops \<subseteq> A
        \<and> engine_view hll_view e = engine_view hll_view (run_adds ops (NewEngine (hll_Algorithm henv R))))"

text \<open>The world of a running server: its node was started on such a store.\<close>

definition alive :: "(string \<times> u64) set \<Rightarrow> ('r Sketch, 'db, 'n, 'm) raft_world \<Rightarrow> bool" where
  "alive A w \<longleftrightarrow> (\<exists>st e i peers. durable A st e \<and> node_served env (node_sys_init (NewNode env i peers e st)) A w)"

lemma durable_reopened [simp]: "durable A (reopened st) e = durable A st e"
  by (simp add: durable_def reopened_def stored_groups_def)

lemma durable_mono: "durable A st e \<Longrightarrow> A \<subseteq> A' \<Longrightarrow> durable A' st e"
  unfolding durable_def by blast

lemma alive_mono: "alive A w \<Longrightarrow> A \<subseteq> A' \<Longrightarrow> alive A' w"
  unfolding alive_def by (meson durable_mono node_served_mono)

lemma alive_propose: "is_node env propose \<Longrightarrow> alive A w \<Longrightarrow> alive (insert (g, x) A) (fst (propose g x w))"
  unfolding alive_def by (meson durable_mono node_served_propose subset_insertI)

lemma alive_internal: "alive A w \<Longrightarrow> internal_run env (w_ext w) s \<Longrightarrow> alive A (shared_world s)"
  unfolding alive_def shared_world_def by (meson node_served_internal)

lemma alive_durable:
  assumes "alive A w" and "\<forall>(g, x) \<in> A. saves_ok B g"
  shows "durable A (w_store w) (w_engine w)"
proof -
  let ?e0 = "NewEngine (hll_Algorithm henv R)"
  obtain st e i peers where d: "durable A st e" and s: "node_served env (node_sys_init (NewNode env i peers e st)) A w"
    using assms(1) unfolding alive_def by blast
  obtain evs where evs: "node_run env (node_sys_init (NewNode env i peers e st)) evs (w_ext w)" "requested evs \<subseteq> A"
    using s by (auto simp: node_served_def)
  have w: "w_engine w = nd_engine (sys_node (w_ext w))" "w_store w = nd_store (sys_node (w_ext w))"
    using s by (simp_all add: node_served_def coupled_def)
  obtain ops where ops: "set ops \<subseteq> requested evs" "w_engine w = run_adds ops e"
    "mirrors (stored_groups contents (w_store w)) (w_engine w)"
    using life_mirrors [OF node_world_axioms _ evs(1)] d evs(2) assms(2) unfolding durable_def w by blast
  obtain ops0 where ops0: "set ops0 \<subseteq> A" "engine_view hll_view e = engine_view hll_view (run_adds ops0 ?e0)"
    using d by (auto simp: durable_def)
  have ok: "hll.engine_ok henv R e" using d by (simp add: durable_def)
  have "engine_view hll_view (run_adds ops e) = engine_view hll_view (run_adds ops (run_adds ops0 ?e0))"
    using ops0(2) by (intro hll.run_adds_view_cong [OF ok hll.run_adds_ok [OF hll.engine_ok_NewEngine]])
  then have "engine_view hll_view (w_engine w) = engine_view hll_view (run_adds (ops0 @ ops) ?e0)"
    by (simp add: ops(2) run_adds_def)
  moreover have "set (ops0 @ ops) \<subseteq> A" using ops(1) ops0(1) evs(2) by auto
  ultimately show ?thesis
    using ops(3) hll.run_adds_ok [OF ok, of ops] unfolding durable_def ops(2) by blast
qed

lemma durable_restore:
  assumes "durable A st e"
  shows "\<exists>e' k. restore_engine (hll_Algorithm henv R) B st = ((e', k), None) \<and> durable A st e'
    \<and> engine_view hll_view e' = engine_view hll_view e"
  using hll_restore [OF db.badger_spec_axioms, of henv R e st] assms unfolding durable_def by metis

lemma alive_boot:
  assumes "durable A st e" and "restore_engine (hll_Algorithm henv R) B st = ((e', k), None)"
  shows "alive A (snd (boot env propose r a i e' st))"
proof -
  have "durable A st e'" using durable_restore [OF assms(1)] assms(2) by auto
  moreover have "node_served env (node_sys_init (NewNode env i [\<lparr>peer_ID = i, peer_Addr = []\<rparr>] e' st)) A
      (snd (boot env propose r a i e' st))"
    using node_run.run_init [of env "node_sys_init (NewNode env i [\<lparr>peer_ID = i, peer_Addr = []\<rparr>] e' st)"]
    by (auto simp: node_served_def boot_def coupled_def node_sys_init_def NewNode_def Let_def requested_def intro!: exI [of _ "[]"])
  ultimately show ?thesis unfolding alive_def by blast
qed

text \<open>Every server, running or down, holds additions of its own shard only.\<close>

definition system_ok ::
    "(string \<times> u64) set \<Rightarrow> ('r Sketch, 'db, ('r Sketch, 'db, 'n, 'm) node_sys) cluster \<Rightarrow> (string \<rightharpoonup> 'db BadgerStore) \<Rightarrow> bool" where
  "system_ok A C D \<longleftrightarrow> (\<forall>a p. C a = Some p \<longrightarrow> member r a p \<and> alive (shard sum32 r a A) (snd p))
     \<and> (\<forall>a st. D a = Some st \<longrightarrow> a \<noteq> [] \<and> (\<exists>e. durable (shard sum32 r a A) st e))"

lemma system_okD:
  "system_ok A C D \<Longrightarrow> C a = Some p \<Longrightarrow> member r a p \<and> alive (shard sum32 r a A) (snd p)"
  "system_ok A C D \<Longrightarrow> D a = Some st \<Longrightarrow> a \<noteq> [] \<and> (\<exists>e. durable (shard sum32 r a A) st e)"
  unfolding system_ok_def by blast+

lemma system_okI:
  assumes "\<And>a p. C a = Some p \<Longrightarrow> member r a p \<and> alive (shard sum32 r a A) (snd p)"
    and "\<And>a st. D a = Some st \<Longrightarrow> a \<noteq> [] \<and> (\<exists>e. durable (shard sum32 r a A) st e)"
  shows "system_ok A C D"
  using assms unfolding system_ok_def by blast

lemma alive_members:
  assumes "\<And>b. is_node env (propose b)"
  shows "member_inv r B (\<lambda>b. Some (propose b)) (\<lambda>_. alive)"
  by unfold_locales (auto simp: local_add_def intro: system_ring alive_mono alive_propose [OF assms])

lemma system_ok_call:
  assumes "\<And>b. is_node env (propose b)" and "system_ok A C D"
  shows "system_ok (A \<union> rpc_adds rpc) (serve_at sum32 B code (a, rpc) (with_nodes propose C)) D"
proof -
  note m = alive_members [of propose, OF assms(1)]
  note inv = member_inv.cluster_inv_def [OF m] member_inv.leaf_inv_def [OF m]
  have "member_inv.cluster_inv sum32 r (\<lambda>b. Some (propose b)) (\<lambda>_. alive) A (with_nodes propose C)"
    unfolding inv
  proof (intro allI impI)
    fix b q assume "with_nodes propose C b = Some q"
    then obtain srv w where q: "C b = Some (srv, w)" "q = (srv\<lparr>srv_node := Some (propose b)\<rparr>, w)"
      by (auto simp: with_nodes_def)
    with system_okD(1) [OF assms(2) q(1)]
    show "member r b q \<and> srv_node (fst q) = Some (propose b) \<and> alive (shard sum32 r b A) (snd q)"
      by (simp add: member_def)
  qed
  from member_inv.cluster_inv_serve_at [OF m this, of "(a, rpc)" code]
  have C: "\<forall>b q. serve_at sum32 B code (a, rpc) (with_nodes propose C) b = Some q \<longrightarrow>
      member r b q \<and> srv_node (fst q) = Some (propose b) \<and> alive (shard sum32 r b (A \<union> rpc_adds rpc)) (snd q)"
    unfolding inv snd_conv .
  show ?thesis
  proof (rule system_okI)
    fix b st assume "D b = Some st"
    from system_okD(2) [OF assms(2) this]
    show "b \<noteq> [] \<and> (\<exists>e. durable (shard sum32 r b (A \<union> rpc_adds rpc)) st e)"
      using durable_mono [OF _ shard_mono [OF Un_upper1]] by blast
  qed (use C in blast)
qed

lemma system_run_ok:
  assumes "system_run env (hll_Algorithm henv R) sum32 r code D0 A C D"
    and "\<And>a st. D0 a = Some st \<Longrightarrow> a \<noteq> [] \<and> stored_groups contents st = Map.empty"
    and "\<forall>(g, x) \<in> A. saves_ok B g"
  shows "system_ok A C D"
  using assms(1,3)
proof (induction rule: system_run.induct)
  case sys_init
  have "durable (shard sum32 r a {}) st (NewEngine (hll_Algorithm henv R))" if "D0 a = Some st" for a st
    using assms(2) [OF that] hll.engine_ok_NewEngine
    by (auto simp: durable_def mirrors_def NewEngine_def intro!: exI [of _ "[]"])
  then show ?case using assms(2) by (intro system_okI) auto
next
  case (sys_boot A C D a st e k propose i)
  have ok: "system_ok A C D" using sys_boot by blast
  have a: "a \<noteq> []" "alive (shard sum32 r a A) (snd (boot env propose r a i e st))"
    using system_okD(2) [OF ok sys_boot.hyps(2)] alive_boot sys_boot.hyps(3) by (auto simp: env_badger)
  then have "member r a (boot env propose r a i e st)" by (simp add: member_def boot_def server_New_def Let_def)
  then show ?case
    using a(2) system_okD [OF ok] by (intro system_okI) (auto split: if_splits)
next
  case (sys_crash A C D a p)
  have ok: "system_ok A C D" using sys_crash by blast
  have p: "a \<noteq> []" "alive (shard sum32 r a A) (snd p)"
    using system_okD(1) [OF ok sys_crash.hyps(2)] by (auto simp: member_def)
  have "\<forall>(g, x) \<in> shard sum32 r a A. saves_ok B g" using sys_crash.prems by (auto simp: shard_def)
  then have "durable (shard sum32 r a A) (w_store (snd p)) (w_engine (snd p))" by (rule alive_durable [OF p(2)])
  then show ?case using p(1) system_okD [OF ok] by (intro system_okI) (auto split: if_splits)
next
  case (sys_node A C D a p s)
  have ok: "system_ok A C D" using sys_node by blast
  have "member r a p \<and> alive (shard sum32 r a A) (shared_world s)"
    using system_okD(1) [OF ok sys_node.hyps(2)] alive_internal [OF _ sys_node.hyps(3)] by blast
  then show ?case using system_okD [OF ok] by (intro system_okI) (auto simp: member_def split: if_splits)
next
  case (sys_call A C D propose rpc a)
  then show ?case using system_ok_call [of propose A C D] by (auto simp: env_badger)
qed

text \<open>What a durable store is worth: rebuilding the engine succeeds and reports the same counts, which
  are those of some additions of \<open>A\<close>.\<close>

lemma durable_counts:
  assumes "durable A st e"
  shows "\<exists>ops. set ops \<subseteq> A
      \<and> Engine_CardinalityAll e = Engine_CardinalityAll (run_adds ops (NewEngine (hll_Algorithm henv R)))"
    and "\<exists>e' k. restore_engine (hll_Algorithm henv R) B st = ((e', k), None)
      \<and> Engine_CardinalityAll e' = Engine_CardinalityAll e"
proof -
  have ok: "hll.engine_ok henv R e" using assms by (simp add: durable_def)
  show "\<exists>ops. set ops \<subseteq> A
      \<and> Engine_CardinalityAll e = Engine_CardinalityAll (run_adds ops (NewEngine (hll_Algorithm henv R)))"
    using assms hll.CardinalityAll_view [OF ok hll.run_adds_ok [OF hll.engine_ok_NewEngine]]
    unfolding durable_def by blast
  obtain e' k where "restore_engine (hll_Algorithm henv R) B st = ((e', k), None)" "durable A st e'"
    "engine_view hll_view e' = engine_view hll_view e"
    using durable_restore [OF assms] by blast
  then show "\<exists>e' k. restore_engine (hll_Algorithm henv R) B st = ((e', k), None)
      \<and> Engine_CardinalityAll e' = Engine_CardinalityAll e"
    using hll.CardinalityAll_view [OF _ ok] unfolding durable_def by blast
qed

lemma system_ok_durable:
  assumes "system_ok A C D" and "\<forall>(g, x) \<in> A. saves_ok B g" and "C a = Some p"
  shows "durable (shard sum32 r a A) (w_store (snd p)) (engine_at C a)"
proof -
  have "\<forall>(g, x) \<in> shard sum32 r a A. saves_ok B g" using assms(2) by (auto simp: shard_def)
  with alive_durable [of "shard sum32 r a A" "snd p"] system_okD(1) [OF assms(1,3)] assms(3)
  show ?thesis by (simp add: engine_at_def)
qed

lemma system_ok_cluster: "system_ok A C D \<Longrightarrow> cluster_ok r C"
  using system_okD(1) [of A C D] unfolding cluster_ok_def by (blast intro: system_ring)

end

section \<open>A reference system\<close>

interpretation ref_system: hll_system ref_raft set ref_badger map_of ref_env "example_env 0" ref_roaring "\<lambda>_. 15" two_node_ring
  by unfold_locales (rule two_node_ring_ok)

text \<open>Two servers start on empty databases and the first one is asked to add an id.\<close>

definition ref_disks :: "string \<rightharpoonup> (bytes \<times> bytes) list BadgerStore" where
  "ref_disks = [''n1'' \<mapsto> ref_store, ''n2'' \<mapsto> ref_store]"

lemma ref_disks_empty: "ref_disks a = Some st \<Longrightarrow> a \<noteq> [] \<and> stored_groups map_of st = Map.empty"
  by (auto simp: ref_disks_def stored_groups_def ref_store_def split: if_splits)

lemma ref_system_run:
  "\<exists>C D. system_run ref_env (hll_Algorithm (example_env 0) ref_roaring) (\<lambda>_. 15) two_node_ring (\<lambda>_. []) ref_disks
     {(''a'', 7)} C D"
proof -
  let ?alg = "hll_Algorithm (example_env 0) ref_roaring" and ?run = "system_run ref_env (hll_Algorithm (example_env 0) ref_roaring)
    (\<lambda>_. 15) two_node_ring (\<lambda>_. []) ref_disks"
  have r: "restore_engine ?alg (ne_badger ref_env) ref_store = ((NewEngine ?alg, 0), None)"
    by (simp add: ref_env_def restore_ref_store)
  have d: "ref_disks ''n1'' = Some ref_store" "(ref_disks(''n1'' := None)) ''n2'' = Some ref_store"
    by (simp_all add: ref_disks_def)
  have "?run {} Map.empty ref_disks" by (rule sys_init)
  then have "\<exists>C. ?run {} C (ref_disks(''n1'' := None))" using sys_boot d(1) r by blast
  then obtain C D where "?run {} C D" using sys_boot d(2) r by blast
  from sys_call [OF this is_node_ref_propose, of "RpcAdd (Inr \<lparr>areq_Group = ''a'', areq_Id = 7\<rparr>)" "''n1''"]
  have "?run {(''a'', 7)} (serve_at (\<lambda>_. 15) (ne_badger ref_env) (\<lambda>_. []) (''n1'', RpcAdd (Inr \<lparr>areq_Group = ''a'', areq_Id = 7\<rparr>))
      (with_nodes (\<lambda>_. ref_propose) C)) D" by simp
  then show ?thesis by blast
qed

end
