(* ===== verification/Grpc_Client.thy ===== *)
theory Grpc_Client
  imports Grpc_Service Proto_Wire
begin

text \<open>
  The client side of \<^verbatim>\<open>cardinality_grpc.pb.go\<close>: the generated stubs over a connection, and what a stub
  call amounts to when the connection leads to a server that registered the service.
\<close>

section \<open>Stubs\<close>

text \<open>A connection has one method \<^verbatim>\<open>Invoke\<close>; the stubs use it at three pairs of message types. It gets the
  full method name, the request, the response to fill in and the call options.\<close>

type_synonym ('q, 'r, 'w) Invoke = "string \<Rightarrow> 'q \<Rightarrow> 'r \<Rightarrow> string list \<Rightarrow> 'w \<Rightarrow> 'w \<times> 'r \<times> err"

record 'w ClientConn =
  cc_Invoke_Add :: "(AddRequest, AddResponse, 'w) Invoke"
  cc_Invoke_BatchAdd :: "(BatchAddRequest, AddResponse, 'w) Invoke"
  cc_Invoke_Query :: "(QueryRequest, QueryResponse, 'w) Invoke"

definition Client_Add ::
    "'w ClientConn \<Rightarrow> AddRequest \<Rightarrow> string list \<Rightarrow> 'w \<Rightarrow> 'w \<times> (go_error + AddResponse)" where
  "Client_Add cc req opts w =
     (let cOpts = ''StaticMethod'' # opts;
          out = \<lparr>aresp_Ok = False\<rparr>
      in case cc_Invoke_Add cc CardinalityService_Add_FullMethodName req out cOpts w of
           (w, out, Some e) \<Rightarrow> (w, Inl e)
         | (w, out, None) \<Rightarrow> (w, Inr out))"

definition Client_BatchAdd ::
    "'w ClientConn \<Rightarrow> BatchAddRequest \<Rightarrow> string list \<Rightarrow> 'w \<Rightarrow> 'w \<times> (go_error + AddResponse)" where
  "Client_BatchAdd cc req opts w =
     (let cOpts = ''StaticMethod'' # opts;
          out = \<lparr>aresp_Ok = False\<rparr>
      in case cc_Invoke_BatchAdd cc CardinalityService_BatchAdd_FullMethodName req out cOpts w of
           (w, out, Some e) \<Rightarrow> (w, Inl e)
         | (w, out, None) \<Rightarrow> (w, Inr out))"

definition Client_Query ::
    "'w ClientConn \<Rightarrow> QueryRequest \<Rightarrow> string list \<Rightarrow> 'w \<Rightarrow> 'w \<times> (go_error + QueryResponse)" where
  "Client_Query cc req opts w =
     (let cOpts = ''StaticMethod'' # opts;
          out = \<lparr>qresp_Group = [], qresp_Cardinality = 0\<rparr>
      in case cc_Invoke_Query cc CardinalityService_Query_FullMethodName req out cOpts w of
           (w, out, Some e) \<Rightarrow> (w, Inl e)
         | (w, out, None) \<Rightarrow> (w, Inr out))"

text \<open>The callers in this repository pass no options.\<close>

definition NewCardinalityServiceClient :: "'w ClientConn \<Rightarrow> 'w service" where
  "NewCardinalityServiceClient cc = \<lparr>sv_Add = (\<lambda>req. Client_Add cc req []),
     sv_BatchAdd = (\<lambda>req. Client_BatchAdd cc req []), sv_Query = (\<lambda>req. Client_Query cc req [])\<rparr>"

lemmas client_defs = NewCardinalityServiceClient_def Client_Add_def Client_BatchAdd_def Client_Query_def Let_def

section \<open>A connection to a server\<close>

record pb_encoders =
  pe_AddRequest :: "AddRequest \<Rightarrow> go_error + bytes"
  pe_BatchAddRequest :: "BatchAddRequest \<Rightarrow> go_error + bytes"
  pe_QueryRequest :: "QueryRequest \<Rightarrow> go_error + bytes"

text \<open>What the library does with one call: encode the request, find the method by its full name, run
  its handler, and hand the response or the error back. \<open>conv\<close> is what an error becomes on its way to
  the client.\<close>

definition unary_call ::
    "'w ServiceDesc \<Rightarrow> 'w service \<Rightarrow> pb_decoders \<Rightarrow> 'w interceptor option \<Rightarrow> (go_error \<Rightarrow> go_error) \<Rightarrow>
     ('q \<Rightarrow> go_error + bytes) \<Rightarrow> (reply \<Rightarrow> 'r option) \<Rightarrow> ('q, 'r, 'w) Invoke" where
  "unary_call desc srv D i conv enc unbox full req out opts w =
     (case enc req of
        Inl e \<Rightarrow> (w, out, Some e)
      | Inr b \<Rightarrow>
          (case map_of (map (\<lambda>(m, h). (''/'' @ sd_ServiceName desc @ ''/'' @ m, h)) (sd_Methods desc)) full of
             None \<Rightarrow> (w, out, Some (ErrStatus Unimplemented None))
           | Some h \<Rightarrow>
               (case h srv D b i w of
                  (w, Inl e) \<Rightarrow> (w, out, Some (conv e))
                | (w, Inr r) \<Rightarrow>
                    (case unbox r of
                       None \<Rightarrow> (w, out, Some (ErrStatus Internal None))
                     | Some resp \<Rightarrow> (w, resp, None)))))"

definition unbox_Add :: "reply \<Rightarrow> AddResponse option" where
  "unbox_Add r = (case r of ReplyAdd x \<Rightarrow> Some x | ReplyQuery _ \<Rightarrow> None)"

definition unbox_Query :: "reply \<Rightarrow> QueryResponse option" where
  "unbox_Query r = (case r of ReplyQuery x \<Rightarrow> Some x | ReplyAdd _ \<Rightarrow> None)"

text \<open>A connection to the server that registered \<open>srv\<close> under the service description, over a codec
  that decodes what it encodes.\<close>

locale grpc_conn =
  fixes cc :: "'w ClientConn" and srv :: "'w service" and E :: pb_encoders and D :: pb_decoders
    and i :: "'w interceptor option" and conv :: "go_error \<Rightarrow> go_error"
  assumes Invoke_Add: "cc_Invoke_Add cc = unary_call CardinalityService_ServiceDesc srv D i conv (pe_AddRequest E) unbox_Add"
    and Invoke_BatchAdd: "cc_Invoke_BatchAdd cc
      = unary_call CardinalityService_ServiceDesc srv D i conv (pe_BatchAddRequest E) unbox_Add"
    and Invoke_Query: "cc_Invoke_Query cc = unary_call CardinalityService_ServiceDesc srv D i conv (pe_QueryRequest E) unbox_Query"
    and codec_Add: "pe_AddRequest E a = Inr b \<Longrightarrow> pd_AddRequest D b = Inr a"
    and codec_BatchAdd: "pe_BatchAddRequest E ba = Inr b \<Longrightarrow> pd_BatchAddRequest D b = Inr ba"
    and codec_Query: "pe_QueryRequest E q = Inr b \<Longrightarrow> pd_QueryRequest D b = Inr q"
begin

text \<open>A stub call is the method handler's call, with the response unboxed.\<close>

definition unboxed :: "(reply \<Rightarrow> 'r option) \<Rightarrow> 'w \<times> (go_error + reply) \<Rightarrow> 'w \<times> (go_error + 'r)" where
  "unboxed unbox r = (fst r, case snd r of Inl e \<Rightarrow> Inl (conv e)
     | Inr x \<Rightarrow> (case unbox x of None \<Rightarrow> Inl (ErrStatus Internal None) | Some y \<Rightarrow> Inr y))"

lemma unboxed_boxed:
  "snd r = snd (boxed ReplyAdd ra) \<Longrightarrow> unboxed unbox_Add r = (fst r, map_sum conv (\<lambda>r. r) (snd ra))"
  "snd r = snd (boxed ReplyQuery rq) \<Longrightarrow> unboxed unbox_Query r = (fst r, map_sum conv (\<lambda>r. r) (snd rq))"
  by (cases "snd ra"; cases "snd rq"; simp add: unboxed_def boxed_def unbox_Add_def unbox_Query_def)+

lemma stub_Add:
  "sv_Add (NewCardinalityServiceClient cc) req w =
     (case pe_AddRequest E req of Inl e \<Rightarrow> (w, Inl e)
      | Inr b \<Rightarrow> unboxed unbox_Add (CardinalityService_Add_Handler srv (Inr req) i w))"
  by (auto simp: client_defs Invoke_Add unary_call_def CardinalityService_ServiceDesc_def full_names unboxed_def
      codec_Add split_beta split: sum.split option.split)

lemma stub_BatchAdd:
  "sv_BatchAdd (NewCardinalityServiceClient cc) req w =
     (case pe_BatchAddRequest E req of Inl e \<Rightarrow> (w, Inl e)
      | Inr b \<Rightarrow> unboxed unbox_Add (CardinalityService_BatchAdd_Handler srv (Inr req) i w))"
  by (auto simp: client_defs Invoke_BatchAdd unary_call_def CardinalityService_ServiceDesc_def full_names unboxed_def
      codec_BatchAdd split_beta split: sum.split option.split)

lemma stub_Query:
  "sv_Query (NewCardinalityServiceClient cc) req w =
     (case pe_QueryRequest E req of Inl e \<Rightarrow> (w, Inl e)
      | Inr b \<Rightarrow> unboxed unbox_Query (CardinalityService_Query_Handler srv (Inr req) i w))"
  by (auto simp: client_defs Invoke_Query unary_call_def CardinalityService_ServiceDesc_def full_names unboxed_def
      codec_Query split_beta split: sum.split option.split)

end

section \<open>A reference connection\<close>

text \<open>The request messages by their field numbers.\<close>

definition AddRequest_fields :: "AddRequest \<Rightarrow> (u64 \<times> wire_value) list" where
  "AddRequest_fields m = bytes_field 1 (bytes_of_string (areq_Group m)) @ uint_field 2 (areq_Id m)"

definition BatchAddRequest_fields :: "BatchAddRequest \<Rightarrow> (u64 \<times> wire_value) list" where
  "BatchAddRequest_fields m = bytes_field 1 (bytes_of_string (breq_Group m))
     @ bytes_field 2 (concat (map (AppendUvarint []) (breq_Ids m)))"

definition QueryRequest_fields :: "QueryRequest \<Rightarrow> (u64 \<times> wire_value) list" where
  "QueryRequest_fields m = bytes_field 1 (bytes_of_string (qreq_Group m)) @ uint_field 2 (if qreq_StaleOk m then 1 else 0)"

definition ref_encoders :: pb_encoders where
  "ref_encoders = \<lparr>
     pe_AddRequest = (\<lambda>m. marshal [bytes_of_string (areq_Group m)] (AddRequest_fields m)),
     pe_BatchAddRequest = (\<lambda>m. marshal [bytes_of_string (breq_Group m)] (BatchAddRequest_fields m)),
     pe_QueryRequest = (\<lambda>m. marshal [bytes_of_string (qreq_Group m)] (QueryRequest_fields m))\<rparr>"

definition ref_decoders :: pb_decoders where
  "ref_decoders = \<lparr>
     pd_AddRequest = unmarshal (\<lambda>fs. [get_bytes 1 fs []])
       (\<lambda>fs. Some \<lparr>areq_Group = string_of_bytes (get_bytes 1 fs []), areq_Id = get_uint 2 fs 0\<rparr>),
     pd_BatchAddRequest = unmarshal (\<lambda>fs. [get_bytes 1 fs []])
       (\<lambda>fs. map_option (\<lambda>xs. \<lparr>breq_Group = string_of_bytes (get_bytes 1 fs []), breq_Ids = xs\<rparr>) (dec_packed (get_bytes 2 fs []))),
     pd_QueryRequest = unmarshal (\<lambda>fs. [get_bytes 1 fs []])
       (\<lambda>fs. Some \<lparr>qreq_Group = string_of_bytes (get_bytes 1 fs []), qreq_StaleOk = (get_uint 2 fs 0 \<noteq> 0)\<rparr>)\<rparr>"

lemma ref_codecs:
  "pe_AddRequest ref_encoders am = Inr b \<Longrightarrow> pd_AddRequest ref_decoders b = Inr am"
  "pe_BatchAddRequest ref_encoders bm = Inr b \<Longrightarrow> pd_BatchAddRequest ref_decoders b = Inr bm"
  "pe_QueryRequest ref_encoders qm = Inr b \<Longrightarrow> pd_QueryRequest ref_decoders b = Inr qm"
proof -
  show "pe_AddRequest ref_encoders am = Inr b \<Longrightarrow> pd_AddRequest ref_decoders b = Inr am"
    by (cases am) (auto simp: ref_encoders_def ref_decoders_def AddRequest_fields_def intro!: unmarshal_marshal)
  show "pe_BatchAddRequest ref_encoders bm = Inr b \<Longrightarrow> pd_BatchAddRequest ref_decoders b = Inr bm"
    by (cases bm) (auto simp: ref_encoders_def ref_decoders_def BatchAddRequest_fields_def wire_simps intro!: unmarshal_marshal)
  show "pe_QueryRequest ref_encoders qm = Inr b \<Longrightarrow> pd_QueryRequest ref_decoders b = Inr qm"
    by (cases qm) (auto simp: ref_encoders_def ref_decoders_def QueryRequest_fields_def intro!: unmarshal_marshal split: if_splits)
qed

definition ref_conn :: "'w service \<Rightarrow> 'w interceptor option \<Rightarrow> 'w ClientConn" where
  "ref_conn srv i = \<lparr>
     cc_Invoke_Add = unary_call CardinalityService_ServiceDesc srv ref_decoders i (\<lambda>e. e) (pe_AddRequest ref_encoders) unbox_Add,
     cc_Invoke_BatchAdd = unary_call CardinalityService_ServiceDesc srv ref_decoders i (\<lambda>e. e) (pe_BatchAddRequest ref_encoders) unbox_Add,
     cc_Invoke_Query = unary_call CardinalityService_ServiceDesc srv ref_decoders i (\<lambda>e. e) (pe_QueryRequest ref_encoders) unbox_Query\<rparr>"

interpretation ref_cc: grpc_conn "ref_conn srv i" srv ref_encoders ref_decoders i "\<lambda>e. e" for srv i
  by unfold_locales (auto simp: ref_conn_def ref_codecs)

section \<open>Stub calls on the server\<close>

lemma stub_served:
  assumes "grpc_conn cc (Server_methods env) E D (Some (UnaryMetricsInterceptor code)) conv"
  shows "pe_AddRequest E areq = Inr b1 \<Longrightarrow> sv_Add (NewCardinalityServiceClient cc) areq sw
      = (serve env code (RpcAdd (Inr areq)) sw, map_sum conv (\<lambda>r. r) (snd (Server_Add env areq sw)))"
    and "pe_BatchAddRequest E breq = Inr b2 \<Longrightarrow> sv_BatchAdd (NewCardinalityServiceClient cc) breq sw
      = (serve env code (RpcBatchAdd (Inr breq)) sw, map_sum conv (\<lambda>r. r) (snd (Server_BatchAdd env breq sw)))"
    and "pe_QueryRequest E qreq = Inr b3 \<Longrightarrow> sv_Query (NewCardinalityServiceClient cc) qreq sw
      = (serve env code (RpcQuery (Inr qreq)) sw, map_sum conv (\<lambda>r. r) (snd (Server_Query env qreq sw)))"
proof -
  note u = grpc_conn.unboxed_boxed [OF assms]
  let ?i = "Some (UnaryMetricsInterceptor code)" and ?srv = "Server_methods env"
  have h: "snd (CardinalityService_Add_Handler ?srv (Inr areq) ?i sw) = snd (boxed ReplyAdd (Server_Add env areq sw))"
    "snd (CardinalityService_BatchAdd_Handler ?srv (Inr breq) ?i sw) = snd (boxed ReplyAdd (Server_BatchAdd env breq sw))"
    "snd (CardinalityService_Query_Handler ?srv (Inr qreq) ?i sw) = snd (boxed ReplyQuery (Server_Query env qreq sw))"
    by (simp_all add: method_handlers Interceptor_transparent)
  note stubs = grpc_conn.stub_Add [OF assms] grpc_conn.stub_BatchAdd [OF assms] grpc_conn.stub_Query [OF assms]
    u(1) [OF h(1)] u(1) [OF h(2)] u(2) [OF h(3)]
  show "pe_AddRequest E areq = Inr b1 \<Longrightarrow> sv_Add (NewCardinalityServiceClient cc) areq sw
      = (serve env code (RpcAdd (Inr areq)) sw, map_sum conv (\<lambda>r. r) (snd (Server_Add env areq sw)))"
    "pe_BatchAddRequest E breq = Inr b2 \<Longrightarrow> sv_BatchAdd (NewCardinalityServiceClient cc) breq sw
      = (serve env code (RpcBatchAdd (Inr breq)) sw, map_sum conv (\<lambda>r. r) (snd (Server_BatchAdd env breq sw)))"
    "pe_QueryRequest E qreq = Inr b3 \<Longrightarrow> sv_Query (NewCardinalityServiceClient cc) qreq sw
      = (serve env code (RpcQuery (Inr qreq)) sw, map_sum conv (\<lambda>r. r) (snd (Server_Query env qreq sw)))"
    by (simp_all add: stubs)
qed

section \<open>Properties\<close>



end
