(* ===== verification/Gateway.thy ===== *)
theory Gateway
  imports Grpc_Client
begin

text \<open>
  The generated reverse proxy \<^verbatim>\<open>gen/cardinality/v1/cardinality.pb.gw.go\<close>: it turns an HTTP request
  into a call of the service, either through a gRPC client or on the server object itself. The
  runtime library of the gateway (message decoding, path and query parameters, contexts,
  responses) is the record \<open>gateway_lib\<close> over HTTP requests \<open>'h\<close> and response writers \<open>'rw\<close>. Of
  a context only the error of creating it is kept; response metadata is not modelled. A mux is
  the list of its registrations; matching paths against patterns is the library's.
\<close>

section \<open>The gateway library\<close>

record DoubleArray =
  da_Encoding :: "string \<rightharpoonup> nat"
  da_Base :: "nat list"
  da_Check :: "nat list"

record Pattern =
  pt_version :: nat
  pt_ops :: "nat list"
  pt_pool :: "string list"
  pt_verb :: string

record ('h, 'rw) gateway_lib =
  gl_Decode_Add :: "'h \<Rightarrow> AddRequest \<Rightarrow> AddRequest \<times> err"
  gl_Decode_BatchAdd :: "'h \<Rightarrow> BatchAddRequest \<Rightarrow> BatchAddRequest \<times> err"
  gl_String :: "string \<Rightarrow> go_error + string"
  gl_ParseForm :: "'h \<Rightarrow> 'h \<times> err"
  gl_PopulateQueryParameters :: "QueryRequest \<Rightarrow> 'h \<Rightarrow> DoubleArray \<Rightarrow> QueryRequest \<times> err"
  gl_AnnotateContext :: "'h \<Rightarrow> string \<Rightarrow> string \<Rightarrow> err"
  gl_AnnotateIncomingContext :: "'h \<Rightarrow> string \<Rightarrow> string \<Rightarrow> err"
  gl_HTTPError :: "'h \<Rightarrow> go_error \<Rightarrow> 'rw \<Rightarrow> 'rw"
  gl_Forward_Add :: "'h \<Rightarrow> AddResponse \<Rightarrow> 'rw \<Rightarrow> 'rw"
  gl_Forward_Query :: "'h \<Rightarrow> QueryResponse \<Rightarrow> 'rw \<Rightarrow> 'rw"

definition io_EOF :: go_error where
  "io_EOF = ErrExternal ''EOF''"

definition invalid_argument :: "err \<Rightarrow> go_error + 'r" where
  "invalid_argument e = Inl (ErrStatus InvalidArgument e)"

section \<open>Translating requests\<close>

definition request_CardinalityService_Add_0 ::
    "('h, 'rw) gateway_lib \<Rightarrow> 'w service \<Rightarrow> 'h \<Rightarrow> (string \<rightharpoonup> string) \<Rightarrow> 'w \<Rightarrow> 'w \<times> (go_error + AddResponse)" where
  "request_CardinalityService_Add_0 lib client req pathParams w =
     (let (protoReq, er) = gl_Decode_Add lib req \<lparr>areq_Group = [], areq_Id = 0\<rparr>
      in if er \<noteq> None \<and> er \<noteq> Some io_EOF then (w, invalid_argument er)
         else case pathParams ''group'' of
           None \<Rightarrow> (w, invalid_argument None)
         | Some val \<Rightarrow>
             (case gl_String lib val of
                Inl e \<Rightarrow> (w, invalid_argument (Some e))
              | Inr g \<Rightarrow> sv_Add client (protoReq\<lparr>areq_Group := g\<rparr>) w))"

definition local_request_CardinalityService_Add_0 ::
    "('h, 'rw) gateway_lib \<Rightarrow> 'w service \<Rightarrow> 'h \<Rightarrow> (string \<rightharpoonup> string) \<Rightarrow> 'w \<Rightarrow> 'w \<times> (go_error + AddResponse)" where
  "local_request_CardinalityService_Add_0 lib server req pathParams w =
     (let (protoReq, er) = gl_Decode_Add lib req \<lparr>areq_Group = [], areq_Id = 0\<rparr>
      in if er \<noteq> None \<and> er \<noteq> Some io_EOF then (w, invalid_argument er)
         else case pathParams ''group'' of
           None \<Rightarrow> (w, invalid_argument None)
         | Some val \<Rightarrow>
             (case gl_String lib val of
                Inl e \<Rightarrow> (w, invalid_argument (Some e))
              | Inr g \<Rightarrow> sv_Add server (protoReq\<lparr>areq_Group := g\<rparr>) w))"

definition request_CardinalityService_BatchAdd_0 ::
    "('h, 'rw) gateway_lib \<Rightarrow> 'w service \<Rightarrow> 'h \<Rightarrow> (string \<rightharpoonup> string) \<Rightarrow> 'w \<Rightarrow> 'w \<times> (go_error + AddResponse)" where
  "request_CardinalityService_BatchAdd_0 lib client req pathParams w =
     (let (protoReq, er) = gl_Decode_BatchAdd lib req \<lparr>breq_Group = [], breq_Ids = []\<rparr>
      in if er \<noteq> None \<and> er \<noteq> Some io_EOF then (w, invalid_argument er)
         else case pathParams ''group'' of
           None \<Rightarrow> (w, invalid_argument None)
         | Some val \<Rightarrow>
             (case gl_String lib val of
                Inl e \<Rightarrow> (w, invalid_argument (Some e))
              | Inr g \<Rightarrow> sv_BatchAdd client (protoReq\<lparr>breq_Group := g\<rparr>) w))"

definition local_request_CardinalityService_BatchAdd_0 ::
    "('h, 'rw) gateway_lib \<Rightarrow> 'w service \<Rightarrow> 'h \<Rightarrow> (string \<rightharpoonup> string) \<Rightarrow> 'w \<Rightarrow> 'w \<times> (go_error + AddResponse)" where
  "local_request_CardinalityService_BatchAdd_0 lib server req pathParams w =
     (let (protoReq, er) = gl_Decode_BatchAdd lib req \<lparr>breq_Group = [], breq_Ids = []\<rparr>
      in if er \<noteq> None \<and> er \<noteq> Some io_EOF then (w, invalid_argument er)
         else case pathParams ''group'' of
           None \<Rightarrow> (w, invalid_argument None)
         | Some val \<Rightarrow>
             (case gl_String lib val of
                Inl e \<Rightarrow> (w, invalid_argument (Some e))
              | Inr g \<Rightarrow> sv_BatchAdd server (protoReq\<lparr>breq_Group := g\<rparr>) w))"

definition filter_CardinalityService_Query_0 :: DoubleArray where
  "filter_CardinalityService_Query_0 =
     \<lparr>da_Encoding = [''group'' \<mapsto> 0], da_Base = [1, 1, 0], da_Check = [0, 1, 2]\<rparr>"

definition request_CardinalityService_Query_0 ::
    "('h, 'rw) gateway_lib \<Rightarrow> 'w service \<Rightarrow> 'h \<Rightarrow> (string \<rightharpoonup> string) \<Rightarrow> 'w \<Rightarrow> 'w \<times> (go_error + QueryResponse)" where
  "request_CardinalityService_Query_0 lib client req pathParams w =
     (case pathParams ''group'' of
        None \<Rightarrow> (w, invalid_argument None)
      | Some val \<Rightarrow>
          (case gl_String lib val of
             Inl e \<Rightarrow> (w, invalid_argument (Some e))
           | Inr g \<Rightarrow>
               (case gl_ParseForm lib req of
                  (req, Some e) \<Rightarrow> (w, invalid_argument (Some e))
                | (req, None) \<Rightarrow>
                    (case gl_PopulateQueryParameters lib \<lparr>qreq_Group = g, qreq_StaleOk = False\<rparr> req
                        filter_CardinalityService_Query_0 of
                       (protoReq, Some e) \<Rightarrow> (w, invalid_argument (Some e))
                     | (protoReq, None) \<Rightarrow> sv_Query client protoReq w))))"

definition local_request_CardinalityService_Query_0 ::
    "('h, 'rw) gateway_lib \<Rightarrow> 'w service \<Rightarrow> 'h \<Rightarrow> (string \<rightharpoonup> string) \<Rightarrow> 'w \<Rightarrow> 'w \<times> (go_error + QueryResponse)" where
  "local_request_CardinalityService_Query_0 lib server req pathParams w =
     (case pathParams ''group'' of
        None \<Rightarrow> (w, invalid_argument None)
      | Some val \<Rightarrow>
          (case gl_String lib val of
             Inl e \<Rightarrow> (w, invalid_argument (Some e))
           | Inr g \<Rightarrow>
               (case gl_ParseForm lib req of
                  (req, Some e) \<Rightarrow> (w, invalid_argument (Some e))
                | (req, None) \<Rightarrow>
                    (case gl_PopulateQueryParameters lib \<lparr>qreq_Group = g, qreq_StaleOk = False\<rparr> req
                        filter_CardinalityService_Query_0 of
                       (protoReq, Some e) \<Rightarrow> (w, invalid_argument (Some e))
                     | (protoReq, None) \<Rightarrow> sv_Query server protoReq w))))"

section \<open>Registering handlers\<close>

type_synonym ('h, 'rw, 'w) http_handler = "'rw \<Rightarrow> 'h \<Rightarrow> (string \<rightharpoonup> string) \<Rightarrow> 'w \<Rightarrow> 'w \<times> 'rw"

type_synonym ('h, 'rw, 'w) ServeMux = "(string \<times> Pattern \<times> ('h, 'rw, 'w) http_handler) list"

definition mux_Handle ::
    "string \<Rightarrow> Pattern \<Rightarrow> ('h, 'rw, 'w) http_handler \<Rightarrow> ('h, 'rw, 'w) ServeMux \<Rightarrow> ('h, 'rw, 'w) ServeMux" where
  "mux_Handle meth pat h mux = mux @ [(meth, pat, h)]"

text \<open>The body all six handlers share: annotate the context, make the request, write the error or
  forward the response.\<close>

definition unary_handler ::
    "('h, 'rw) gateway_lib \<Rightarrow> ('h \<Rightarrow> err) \<Rightarrow> ('h \<Rightarrow> (string \<rightharpoonup> string) \<Rightarrow> 'w \<Rightarrow> 'w \<times> (go_error + 'r)) \<Rightarrow>
     ('h \<Rightarrow> 'r \<Rightarrow> 'rw \<Rightarrow> 'rw) \<Rightarrow> ('h, 'rw, 'w) http_handler" where
  "unary_handler lib annotate call forward rw req pathParams w =
     (case annotate req of
        Some e \<Rightarrow> (w, gl_HTTPError lib req e rw)
      | None \<Rightarrow>
          (case call req pathParams w of
             (w, Inl e) \<Rightarrow> (w, gl_HTTPError lib req e rw)
           | (w, Inr resp) \<Rightarrow> (w, forward req resp rw)))"

definition pattern_CardinalityService_Add_0 :: Pattern where
  "pattern_CardinalityService_Add_0 = \<lparr>pt_version = 1, pt_ops = [2, 0, 2, 1, 1, 0, 4, 1, 5, 1, 2, 2],
     pt_pool = [''v1'', ''group'', ''add''], pt_verb = ''''\<rparr>"

definition pattern_CardinalityService_BatchAdd_0 :: Pattern where
  "pattern_CardinalityService_BatchAdd_0 = \<lparr>pt_version = 1, pt_ops = [2, 0, 2, 1, 1, 0, 4, 1, 5, 1, 2, 2],
     pt_pool = [''v1'', ''group'', ''batch''], pt_verb = ''''\<rparr>"

definition pattern_CardinalityService_Query_0 :: Pattern where
  "pattern_CardinalityService_Query_0 = \<lparr>pt_version = 1, pt_ops = [2, 0, 2, 1, 1, 0, 4, 1, 5, 1, 2, 2],
     pt_pool = [''v1'', ''group'', ''cardinality''], pt_verb = ''''\<rparr>"

definition RegisterCardinalityServiceHandlerServer ::
    "('h, 'rw) gateway_lib \<Rightarrow> 'w service \<Rightarrow> ('h, 'rw, 'w) ServeMux \<Rightarrow> ('h, 'rw, 'w) ServeMux \<times> err" where
  "RegisterCardinalityServiceHandlerServer lib server mux =
     (mux_Handle ''GET'' pattern_CardinalityService_Query_0
       (unary_handler lib
         (\<lambda>req. gl_AnnotateIncomingContext lib req ''/cardinality.v1.CardinalityService/Query'' ''/v1/group/{group}/cardinality'')
         (local_request_CardinalityService_Query_0 lib server) (gl_Forward_Query lib))
     (mux_Handle ''POST'' pattern_CardinalityService_BatchAdd_0
       (unary_handler lib
         (\<lambda>req. gl_AnnotateIncomingContext lib req ''/cardinality.v1.CardinalityService/BatchAdd'' ''/v1/group/{group}/batch'')
         (local_request_CardinalityService_BatchAdd_0 lib server) (gl_Forward_Add lib))
     (mux_Handle ''POST'' pattern_CardinalityService_Add_0
       (unary_handler lib
         (\<lambda>req. gl_AnnotateIncomingContext lib req ''/cardinality.v1.CardinalityService/Add'' ''/v1/group/{group}/add'')
         (local_request_CardinalityService_Add_0 lib server) (gl_Forward_Add lib))
     mux)), None)"

definition RegisterCardinalityServiceHandlerClient ::
    "('h, 'rw) gateway_lib \<Rightarrow> 'w service \<Rightarrow> ('h, 'rw, 'w) ServeMux \<Rightarrow> ('h, 'rw, 'w) ServeMux \<times> err" where
  "RegisterCardinalityServiceHandlerClient lib client mux =
     (mux_Handle ''GET'' pattern_CardinalityService_Query_0
       (unary_handler lib
         (\<lambda>req. gl_AnnotateContext lib req ''/cardinality.v1.CardinalityService/Query'' ''/v1/group/{group}/cardinality'')
         (request_CardinalityService_Query_0 lib client) (gl_Forward_Query lib))
     (mux_Handle ''POST'' pattern_CardinalityService_BatchAdd_0
       (unary_handler lib
         (\<lambda>req. gl_AnnotateContext lib req ''/cardinality.v1.CardinalityService/BatchAdd'' ''/v1/group/{group}/batch'')
         (request_CardinalityService_BatchAdd_0 lib client) (gl_Forward_Add lib))
     (mux_Handle ''POST'' pattern_CardinalityService_Add_0
       (unary_handler lib
         (\<lambda>req. gl_AnnotateContext lib req ''/cardinality.v1.CardinalityService/Add'' ''/v1/group/{group}/add'')
         (request_CardinalityService_Add_0 lib client) (gl_Forward_Add lib))
     mux)), None)"

definition RegisterCardinalityServiceHandler ::
    "('h, 'rw) gateway_lib \<Rightarrow> 'w ClientConn \<Rightarrow> ('h, 'rw, 'w) ServeMux \<Rightarrow> ('h, 'rw, 'w) ServeMux \<times> err" where
  "RegisterCardinalityServiceHandler lib conn mux =
     RegisterCardinalityServiceHandlerClient lib (NewCardinalityServiceClient conn) mux"

text \<open>Registration over an endpoint: \<open>NewClient\<close> is \<^verbatim>\<open>grpc.NewClient\<close>. The deferred function closes the
  connection at once when the registration failed and otherwise starts a goroutine that closes
  it when the context is done.\<close>

datatype conn_fate = NotDialled | ClosedAtOnce | ClosedWhenDone

definition RegisterCardinalityServiceHandlerFromEndpoint ::
    "('h, 'rw) gateway_lib \<Rightarrow> (string \<Rightarrow> go_error + 'w ClientConn) \<Rightarrow> string \<Rightarrow> ('h, 'rw, 'w) ServeMux \<Rightarrow>
     ('h, 'rw, 'w) ServeMux \<times> err \<times> conn_fate" where
  "RegisterCardinalityServiceHandlerFromEndpoint lib NewClient endpoint mux =
     (case NewClient endpoint of
        Inl e \<Rightarrow> (mux, Some e, NotDialled)
      | Inr conn \<Rightarrow>
          (case RegisterCardinalityServiceHandler lib conn mux of
             (mux, Some e) \<Rightarrow> (mux, Some e, ClosedAtOnce)
           | (mux, None) \<Rightarrow> (mux, None, ClosedWhenDone)))"

section \<open>What a request can do\<close>

text \<open>The two variants of a translation differ only in whom they call.\<close>

lemma local_requests:
  "local_request_CardinalityService_Add_0 = request_CardinalityService_Add_0"
  "local_request_CardinalityService_BatchAdd_0 = request_CardinalityService_BatchAdd_0"
  "local_request_CardinalityService_Query_0 = request_CardinalityService_Query_0"
  by (simp_all add: fun_eq_iff local_request_CardinalityService_Add_0_def request_CardinalityService_Add_0_def
      local_request_CardinalityService_BatchAdd_0_def request_CardinalityService_BatchAdd_0_def
      local_request_CardinalityService_Query_0_def request_CardinalityService_Query_0_def)

text \<open>A client each of whose calls fails without an effect or is served.\<close>

definition calls_served ::
    "('s, 'db, 'x, 'c) server_env \<Rightarrow> (err \<Rightarrow> string) \<Rightarrow> ('s, 'db, 'x, 'c) srv_state service \<Rightarrow> bool" where
  "calls_served env code c \<longleftrightarrow>
     (\<forall>m sw. (\<exists>e. sv_Add c m sw = (sw, Inl e)) \<or> fst (sv_Add c m sw) = serve env code (RpcAdd (Inr m)) sw)
     \<and> (\<forall>m sw. (\<exists>e. sv_BatchAdd c m sw = (sw, Inl e)) \<or> fst (sv_BatchAdd c m sw) = serve env code (RpcBatchAdd (Inr m)) sw)
     \<and> (\<forall>m sw. (\<exists>e. sv_Query c m sw = (sw, Inl e)) \<or> fst (sv_Query c m sw) = serve env code (RpcQuery (Inr m)) sw)"

lemma calls_servedD:
  assumes "calls_served env code c"
  shows "\<not> (\<exists>e. sv_Add c am sw = (sw, Inl e)) \<Longrightarrow> fst (sv_Add c am sw) = serve env code (RpcAdd (Inr am)) sw"
    and "\<not> (\<exists>e. sv_BatchAdd c bm sw = (sw, Inl e)) \<Longrightarrow> fst (sv_BatchAdd c bm sw) = serve env code (RpcBatchAdd (Inr bm)) sw"
    and "\<not> (\<exists>e. sv_Query c qm sw = (sw, Inl e)) \<Longrightarrow> fst (sv_Query c qm sw) = serve env code (RpcQuery (Inr qm)) sw"
  using assms unfolding calls_served_def by blast+

lemma calls_served_conn:
  assumes "grpc_conn cc (Server_methods env) E D (Some (UnaryMetricsInterceptor code)) conv"
  shows "calls_served env code (NewCardinalityServiceClient cc)"
  unfolding calls_served_def grpc_conn.stub_Add [OF assms] grpc_conn.stub_BatchAdd [OF assms] grpc_conn.stub_Query [OF assms]
  by (simp add: grpc_conn.unboxed_def [OF assms] split: sum.split)

declare serve.simps [simp del]

fun rpc_group :: "rpc \<Rightarrow> string" where
  "rpc_group (RpcAdd d) = (case d of Inl _ \<Rightarrow> [] | Inr r \<Rightarrow> areq_Group r)"
| "rpc_group (RpcBatchAdd d) = (case d of Inl _ \<Rightarrow> [] | Inr r \<Rightarrow> breq_Group r)"
| "rpc_group (RpcQuery d) = (case d of Inl _ \<Rightarrow> [] | Inr r \<Rightarrow> qreq_Group r)"

text \<open>What the generated code relies on: \<^verbatim>\<open>runtime.String\<close> returns its argument, and query parameters
  never overwrite a field that the filter names.\<close>

locale gateway_spec =
  fixes lib :: "('h, 'rw) gateway_lib"
  assumes String_id: "gl_String lib s = Inr s"
    and Populate_filter: "''group'' \<in> dom (da_Encoding f) \<Longrightarrow>
      qreq_Group (fst (gl_PopulateQueryParameters lib q req f)) = qreq_Group q"
begin

text \<open>Each translation either rejects the request and leaves the state alone, or makes one call for
  the group of the path.\<close>

lemma request_Add_cases:
  "(\<exists>e. request_CardinalityService_Add_0 lib c req params w = (w, Inl e))
   \<or> (\<exists>r. params ''group'' = Some (areq_Group r) \<and> request_CardinalityService_Add_0 lib c req params w = sv_Add c r w)"
  by (cases "params ''group''")
    (auto simp: request_CardinalityService_Add_0_def String_id invalid_argument_def split_beta Let_def
      intro: exI [of _ "r\<lparr>areq_Group := g\<rparr>" for r g])

lemma request_BatchAdd_cases:
  "(\<exists>e. request_CardinalityService_BatchAdd_0 lib c req params w = (w, Inl e))
   \<or> (\<exists>r. params ''group'' = Some (breq_Group r) \<and> request_CardinalityService_BatchAdd_0 lib c req params w = sv_BatchAdd c r w)"
  by (cases "params ''group''")
    (auto simp: request_CardinalityService_BatchAdd_0_def String_id invalid_argument_def split_beta Let_def
      intro: exI [of _ "r\<lparr>breq_Group := g\<rparr>" for r g])

lemma request_Query_cases:
  "(\<exists>e. request_CardinalityService_Query_0 lib c req params w = (w, Inl e))
   \<or> (\<exists>r. params ''group'' = Some (qreq_Group r) \<and> request_CardinalityService_Query_0 lib c req params w = sv_Query c r w)"
proof (cases "params ''group''")
  case (Some g)
  obtain req' er where f: "gl_ParseForm lib req = (req', er)" by fastforce
  obtain q er' where q: "gl_PopulateQueryParameters lib \<lparr>qreq_Group = g, qreq_StaleOk = False\<rparr> req'
      filter_CardinalityService_Query_0 = (q, er')" by fastforce
  have "qreq_Group q = g"
    using Populate_filter [of filter_CardinalityService_Query_0 "\<lparr>qreq_Group = g, qreq_StaleOk = False\<rparr>" req'] q
    by (simp add: filter_CardinalityService_Query_0_def)
  with Some f q show ?thesis
    by (cases er; cases er')
      (auto simp: request_CardinalityService_Query_0_def String_id invalid_argument_def)
qed (simp add: request_CardinalityService_Query_0_def invalid_argument_def)

lemma unary_handler_cases:
  assumes "unary_handler lib annotate call forward rw req params w = (w', rw')"
  shows "(\<exists>e. w' = w \<and> rw' = gl_HTTPError lib req e rw)
    \<or> w' = fst (call req params w) \<and> \<not> (\<exists>e. call req params w = (w, Inl e))"
  using assms by (auto simp: unary_handler_def split: option.splits prod.splits sum.splits)

text \<open>The three handlers alike: \<open>sv\<close> is the call that a translation may end in.\<close>

lemma unary_handler_rpc:
  assumes "unary_handler lib annotate call forward rw req params sw = (sw', rw')"
    and "(\<exists>e. call req params sw = (sw, Inl e)) \<or> (\<exists>r. P r \<and> call req params sw = sv r sw)"
    and "\<And>r. \<not> (\<exists>e. sv r sw = (sw, Inl e)) \<Longrightarrow> fst (sv r sw) = serve env code (K r) sw"
    and "\<And>r. P r \<Longrightarrow> A (K r) \<and> B (K r) \<and> C (K r)"
  shows "(\<exists>e. sw' = sw \<and> rw' = gl_HTTPError lib req e rw) \<or> (\<exists>x. A x \<and> B x \<and> sw' = serve env code x sw \<and> C x)"
  using unary_handler_cases [OF assms(1)] assms(2-4) by metis

lemma http_handler_rpc:
  assumes "(meth, pat, h) \<in> set (fst (RegisterCardinalityServiceHandlerClient lib c []))"
    and "h rw req params sw = (sw', rw')" and "calls_served env code c"
  shows "(\<exists>e. sw' = sw \<and> rw' = gl_HTTPError lib req e rw)
    \<or> (\<exists>r. params ''group'' = Some (rpc_group r) \<and> rpc_decoded r \<and> sw' = serve env code r sw
        \<and> (meth, pat) = (case r of RpcAdd _ \<Rightarrow> (''POST'', pattern_CardinalityService_Add_0)
            | RpcBatchAdd _ \<Rightarrow> (''POST'', pattern_CardinalityService_BatchAdd_0)
            | RpcQuery _ \<Rightarrow> (''GET'', pattern_CardinalityService_Query_0)))"
proof -
  consider a where "(meth, pat) = (''POST'', pattern_CardinalityService_Add_0)"
      "h = unary_handler lib a (request_CardinalityService_Add_0 lib c) (gl_Forward_Add lib)"
    | a where "(meth, pat) = (''POST'', pattern_CardinalityService_BatchAdd_0)"
      "h = unary_handler lib a (request_CardinalityService_BatchAdd_0 lib c) (gl_Forward_Add lib)"
    | a where "(meth, pat) = (''GET'', pattern_CardinalityService_Query_0)"
      "h = unary_handler lib a (request_CardinalityService_Query_0 lib c) (gl_Forward_Query lib)"
    using assms(1) by (auto simp: RegisterCardinalityServiceHandlerClient_def mux_Handle_def)
  then show ?thesis
  proof cases
    case 1
    show ?thesis
      by (rule unary_handler_rpc [where sv = "sv_Add c" and K = "\<lambda>r. RpcAdd (Inr r)" and P = "\<lambda>r. params ''group'' = Some (areq_Group r)",
            OF assms(2) [unfolded 1(2)] request_Add_cases calls_servedD(1) [OF assms(3)]]) (use 1(1) in simp_all)
  next
    case 2
    show ?thesis
      by (rule unary_handler_rpc [where sv = "sv_BatchAdd c" and K = "\<lambda>r. RpcBatchAdd (Inr r)" and P = "\<lambda>r. params ''group'' = Some (breq_Group r)",
            OF assms(2) [unfolded 2(2)] request_BatchAdd_cases calls_servedD(2) [OF assms(3)]]) (use 2(1) in simp_all)
  next
    case 3
    show ?thesis
      by (rule unary_handler_rpc [where sv = "sv_Query c" and K = "\<lambda>r. RpcQuery (Inr r)" and P = "\<lambda>r. params ''group'' = Some (qreq_Group r)",
            OF assms(2) [unfolded 3(2)] request_Query_cases calls_servedD(3) [OF assms(3)]]) (use 3(1) in simp_all)
  qed
qed

end

section \<open>A reference library\<close>

text \<open>A request is its body, an id or something that is not one, and a flag of the query string; a
  response is a word.\<close>

definition ref_gateway :: "(u64 option \<times> bool, string) gateway_lib" where
  "ref_gateway = \<lparr>
     gl_Decode_Add = (\<lambda>h r. case fst h of None \<Rightarrow> (r, Some (ErrExternal ''syntax error'')) | Some x \<Rightarrow> (r\<lparr>areq_Id := x\<rparr>, None)),
     gl_Decode_BatchAdd = (\<lambda>h r. case fst h of None \<Rightarrow> (r, Some io_EOF) | Some x \<Rightarrow> (r\<lparr>breq_Ids := [x]\<rparr>, None)),
     gl_String = Inr, gl_ParseForm = (\<lambda>h. (h, None)),
     gl_PopulateQueryParameters = (\<lambda>q h f. (q\<lparr>qreq_StaleOk := snd h\<rparr>, None)),
     gl_AnnotateContext = (\<lambda>_ _ _. None), gl_AnnotateIncomingContext = (\<lambda>_ _ _. None),
     gl_HTTPError = (\<lambda>_ e _. ''error''), gl_Forward_Add = (\<lambda>_ _ _. ''added''),
     gl_Forward_Query = (\<lambda>_ _ _. ''counted'')\<rparr>"

interpretation ref_gw: gateway_spec ref_gateway
  by unfold_locales (simp_all add: ref_gateway_def)

section \<open>Properties\<close>

text \<open>An HTTP request does one of two things: it is answered with an error and the server is not
  touched, or it is exactly one call of the service, the call that its method and path stand for,
  on the group named in the path. A group in the body or in the query string has no influence.\<close>

lemma gateway_one_rpc:
  assumes "gateway_spec lib" and "grpc_conn cc (Server_methods env) E D (Some (UnaryMetricsInterceptor code)) conv"
    and "RegisterCardinalityServiceHandlerFromEndpoint lib (\<lambda>_. Inr cc) endpoint [] = (mux, None, fate)"
    and "(meth, pat, h) \<in> set mux" and "h rw req params sw = (sw', rw')"
  shows "(\<exists>e. sw' = sw \<and> rw' = gl_HTTPError lib req e rw)
    \<or> (\<exists>r. params ''group'' = Some (rpc_group r) \<and> rpc_decoded r \<and> sw' = serve env code r sw
        \<and> (meth, pat) = (case r of RpcAdd _ \<Rightarrow> (''POST'', pattern_CardinalityService_Add_0)
            | RpcBatchAdd _ \<Rightarrow> (''POST'', pattern_CardinalityService_BatchAdd_0)
            | RpcQuery _ \<Rightarrow> (''GET'', pattern_CardinalityService_Query_0)))"
proof -
  have "(meth, pat, h) \<in> set (fst (RegisterCardinalityServiceHandlerClient lib (NewCardinalityServiceClient cc) []))"
    using assms(3,4) by (auto simp: RegisterCardinalityServiceHandlerFromEndpoint_def RegisterCardinalityServiceHandler_def
        split: prod.splits option.splits)
  from gateway_spec.http_handler_rpc [OF assms(1) this assms(5) calls_served_conn [OF assms(2)]] show ?thesis .
qed

lemma gateway_one_rpc_example:
  "\<exists>h sw' rw'. (''POST'', pattern_CardinalityService_Add_0, h)
      \<in> set (fst (RegisterCardinalityServiceHandler ref_gateway (ref_conn (Server_methods (leaf_env (\<lambda>_. 0) ref_badger))
          (Some (UnaryMetricsInterceptor (\<lambda>_. [])))) []))
    \<and> h [] (Some 7, False) Map.empty ref_server = (sw', rw') \<and> sw' = ref_server"
proof -
  let ?cc = "ref_conn (Server_methods (leaf_env (\<lambda>_. 0) ref_badger)) (Some (UnaryMetricsInterceptor (\<lambda>_. [])))
    :: (u64 set Sketch, (bytes \<times> bytes) list, unit, unit) srv_state ClientConn"
  let ?mux = "fst (RegisterCardinalityServiceHandler ref_gateway ?cc [])"
  obtain h where h: "(''POST'', pattern_CardinalityService_Add_0, h) \<in> set ?mux"
    by (auto simp: RegisterCardinalityServiceHandler_def RegisterCardinalityServiceHandlerClient_def mux_Handle_def)
  obtain sw' rw' where s: "h [] (Some 7, False) Map.empty ref_server = (sw', rw')" by fastforce
  have m: "RegisterCardinalityServiceHandlerFromEndpoint ref_gateway (\<lambda>_. Inr ?cc) [] [] = (?mux, None, ClosedWhenDone)"
    by (simp add: RegisterCardinalityServiceHandlerFromEndpoint_def RegisterCardinalityServiceHandler_def
        RegisterCardinalityServiceHandlerClient_def)
  have "sw' = ref_server"
    using gateway_one_rpc [OF ref_gw.gateway_spec_axioms ref_cc.grpc_conn_axioms m h s] by simp
  with h s show ?thesis by blast
qed

end
