(* ===== verification/Http_Surface.thy ===== *)
theory Http_Surface
  imports Raft_Service Gateway
begin

text \<open>
  The HTTP surface of \<^verbatim>\<open>cmd/server/main.go\<close>: what the gateway port and the metrics port answer. The
  multiplexer of \<^verbatim>\<open>net/http\<close> (of Go 1.21, which \<^verbatim>\<open>go.mod\<close> names) is modelled; the routing of the
  gateway's own multiplexer and the rendering of a scrape are parameters. Response headers and the
  text of a redirect are not modelled.
\<close>

section \<open>The multiplexer of net/http\<close>

record 'b http_request =
  rq_Method :: string
  rq_Path :: string
  rq_RequestURI :: string
  rq_rest :: 'b

type_synonym ('b, 'w) Handler = "ResponseWriter \<Rightarrow> 'b http_request \<Rightarrow> 'w \<Rightarrow> 'w \<times> ResponseWriter"

type_synonym ('b, 'w) http_mux = "(string \<times> ('b, 'w) Handler) list"

text \<open>\<^verbatim>\<open>path.Clean\<close> on a rooted path: empty and \<^verbatim>\<open>.\<close> segments go, \<^verbatim>\<open>..\<close> removes the segment before it.\<close>

fun clean_segments :: "string list \<Rightarrow> string list \<Rightarrow> string list" where
  "clean_segments acc [] = rev acc"
| "clean_segments acc (s # ss) =
     (if s = [] \<or> s = ''.'' then clean_segments acc ss
      else if s = ''..'' then clean_segments (tl acc) ss
      else clean_segments (s # acc) ss)"

definition join_path :: "string list \<Rightarrow> string" where
  "join_path ss = (if ss = [] then ''/'' else concat (map ((#) (CHR ''/'')) ss))"

definition path_Clean :: "string \<Rightarrow> string" where
  "path_Clean p = join_path (clean_segments [] (strings_Split (CHR ''/'') p))"

definition cleanPath :: "string \<Rightarrow> string" where
  "cleanPath p =
     (if p = [] then ''/''
      else let p = (if hd p \<noteq> CHR ''/'' then ''/'' @ p else p);
               np = path_Clean p
           in if last p = CHR ''/'' \<and> np \<noteq> ''/'' then np @ ''/'' else np)"

text \<open>An exact pattern wins, then the longest pattern that ends in a slash and is a prefix.\<close>

definition mux_match :: "('b, 'w) http_mux \<Rightarrow> string \<Rightarrow> ('b, 'w) Handler option" where
  "mux_match m path =
     (case map_of m path of
        Some h \<Rightarrow> Some h
      | None \<Rightarrow> map_option snd (find (\<lambda>(p, h). take (length p) path = p)
          (sort_key (\<lambda>(p, h). - int (length p)) (filter (\<lambda>(p, h). p \<noteq> [] \<and> last p = CHR ''/'') m))))"

definition shouldRedirect :: "('b, 'w) http_mux \<Rightarrow> string \<Rightarrow> bool" where
  "shouldRedirect m path \<longleftrightarrow> path \<noteq> [] \<and> map_of m path = None \<and> map_of m (path @ ''/'') \<noteq> None \<and> last path \<noteq> CHR ''/''"

definition mux_dispatch :: "('b, 'w) http_mux \<Rightarrow> ('b, 'w) Handler" where
  "mux_dispatch m rw req w =
     (case mux_match m (rq_Path req) of
        None \<Rightarrow> (w, http_Error ''404 page not found'' 404 rw)
      | Some h \<Rightarrow> h rw req w)"

definition mux_ServeHTTP :: "('b, 'w) http_mux \<Rightarrow> ('b, 'w) Handler" where
  "mux_ServeHTTP m rw req w =
     (if rq_RequestURI req = ''*'' then (w, WriteHeader 400 rw)
      else if rq_Method req = ''CONNECT'' then
        (if shouldRedirect m (rq_Path req) then (w, WriteHeader 301 rw) else mux_dispatch m rw req w)
      else let path = cleanPath (rq_Path req)
           in if shouldRedirect m path \<or> path \<noteq> rq_Path req then (w, WriteHeader 301 rw) else mux_dispatch m rw req w)"

section \<open>The two ports\<close>

text \<open>\<open>ready\<close> is the closure of \<^verbatim>\<open>run\<close> over the node, \<open>gw\<close> the gateway's multiplexer, \<open>prom\<close> the handler of
  \<^verbatim>\<open>promhttp\<close>.\<close>

definition mainMux :: "('w \<Rightarrow> bool) \<Rightarrow> ('b, 'w) Handler \<Rightarrow> ('b, 'w) http_mux" where
  "mainMux ready gw = [
     (''/healthz'', \<lambda>rw _ w. (w, HealthzHandler rw)),
     (''/readyz'', \<lambda>rw _ w. (w, ReadyzHandler (ready w) rw)),
     (''/'', gw)]"

definition metricsMux :: "('w \<Rightarrow> bool) \<Rightarrow> ('b, 'w) Handler \<Rightarrow> ('b, 'w) http_mux" where
  "metricsMux ready prom = [
     (''/metrics'', prom),
     (''/healthz'', \<lambda>rw _ w. (w, HealthzHandler rw)),
     (''/readyz'', \<lambda>rw _ w. (w, ReadyzHandler (ready w) rw))]"

text \<open>The state of the process behind both ports: the server and, in its world, the Raft node.\<close>

type_synonym ('s, 'db, 'n, 'm, 'c) process = "('s, 'db, ('s, 'db, 'n, 'm) node_sys, 'c) srv_state"

definition process_ready :: "('db, 'n, 'm) node_env \<Rightarrow> ('s, 'db, 'n, 'm, 'c) process \<Rightarrow> bool" where
  "process_ready nenv sw = main_ready nenv (sys_node (w_ext (snd sw)))"

text \<open>What the two registered collectors send. \<open>expose\<close> renders it together with the metrics of the
  packages.\<close>

definition process_scrape ::
    "(string set \<Rightarrow> string list) \<Rightarrow> ('db, 'n, 'm) node_env \<Rightarrow> int \<Rightarrow> ('s, 'db, 'n, 'm, 'c) process \<Rightarrow> Metric list" where
  "process_scrape order nenv maxGroups sw =
     EngineCollector_Collect order (NewEngineCollector (w_engine (snd sw)) maxGroups)
     @ RaftCollector_Collect nenv (NewRaftCollector (sys_node (w_ext (snd sw))))"

definition prom_Handler ::
    "(Metric list \<Rightarrow> metrics \<Rightarrow> store_metrics \<Rightarrow> ResponseWriter \<Rightarrow> ResponseWriter) \<Rightarrow>
     (('s, 'db, 'n, 'm, 'c) process \<Rightarrow> Metric list) \<Rightarrow> ('b, ('s, 'db, 'n, 'm, 'c) process) Handler" where
  "prom_Handler expose scrape rw req sw =
     (sw, expose (scrape sw) (srv_metrics (fst sw)) (st_metrics (w_store (snd sw))) rw)"

section \<open>What the multiplexer does\<close>

lemma mux_match_Some:
  assumes "mux_match m path = Some h"
  obtains p where "(p, h) \<in> set m" and "p = path \<or> map_of m path = None \<and> last p = CHR ''/'' \<and> take (length p) path = p"
proof (cases "map_of m path")
  case None
  let ?es = "sort_key (\<lambda>(p, h). - int (length p)) (filter (\<lambda>(p, h). p \<noteq> [] \<and> last p = CHR ''/'') m)"
  obtain e where e: "find (\<lambda>(p, h). take (length p) path = p) ?es = Some e" "h = snd e"
    using assms None by (auto simp: mux_match_def)
  then have "e \<in> set ?es" "case e of (p, h) \<Rightarrow> take (length p) path = p"
    using find_SomeD [OF e(1)] by simp_all
  with e(2) None show ?thesis by (intro that [of "fst e"]) (auto simp: split_beta)
next
  case (Some h')
  then show ?thesis using assms that map_of_SomeD by (fastforce simp: mux_match_def)
qed

text \<open>A request is answered by the multiplexer itself, without a handler, or by one handler.\<close>

lemma mux_ServeHTTP_cases:
  assumes "mux_ServeHTTP m rw req w = (w', rw')"
  obtains "w' = w" and "rw' = WriteHeader 400 rw" and "rq_RequestURI req = ''*''"
  | "w' = w" and "rw' = WriteHeader 301 rw"
  | "w' = w" and "rw' = http_Error ''404 page not found'' 404 rw" and "mux_match m (rq_Path req) = None"
  | h where "mux_match m (rq_Path req) = Some h" and "h rw req w = (w', rw')"
  using assms by (auto simp: mux_ServeHTTP_def mux_dispatch_def Let_def split: if_splits option.splits)

text \<open>A clean path that is registered goes to its handler.\<close>

lemma mux_ServeHTTP_exact:
  assumes "map_of m (rq_Path req) = Some h" and "cleanPath (rq_Path req) = rq_Path req" and "rq_RequestURI req \<noteq> ''*''"
  shows "mux_ServeHTTP m rw req w = h rw req w"
  using assms by (simp add: mux_ServeHTTP_def mux_dispatch_def mux_match_def shouldRedirect_def)

lemma clean_fixed_paths:
  "cleanPath ''/healthz'' = ''/healthz''" "cleanPath ''/readyz'' = ''/readyz''" "cleanPath ''/metrics'' = ''/metrics''"
  by code_simp+

lemma mainMux_match:
  "mux_match (mainMux ready gw) path =
     (if path = ''/healthz'' then Some (\<lambda>rw _ w. (w, HealthzHandler rw))
      else if path = ''/readyz'' then Some (\<lambda>rw _ w. (w, ReadyzHandler (ready w) rw))
      else if path \<noteq> [] \<and> hd path = CHR ''/'' then Some gw else None)"
  by (cases path) (auto simp: mux_match_def mainMux_def)

lemma metricsMux_match:
  "mux_match (metricsMux ready prom) path =
     (if path = ''/metrics'' then Some prom
      else if path = ''/healthz'' then Some (\<lambda>rw _ w. (w, HealthzHandler rw))
      else if path = ''/readyz'' then Some (\<lambda>rw _ w. (w, ReadyzHandler (ready w) rw)) else None)"
  by (auto simp: mux_match_def metricsMux_def)

lemma health_on_both_ports:
  assumes "rq_RequestURI req \<noteq> ''*''"
  shows "rq_Path req = ''/healthz'' \<Longrightarrow> mux_ServeHTTP (mainMux ready gw) rw req w = (w, HealthzHandler rw)"
    and "rq_Path req = ''/readyz'' \<Longrightarrow> mux_ServeHTTP (mainMux ready gw) rw req w = (w, ReadyzHandler (ready w) rw)"
    and "rq_Path req = ''/healthz'' \<Longrightarrow> mux_ServeHTTP (metricsMux ready prom) rw req w = (w, HealthzHandler rw)"
    and "rq_Path req = ''/readyz'' \<Longrightarrow> mux_ServeHTTP (metricsMux ready prom) rw req w = (w, ReadyzHandler (ready w) rw)"
    and "rq_Path req = ''/metrics'' \<Longrightarrow> mux_ServeHTTP (metricsMux ready prom) rw req w = prom rw req w"
  using assms by (simp_all add: mux_ServeHTTP_exact clean_fixed_paths mainMux_def metricsMux_def)

text \<open>Splitting and cleaning a path of plain segments.\<close>

lemma strings_Split_single: "c \<notin> set s \<Longrightarrow> strings_Split c s = [s]"
  by (induction s) auto

lemma strings_Split_append: "c \<notin> set s \<Longrightarrow> strings_Split c (s @ c # t) = s # strings_Split c t"
  by (induction s) auto

lemma strings_Split_path:
  "\<forall>s \<in> set ss. CHR ''/'' \<notin> set s \<Longrightarrow> ss \<noteq> [] \<Longrightarrow>
     strings_Split (CHR ''/'') (concat (map ((#) (CHR ''/'')) ss)) = [] # ss"
proof (induction ss)
  case (Cons s ss)
  then show ?case
    by (cases ss) (simp_all add: strings_Split_single strings_Split_append)
qed simp

definition plain_segment :: "string \<Rightarrow> bool" where
  "plain_segment s \<longleftrightarrow> s \<noteq> [] \<and> s \<noteq> ''.'' \<and> s \<noteq> ''..'' \<and> CHR ''/'' \<notin> set s"

lemma clean_plain: "list_all plain_segment ss \<Longrightarrow> clean_segments acc ss = rev acc @ ss"
  by (induction ss arbitrary: acc) (auto simp: plain_segment_def)

lemma cleanPath_plain:
  assumes "list_all plain_segment ss" and "ss \<noteq> []"
  shows "cleanPath (concat (map ((#) (CHR ''/'')) ss)) = concat (map ((#) (CHR ''/'')) ss)"
proof -
  let ?p = "concat (map ((#) (CHR ''/'')) ss)"
  have "\<forall>s \<in> set ss. CHR ''/'' \<notin> set s" using assms(1) by (auto simp: list_all_iff plain_segment_def)
  then have "path_Clean ?p = ?p"
    using assms by (simp add: path_Clean_def strings_Split_path clean_plain join_path_def)
  moreover have "last ?p \<noteq> CHR ''/''"
  proof -
    obtain ts t where ss: "ss = ts @ [t]" using assms(2) by (cases ss rule: rev_cases) simp_all
    then have "t \<noteq> []" "CHR ''/'' \<notin> set t" using assms(1) by (simp_all add: plain_segment_def)
    moreover from this(1) have "last t \<in> set t" by (rule last_in_set)
    ultimately have "last t \<noteq> CHR ''/''" by metis
    with \<open>t \<noteq> []\<close> show ?thesis by (simp add: ss)
  qed
  moreover have "?p \<noteq> [] \<and> hd ?p = CHR ''/''" using assms(2) by (cases ss) simp_all
  ultimately show ?thesis by (simp add: cleanPath_def)
qed

section \<open>Routing of the gateway\<close>

text \<open>The pattern that is compiled from the template \<^verbatim>\<open>/a/b/{b}/c\<close>.\<close>

definition group_template :: "string \<Rightarrow> string \<Rightarrow> string \<Rightarrow> Pattern" where
  "group_template a b c = \<lparr>pt_version = 1, pt_ops = [2, 0, 2, 1, 1, 0, 4, 1, 5, 1, 2, 2], pt_pool = [a, b, c], pt_verb = []\<rparr>"

lemma pattern_templates:
  "pattern_CardinalityService_Add_0 = group_template ''v1'' ''group'' ''add''"
  "pattern_CardinalityService_BatchAdd_0 = group_template ''v1'' ''group'' ''batch''"
  "pattern_CardinalityService_Query_0 = group_template ''v1'' ''group'' ''cardinality''"
  by (simp_all add: group_template_def pattern_CardinalityService_Add_0_def pattern_CardinalityService_BatchAdd_0_def
      pattern_CardinalityService_Query_0_def)

text \<open>What is relied on of the gateway's multiplexer: a request is refused with an error or handed to a
  registered handler whose pattern matches, with the parameters of the match, and it is handed to the
  handler for its method when no other pattern matches; \<open>eff\<close> is the method after overrides. A
  template matches the paths it describes and binds its variable to the segment.\<close>

locale gateway_mux = gateway_spec lib
  for lib :: "('b http_request, ResponseWriter) gateway_lib" +
  fixes gw_ServeHTTP :: "('b http_request, ResponseWriter, ('s, 'db, 'x, 'c) srv_state) ServeMux \<Rightarrow>
      ('b, ('s, 'db, 'x, 'c) srv_state) Handler"
    and matchp :: "Pattern \<Rightarrow> string \<Rightarrow> (string \<rightharpoonup> string) option"
    and eff :: "'b http_request \<Rightarrow> string"
  assumes routed: "(\<exists>e. gw_ServeHTTP mux rw req w = (w, gl_HTTPError lib req e rw))
      \<or> (\<exists>meth pat h params. (meth, pat, h) \<in> set mux \<and> matchp pat (rq_Path req) = Some params
          \<and> gw_ServeHTTP mux rw req w = h rw req params w)"
    and routes: "(eff req, pat, h) \<in> set mux \<Longrightarrow> matchp pat (rq_Path req) = Some params \<Longrightarrow>
      (\<And>meth' pat' h'. (meth', pat', h') \<in> set mux \<Longrightarrow> matchp pat' (rq_Path req) \<noteq> None \<Longrightarrow> (pat', h') = (pat, h)) \<Longrightarrow>
      gw_ServeHTTP mux rw req w = h rw req params w"
    and template_only: "matchp (group_template a b c) path = Some params \<Longrightarrow>
      \<exists>x. path = ''/'' @ a @ ''/'' @ b @ ''/'' @ x @ ''/'' @ c \<and> params b = Some x"
    and template_match: "list_all plain_segment [a, b, x, c] \<Longrightarrow>
      matchp (group_template a b c) (''/'' @ a @ ''/'' @ b @ ''/'' @ x @ ''/'' @ c) \<noteq> None"
begin

text \<open>A request to the gateway is refused, or is one call on the group in its path.\<close>

lemma gateway_request:
  assumes "mux = fst (RegisterCardinalityServiceHandlerClient lib c [])" and "calls_served env code c"
    and "gw_ServeHTTP mux rw req sw = (sw', rw')"
  shows "(\<exists>e. sw' = sw \<and> rw' = gl_HTTPError lib req e rw)
    \<or> (\<exists>r. rpc_decoded r \<and> sw' = serve env code r sw \<and> rq_Path req = ''/v1/group/'' @ rpc_group r @
        (case r of RpcAdd _ \<Rightarrow> ''/add'' | RpcBatchAdd _ \<Rightarrow> ''/batch'' | RpcQuery _ \<Rightarrow> ''/cardinality''))"
proof -
  from routed [of mux rw req sw] consider e where "sw' = sw" "rw' = gl_HTTPError lib req e rw"
    | meth pat h params where "(meth, pat, h) \<in> set mux" "matchp pat (rq_Path req) = Some params"
      "h rw req params sw = (sw', rw')"
    using assms(3) by auto
  then show ?thesis
  proof cases
    case 2
    from http_handler_rpc [OF 2(1) [unfolded assms(1)] 2(3) assms(2)] show ?thesis
    proof
      assume "\<exists>r. params ''group'' = Some (rpc_group r) \<and> rpc_decoded r \<and> sw' = serve env code r sw
        \<and> (meth, pat) = (case r of RpcAdd _ \<Rightarrow> (''POST'', pattern_CardinalityService_Add_0)
            | RpcBatchAdd _ \<Rightarrow> (''POST'', pattern_CardinalityService_BatchAdd_0)
            | RpcQuery _ \<Rightarrow> (''GET'', pattern_CardinalityService_Query_0))"
      then obtain r where r: "params ''group'' = Some (rpc_group r)" "rpc_decoded r" "sw' = serve env code r sw"
        "(meth, pat) = (case r of RpcAdd _ \<Rightarrow> (''POST'', pattern_CardinalityService_Add_0)
            | RpcBatchAdd _ \<Rightarrow> (''POST'', pattern_CardinalityService_BatchAdd_0)
            | RpcQuery _ \<Rightarrow> (''GET'', pattern_CardinalityService_Query_0))" by blast
      have "rq_Path req = ''/v1/group/'' @ rpc_group r @
          (case r of RpcAdd _ \<Rightarrow> ''/add'' | RpcBatchAdd _ \<Rightarrow> ''/batch'' | RpcQuery _ \<Rightarrow> ''/cardinality'')"
        using r(1,4) 2(2) by (cases r) (auto simp: pattern_templates dest!: template_only)
      with r(2,3) show ?thesis by blast
    qed blast
  qed blast
qed

text \<open>A query over HTTP for a group whose name is a plain path segment is answered with the response of the
  server's method.\<close>

lemma http_query:
  assumes "grpc_conn cc (Server_methods env) E D (Some (UnaryMetricsInterceptor code)) conv"
    and "mux = fst (RegisterCardinalityServiceHandlerClient lib (NewCardinalityServiceClient cc) [])"
    and "plain_segment g" and "rq_Path req = ''/v1/group/'' @ g @ ''/cardinality''" and "eff req = ''GET''"
    and "rq_RequestURI req \<noteq> ''*''"
    and "gl_AnnotateContext lib req ''/cardinality.v1.CardinalityService/Query'' ''/v1/group/{group}/cardinality'' = None"
    and "gl_ParseForm lib req = (req', None)"
    and "gl_PopulateQueryParameters lib \<lparr>qreq_Group = g, qreq_StaleOk = False\<rparr> req' filter_CardinalityService_Query_0 = (q, None)"
    and "pe_QueryRequest E q = Inr b" and "snd (Server_Query env q sw) = Inr resp"
  shows "mux_ServeHTTP (mainMux ready (gw_ServeHTTP mux)) rw req sw
    = (serve env code (RpcQuery (Inr q)) sw, gl_Forward_Query lib req resp rw)"
proof -
  let ?p = "rq_Path req" and ?c = "NewCardinalityServiceClient cc"
  have p: "?p = concat (map ((#) (CHR ''/'')) [''v1'', ''group'', g, ''cardinality''])" by (simp add: assms(4))
  have l: "list_all plain_segment [''v1'', ''group'', g, ''cardinality'']" using assms(3) by (simp add: plain_segment_def)
  have cl: "cleanPath ?p = ?p" unfolding p by (rule cleanPath_plain [OF l]) simp
  have red: "\<not> shouldRedirect (mainMux ready (gw_ServeHTTP mux)) ?p" by (simp add: shouldRedirect_def mainMux_def assms(4))
  have route: "mux_ServeHTTP (mainMux ready (gw_ServeHTTP mux)) rw req sw = gw_ServeHTTP mux rw req sw"
    using assms(6) red by (simp add: mux_ServeHTTP_def mux_dispatch_def cl mainMux_match) (simp add: assms(4))
  define h where "h = unary_handler lib
    (\<lambda>req. gl_AnnotateContext lib req ''/cardinality.v1.CardinalityService/Query'' ''/v1/group/{group}/cardinality'')
    (request_CardinalityService_Query_0 lib ?c) (gl_Forward_Query lib)"
  have mem: "(eff req, pattern_CardinalityService_Query_0, h) \<in> set mux"
    by (simp add: assms(2,5) RegisterCardinalityServiceHandlerClient_def mux_Handle_def h_def)
  obtain params where params: "matchp pattern_CardinalityService_Query_0 ?p = Some params"
    using template_match [OF l] by (auto simp: pattern_templates assms(4))
  then have g: "params ''group'' = Some g" using template_only by (fastforce simp: pattern_templates assms(4))
  have only: "(pat', h') = (pattern_CardinalityService_Query_0, h)"
    if m: "(meth', pat', h') \<in> set mux" and ne: "matchp pat' ?p \<noteq> None" for meth' pat' h'
  proof -
    have "pat' \<noteq> pattern_CardinalityService_Add_0" "pat' \<noteq> pattern_CardinalityService_BatchAdd_0"
      using ne by (auto simp: pattern_templates assms(4) dest!: template_only dest: arg_cong [of _ _ last])
    with m show ?thesis by (auto simp: assms(2) RegisterCardinalityServiceHandlerClient_def mux_Handle_def h_def)
  qed
  have "gw_ServeHTTP mux rw req sw = h rw req params sw" by (rule routes [OF mem params only])
  moreover have "h rw req params sw = (serve env code (RpcQuery (Inr q)) sw, gl_Forward_Query lib req resp rw)"
    by (simp add: h_def unary_handler_def assms(7-9,11) request_CardinalityService_Query_0_def g String_id
        stub_served(3) [OF assms(1,10)])
  ultimately show ?thesis using route by simp
qed

end

section \<open>A reference gateway\<close>

definition ref_http_lib :: "((u64 option \<times> bool) http_request, ResponseWriter) gateway_lib" where
  "ref_http_lib = \<lparr>
     gl_Decode_Add = (\<lambda>h. gl_Decode_Add ref_gateway (rq_rest h)),
     gl_Decode_BatchAdd = (\<lambda>h. gl_Decode_BatchAdd ref_gateway (rq_rest h)),
     gl_String = Inr, gl_ParseForm = (\<lambda>h. (h, None)),
     gl_PopulateQueryParameters = (\<lambda>q h. gl_PopulateQueryParameters ref_gateway q (rq_rest h)),
     gl_AnnotateContext = (\<lambda>_ _ _. None), gl_AnnotateIncomingContext = (\<lambda>_ _ _. None),
     gl_HTTPError = (\<lambda>_ e. http_Error ''error'' 500), gl_Forward_Add = (\<lambda>_ _. rw_Write ''added''),
     gl_Forward_Query = (\<lambda>_ _. rw_Write ''counted'')\<rparr>"

definition ref_matchp :: "Pattern \<Rightarrow> string \<Rightarrow> (string \<rightharpoonup> string) option" where
  "ref_matchp pat path =
     (case (pt_pool pat, strings_Split (CHR ''/'') path) of
        ([a, b, c], [e, a', b', x, c']) \<Rightarrow>
          if pat = group_template a b c \<and> e = [] \<and> a' = a \<and> b' = b \<and> c' = c then Some [b \<mapsto> x] else None
      | _ \<Rightarrow> None)"

definition ref_gw_ServeHTTP ::
    "((u64 option \<times> bool) http_request, ResponseWriter, 'w) ServeMux \<Rightarrow> (u64 option \<times> bool, 'w) Handler" where
  "ref_gw_ServeHTTP mux rw req w =
     (case find (\<lambda>(meth, pat, h). meth = rq_Method req \<and> ref_matchp pat (rq_Path req) \<noteq> None) mux of
        None \<Rightarrow> (w, gl_HTTPError ref_http_lib req (ErrExternal ''Not Found'') rw)
      | Some (meth, pat, h) \<Rightarrow> h rw req (the (ref_matchp pat (rq_Path req))) w)"

lemma strings_Split_inverse:
  assumes "strings_Split c s = [e, a, b, x, d]" shows "s = e @ c # a @ c # b @ c # x @ c # d"
  using strings_Split_join [of c s] assms by simp

lemma ref_matchp_Some:
  assumes "ref_matchp (group_template a b c) path = Some params"
  shows "\<exists>x. path = ''/'' @ a @ ''/'' @ b @ ''/'' @ x @ ''/'' @ c \<and> params b = Some x"
  using assms by (auto simp: ref_matchp_def group_template_def split: list.splits if_splits dest!: strings_Split_inverse)

lemma ref_matchp_match:
  assumes "list_all plain_segment [a, b, x, c]"
  shows "ref_matchp (group_template a b c) (''/'' @ a @ ''/'' @ b @ ''/'' @ x @ ''/'' @ c) \<noteq> None"
proof -
  have "\<forall>s \<in> set [a, b, x, c]. CHR ''/'' \<notin> set s" using assms by (simp add: plain_segment_def)
  from strings_Split_path [OF this] show ?thesis by (simp add: ref_matchp_def group_template_def)
qed

lemma ref_gw_only:
  assumes "(rq_Method req, pat, h) \<in> set mux" and "ref_matchp pat (rq_Path req) = Some params"
    and "\<And>meth' pat' h'. (meth', pat', h') \<in> set mux \<Longrightarrow> ref_matchp pat' (rq_Path req) \<noteq> None \<Longrightarrow> (pat', h') = (pat, h)"
  shows "ref_gw_ServeHTTP mux rw req w = h rw req params w"
proof -
  let ?P = "\<lambda>(meth, pat, h). meth = rq_Method req \<and> ref_matchp pat (rq_Path req) \<noteq> None"
  obtain e where e: "find ?P mux = Some e"
    using assms(1,2) by (cases "find ?P mux") (auto simp: find_None_iff)
  then have "snd e = (pat, h)" using find_SomeD [OF e] assms(3) by (cases e) auto
  with e assms(2) show ?thesis by (cases e) (simp add: ref_gw_ServeHTTP_def)
qed

interpretation ref_http: gateway_mux ref_http_lib ref_gw_ServeHTTP ref_matchp rq_Method
proof (unfold_locales, goal_cases)
  case (3 mux rw req w)
  show ?case by (force simp: ref_gw_ServeHTTP_def split: option.split dest: find_SomeD)
next
  case (4 req pat h mux params rw w)
  then show ?case by (rule ref_gw_only)
qed (simp_all only: ref_matchp_Some ref_matchp_match, simp_all add: ref_http_lib_def ref_gateway_def)

section \<open>Properties\<close>

text \<open>C15: the HTTP surface of a process. On the gateway port a request, whatever its method and path, does not
  touch the server or is exactly one call of the service, on the group that its path names; the
  health endpoints answer there too and read only; and \<^verbatim>\<open>/metrics\<close> is never served there: such a
  request is refused by the gateway. No request to the metrics port changes anything; there
  \<^verbatim>\<open>/metrics\<close> renders the current state of the engine and of the node, and anything but the three
  endpoints is answered with 301, 400 or 404.\<close>

theorem http_surface:
  assumes "gateway_mux lib gws matchp eff" and "grpc_conn cc (Server_methods env) E D (Some (UnaryMetricsInterceptor code)) conv"
    and "RegisterCardinalityServiceHandlerFromEndpoint lib (\<lambda>_. Inr cc) endpoint [] = (mux, None, fate)"
    and "mux_ServeHTTP (mainMux (process_ready nenv) (gws mux)) rw req sw = (sw', rw')"
    and "mux_ServeHTTP (metricsMux (process_ready nenv) (prom_Handler expose (process_scrape order nenv maxGroups))) rw req sw = (sm', rm')"
  shows "(sw' = sw \<or> (\<exists>r. rpc_decoded r \<and> sw' = serve env code r sw \<and> rq_Path req = ''/v1/group/'' @ rpc_group r @
        (case r of RpcAdd _ \<Rightarrow> ''/add'' | RpcBatchAdd _ \<Rightarrow> ''/batch'' | RpcQuery _ \<Rightarrow> ''/cardinality'')))
    \<and> (rq_Path req = ''/metrics'' \<longrightarrow> sw' = sw \<and> (\<exists>e. rw' \<in> {WriteHeader 400 rw, WriteHeader 301 rw, gl_HTTPError lib req e rw}))
    \<and> (rq_RequestURI req \<noteq> ''*'' \<longrightarrow>
        (rq_Path req = ''/healthz'' \<longrightarrow> sw' = sw \<and> rw' = HealthzHandler rw \<and> rm' = HealthzHandler rw)
        \<and> (rq_Path req = ''/readyz'' \<longrightarrow> sw' = sw \<and> rw' = ReadyzHandler (process_ready nenv sw) rw \<and> rm' = rw')
        \<and> (rq_Path req = ''/metrics'' \<longrightarrow> rm' = expose (process_scrape order nenv maxGroups sw) (srv_metrics (fst sw)) (st_metrics (w_store (snd sw))) rw))
    \<and> sm' = sw
    \<and> (rq_Path req \<notin> {''/metrics'', ''/healthz'', ''/readyz''} \<longrightarrow>
        rm' \<in> {WriteHeader 400 rw, WriteHeader 301 rw, http_Error ''404 page not found'' 404 rw})"
proof -
  have gw: "(\<exists>e. s' = sw \<and> r' = gl_HTTPError lib req e rw)
      \<or> (\<exists>r. rpc_decoded r \<and> s' = serve env code r sw \<and> rq_Path req = ''/v1/group/'' @ rpc_group r @
        (case r of RpcAdd _ \<Rightarrow> ''/add'' | RpcBatchAdd _ \<Rightarrow> ''/batch'' | RpcQuery _ \<Rightarrow> ''/cardinality''))"
    if "gws mux rw req sw = (s', r')" for s' r'
  proof (rule gateway_mux.gateway_request [OF assms(1) _ calls_served_conn [OF assms(2)] that])
    show "mux = fst (RegisterCardinalityServiceHandlerClient lib (NewCardinalityServiceClient cc) [])"
      using assms(3) by (auto simp: RegisterCardinalityServiceHandlerFromEndpoint_def RegisterCardinalityServiceHandler_def
          split: prod.splits option.splits)
  qed
  have main: "(sw' = sw \<or> (\<exists>r. rpc_decoded r \<and> sw' = serve env code r sw \<and> rq_Path req = ''/v1/group/'' @ rpc_group r @
        (case r of RpcAdd _ \<Rightarrow> ''/add'' | RpcBatchAdd _ \<Rightarrow> ''/batch'' | RpcQuery _ \<Rightarrow> ''/cardinality'')))
    \<and> (rq_Path req = ''/metrics'' \<longrightarrow> sw' = sw \<and> (\<exists>e. rw' \<in> {WriteHeader 400 rw, WriteHeader 301 rw, gl_HTTPError lib req e rw}))"
    using assms(4)
  proof (cases rule: mux_ServeHTTP_cases)
    case (4 h)
    then show ?thesis using gw [of sw' rw'] by (auto simp: mainMux_match split: if_splits)
  qed (auto simp: mainMux_match)
  have metrics: "sm' = sw \<and> (rq_Path req \<notin> {''/metrics'', ''/healthz'', ''/readyz''} \<longrightarrow>
      rm' \<in> {WriteHeader 400 rw, WriteHeader 301 rw, http_Error ''404 page not found'' 404 rw})"
    using assms(5)
  proof (cases rule: mux_ServeHTTP_cases)
    case (4 h)
    then show ?thesis by (auto simp: metricsMux_match prom_Handler_def split: if_splits)
  qed auto
  have ends: "(rq_Path req = ''/healthz'' \<longrightarrow> sw' = sw \<and> rw' = HealthzHandler rw \<and> rm' = HealthzHandler rw)
      \<and> (rq_Path req = ''/readyz'' \<longrightarrow> sw' = sw \<and> rw' = ReadyzHandler (process_ready nenv sw) rw \<and> rm' = rw')
      \<and> (rq_Path req = ''/metrics'' \<longrightarrow> rm' = expose (process_scrape order nenv maxGroups sw) (srv_metrics (fst sw)) (st_metrics (w_store (snd sw))) rw)"
    if "rq_RequestURI req \<noteq> ''*''"
    using assms(4,5) by (auto simp: health_on_both_ports [OF that] prom_Handler_def)
  show ?thesis by (intro conjI impI; (use main metrics ends in blast))
qed

text \<open>At a concrete process, over the reference connection and the reference gateway.\<close>

definition ref_process :: "(u64 set Sketch, (bytes \<times> bytes) list, bytes list, unit, unit) process" where
  "ref_process = (server_New None None [],
     \<lparr>w_engine = nd_engine ref_node, w_store = nd_store ref_node, w_ext = node_sys_init ref_node\<rparr>)"

theorem http_surface_witness:
  "fst (mux_ServeHTTP (mainMux (process_ready ref_env) (ref_gw_ServeHTTP (fst (RegisterCardinalityServiceHandler ref_http_lib
      (ref_conn (Server_methods (leaf_env (\<lambda>_. 0) ref_badger)) (Some (UnaryMetricsInterceptor (\<lambda>_. [])))) []))))
      \<lparr>rw_status = None, rw_body = []\<rparr>
      \<lparr>rq_Method = ''GET'', rq_Path = ''/metrics'', rq_RequestURI = ''/metrics'', rq_rest = (None, False)\<rparr> ref_process) = ref_process"
proof -
  let ?cc = "ref_conn (Server_methods (leaf_env (\<lambda>_. 0) ref_badger)) (Some (UnaryMetricsInterceptor (\<lambda>_. [])))
    :: (u64 set Sketch, (bytes \<times> bytes) list, bytes list, unit, unit) process ClientConn"
  let ?mux = "fst (RegisterCardinalityServiceHandler ref_http_lib ?cc [])" and ?rw = "\<lparr>rw_status = None, rw_body = []\<rparr>"
  let ?req = "\<lparr>rq_Method = ''GET'', rq_Path = ''/metrics'', rq_RequestURI = ''/metrics'', rq_rest = (None, False)\<rparr>
    :: (u64 option \<times> bool) http_request"
  let ?main = "mux_ServeHTTP (mainMux (process_ready ref_env) (ref_gw_ServeHTTP ?mux)) ?rw ?req ref_process"
  let ?met = "mux_ServeHTTP (metricsMux (process_ready ref_env) (prom_Handler (\<lambda>_ _ _ rw. rw)
    (process_scrape sorted_list_of_set ref_env 1000))) ?rw ?req ref_process"
  have m: "RegisterCardinalityServiceHandlerFromEndpoint ref_http_lib (\<lambda>_. Inr ?cc) [] [] = (?mux, None, ClosedWhenDone)"
    by (simp add: RegisterCardinalityServiceHandlerFromEndpoint_def RegisterCardinalityServiceHandler_def
        RegisterCardinalityServiceHandlerClient_def)
  show ?thesis
    using http_surface [OF ref_http.gateway_mux_axioms ref_cc.grpc_conn_axioms m, of ref_env ?rw ?req ref_process "fst ?main" "snd ?main"
        "\<lambda>_ _ _ rw. rw" sorted_list_of_set 1000 "fst ?met" "snd ?met"] by simp
qed

end
