(* ===== verification/Proto_Messages.thy ===== *)
theory Proto_Messages
  imports Gateway Raft_Node
begin

text \<open>
  The generated message code \<^verbatim>\<open>gen/cardinality/v1/cardinality.pb.go\<close> and \<^verbatim>\<open>command.pb.go\<close>: the struct tags,
  accessors, \<^verbatim>\<open>Reset\<close> and reflection of the six messages, the raw file descriptors, the type tables
  and the registration of the two files. The protobuf runtime (\<^verbatim>\<open>protoimpl\<close>) is a parameter: building
  the types, compressing a descriptor. What the raw descriptors say is compared with what the
  other generated files do.
\<close>

section \<open>Struct tags\<close>

text \<open>A field of a message struct: its Go type and the parts of its \<^verbatim>\<open>protobuf\<close> tag. The tag has a \<^verbatim>\<open>json\<close>
  part only when the JSON name differs from the field's name.\<close>

datatype go_type = GoString | GoUint64 | GoBool | GoBytes | GoUint64Slice

record struct_field =
  sf_type :: go_type
  sf_wire :: string
  sf_number :: u64
  sf_card :: string
  sf_name :: string
  sf_json :: "string option"

text \<open>What the generated methods of a message type refer to: the file and the index of the type in its
  table, the struct and its zero value.\<close>

record 'm message_type =
  mty_file :: string
  mty_index :: nat
  mty_name :: string
  mty_fields :: "struct_field list"
  mty_zero :: 'm

definition plain_field :: "go_type \<Rightarrow> string \<Rightarrow> u64 \<Rightarrow> string \<Rightarrow> string \<Rightarrow> struct_field" where
  "plain_field t w n c nm = \<lparr>sf_type = t, sf_wire = w, sf_number = n, sf_card = c, sf_name = nm, sf_json = None\<rparr>"

definition cardinality_proto :: string where
  "cardinality_proto = ''cardinality/v1/cardinality.proto''"

definition AddRequest_type :: "AddRequest message_type" where
  "AddRequest_type = \<lparr>mty_file = cardinality_proto, mty_index = 0, mty_name = ''AddRequest'',
     mty_fields = [plain_field GoString ''bytes'' 1 ''opt'' ''group'', plain_field GoUint64 ''varint'' 2 ''opt'' ''id''],
     mty_zero = \<lparr>areq_Group = [], areq_Id = 0\<rparr>\<rparr>"

definition BatchAddRequest_type :: "BatchAddRequest message_type" where
  "BatchAddRequest_type = \<lparr>mty_file = cardinality_proto, mty_index = 1, mty_name = ''BatchAddRequest'',
     mty_fields = [plain_field GoString ''bytes'' 1 ''opt'' ''group'',
       plain_field GoUint64Slice ''varint'' 2 ''rep,packed'' ''ids''],
     mty_zero = \<lparr>breq_Group = [], breq_Ids = []\<rparr>\<rparr>"

definition AddResponse_type :: "AddResponse message_type" where
  "AddResponse_type = \<lparr>mty_file = cardinality_proto, mty_index = 2, mty_name = ''AddResponse'',
     mty_fields = [plain_field GoBool ''varint'' 1 ''opt'' ''ok''], mty_zero = \<lparr>aresp_Ok = False\<rparr>\<rparr>"

definition QueryRequest_type :: "QueryRequest message_type" where
  "QueryRequest_type = \<lparr>mty_file = cardinality_proto, mty_index = 3, mty_name = ''QueryRequest'',
     mty_fields = [plain_field GoString ''bytes'' 1 ''opt'' ''group'',
       (plain_field GoBool ''varint'' 2 ''opt'' ''stale_ok'')\<lparr>sf_json := Some ''staleOk''\<rparr>],
     mty_zero = \<lparr>qreq_Group = [], qreq_StaleOk = False\<rparr>\<rparr>"

definition QueryResponse_type :: "QueryResponse message_type" where
  "QueryResponse_type = \<lparr>mty_file = cardinality_proto, mty_index = 4, mty_name = ''QueryResponse'',
     mty_fields = [plain_field GoString ''bytes'' 1 ''opt'' ''group'',
       plain_field GoUint64 ''varint'' 2 ''opt'' ''cardinality''],
     mty_zero = \<lparr>qresp_Group = [], qresp_Cardinality = 0\<rparr>\<rparr>"

definition Command_type :: "Command message_type" where
  "Command_type = \<lparr>mty_file = ''cardinality/v1/command.proto'', mty_index = 0, mty_name = ''Command'',
     mty_fields = [plain_field GoString ''bytes'' 1 ''opt'' ''type'', plain_field GoString ''bytes'' 2 ''opt'' ''group'',
       plain_field GoBytes ''bytes'' 3 ''opt'' ''payload''],
     mty_zero = \<lparr>cmd_Type = [], cmd_Group = [], cmd_Payload = []\<rparr>\<rparr>"

lemmas message_types = AddRequest_type_def BatchAddRequest_type_def AddResponse_type_def QueryRequest_type_def
  QueryResponse_type_def Command_type_def plain_field_def cardinality_proto_def

section \<open>Methods of a message\<close>

text \<open>A message struct: its fields, the type information in \<^verbatim>\<open>state\<close>, unknown fields and the size cache. A
  pointer may be nil; the accessors then return the zero value.\<close>

record 'm message =
  msg_state :: "(string \<times> nat) option"
  msg_body :: 'm
  msg_unknownFields :: bytes
  msg_sizeCache :: int

definition type_info :: "'m message_type \<Rightarrow> string \<times> nat" where
  "type_info t = (mty_file t, mty_index t)"

definition message_Reset :: "'m message_type \<Rightarrow> 'm message option \<Rightarrow> 'm message outcome" where
  "message_Reset t x =
     (case x of
        None \<Rightarrow> Panic ''invalid memory address or nil pointer dereference''
      | Some _ \<Rightarrow> Return \<lparr>msg_state = Some (type_info t), msg_body = mty_zero t, msg_unknownFields = [], msg_sizeCache = 0\<rparr>)"

text \<open>The reflected message: the type under which the runtime sees it, and the struct if there is one.\<close>

definition message_ProtoReflect ::
    "'m message_type \<Rightarrow> 'm message option \<Rightarrow> 'm message option \<times> (string \<times> nat) \<times> 'm message option" where
  "message_ProtoReflect t x =
     (case x of
        None \<Rightarrow> (None, type_info t, None)
      | Some m \<Rightarrow>
          (case msg_state m of
             None \<Rightarrow> let m = m\<lparr>msg_state := Some (type_info t)\<rparr> in (Some m, type_info t, Some m)
           | Some i \<Rightarrow> (Some m, i, Some m)))"

definition AddRequest_GetGroup :: "AddRequest message option \<Rightarrow> string" where
  "AddRequest_GetGroup x = (case x of None \<Rightarrow> [] | Some m \<Rightarrow> areq_Group (msg_body m))"

definition AddRequest_GetId :: "AddRequest message option \<Rightarrow> u64" where
  "AddRequest_GetId x = (case x of None \<Rightarrow> 0 | Some m \<Rightarrow> areq_Id (msg_body m))"

definition BatchAddRequest_GetGroup :: "BatchAddRequest message option \<Rightarrow> string" where
  "BatchAddRequest_GetGroup x = (case x of None \<Rightarrow> [] | Some m \<Rightarrow> breq_Group (msg_body m))"

definition BatchAddRequest_GetIds :: "BatchAddRequest message option \<Rightarrow> u64 list" where
  "BatchAddRequest_GetIds x = (case x of None \<Rightarrow> [] | Some m \<Rightarrow> breq_Ids (msg_body m))"

definition AddResponse_GetOk :: "AddResponse message option \<Rightarrow> bool" where
  "AddResponse_GetOk x = (case x of None \<Rightarrow> False | Some m \<Rightarrow> aresp_Ok (msg_body m))"

definition QueryRequest_GetGroup :: "QueryRequest message option \<Rightarrow> string" where
  "QueryRequest_GetGroup x = (case x of None \<Rightarrow> [] | Some m \<Rightarrow> qreq_Group (msg_body m))"

definition QueryRequest_GetStaleOk :: "QueryRequest message option \<Rightarrow> bool" where
  "QueryRequest_GetStaleOk x = (case x of None \<Rightarrow> False | Some m \<Rightarrow> qreq_StaleOk (msg_body m))"

definition QueryResponse_GetGroup :: "QueryResponse message option \<Rightarrow> string" where
  "QueryResponse_GetGroup x = (case x of None \<Rightarrow> [] | Some m \<Rightarrow> qresp_Group (msg_body m))"

definition QueryResponse_GetCardinality :: "QueryResponse message option \<Rightarrow> u64" where
  "QueryResponse_GetCardinality x = (case x of None \<Rightarrow> 0 | Some m \<Rightarrow> qresp_Cardinality (msg_body m))"

definition Command_GetType :: "Command message option \<Rightarrow> string" where
  "Command_GetType x = (case x of None \<Rightarrow> [] | Some m \<Rightarrow> cmd_Type (msg_body m))"

definition Command_GetGroup :: "Command message option \<Rightarrow> string" where
  "Command_GetGroup x = (case x of None \<Rightarrow> [] | Some m \<Rightarrow> cmd_Group (msg_body m))"

definition Command_GetPayload :: "Command message option \<Rightarrow> bytes" where
  "Command_GetPayload x = (case x of None \<Rightarrow> [] | Some m \<Rightarrow> cmd_Payload (msg_body m))"

section \<open>Raw descriptors\<close>

text \<open>The string constants, with the line breaks of the source.\<close>

definition file_cardinality_v1_cardinality_proto_rawDesc :: bytes where
  "file_cardinality_v1_cardinality_proto_rawDesc = bytes_of_string (
     [CHR 0x0A] @
     '' cardinality/v1/cardinality.proto'' @ [CHR 0x12, CHR 0x0E] @ ''cardinality.v1'' @ [CHR 0x1A, CHR 0x1C] @ ''google/api/annotations.proto'' @ [CHR 0x22] @ ''2'' @ [CHR 0x0A] @
     [CHR 0x0A] @
     ''AddRequest'' @ [CHR 0x12, CHR 0x14, CHR 0x0A] @
     [CHR 0x05] @ ''group'' @ [CHR 0x18, CHR 0x01] @ '' '' @ [CHR 0x01] @ ''('' @ [CHR 0x09] @ ''R'' @ [CHR 0x05] @ ''group'' @ [CHR 0x12, CHR 0x0E, CHR 0x0A] @
     [CHR 0x02] @ ''id'' @ [CHR 0x18, CHR 0x02] @ '' '' @ [CHR 0x01] @ ''('' @ [CHR 0x04] @ ''R'' @ [CHR 0x02] @ ''id'' @ [CHR 0x22] @ ''9'' @ [CHR 0x0A] @
     [CHR 0x0F] @ ''BatchAddRequest'' @ [CHR 0x12, CHR 0x14, CHR 0x0A] @
     [CHR 0x05] @ ''group'' @ [CHR 0x18, CHR 0x01] @ '' '' @ [CHR 0x01] @ ''('' @ [CHR 0x09] @ ''R'' @ [CHR 0x05] @ ''group'' @ [CHR 0x12, CHR 0x10, CHR 0x0A] @
     [CHR 0x03] @ ''ids'' @ [CHR 0x18, CHR 0x02] @ '' '' @ [CHR 0x03] @ ''('' @ [CHR 0x04] @ ''R'' @ [CHR 0x03] @ ''ids'' @ [CHR 0x22, CHR 0x1D, CHR 0x0A] @
     [CHR 0x0B] @ ''AddResponse'' @ [CHR 0x12, CHR 0x0E, CHR 0x0A] @
     [CHR 0x02] @ ''ok'' @ [CHR 0x18, CHR 0x01] @ '' '' @ [CHR 0x01] @ ''('' @ [CHR 0x08] @ ''R'' @ [CHR 0x02] @ ''ok'' @ [CHR 0x22] @ ''?'' @ [CHR 0x0A] @
     [CHR 0x0C] @ ''QueryRequest'' @ [CHR 0x12, CHR 0x14, CHR 0x0A] @
     [CHR 0x05] @ ''group'' @ [CHR 0x18, CHR 0x01] @ '' '' @ [CHR 0x01] @ ''('' @ [CHR 0x09] @ ''R'' @ [CHR 0x05] @ ''group'' @ [CHR 0x12, CHR 0x19, CHR 0x0A] @
     [CHR 0x08] @ ''stale_ok'' @ [CHR 0x18, CHR 0x02] @ '' '' @ [CHR 0x01] @ ''('' @ [CHR 0x08] @ ''R'' @ [CHR 0x07] @ ''staleOk'' @ [CHR 0x22] @ ''G'' @ [CHR 0x0A] @
     [CHR 0x0D] @ ''QueryResponse'' @ [CHR 0x12, CHR 0x14, CHR 0x0A] @
     [CHR 0x05] @ ''group'' @ [CHR 0x18, CHR 0x01] @ '' '' @ [CHR 0x01] @ ''('' @ [CHR 0x09] @ ''R'' @ [CHR 0x05] @ ''group'' @ [CHR 0x12] @ '' '' @ [CHR 0x0A] @
     [CHR 0x0B] @ ''cardinality'' @ [CHR 0x18, CHR 0x02] @ '' '' @ [CHR 0x01] @ ''('' @ [CHR 0x04] @ ''R'' @ [CHR 0x0B] @ ''cardinality2'' @ [CHR 0xD1, CHR 0x02, CHR 0x0A] @
     [CHR 0x12] @ ''CardinalityService'' @ [CHR 0x12, CHR 0x60, CHR 0x0A] @
     [CHR 0x03] @ ''Add'' @ [CHR 0x12, CHR 0x1A] @ ''.cardinality.v1.AddRequest'' @ [CHR 0x1A, CHR 0x1B] @ ''.cardinality.v1.AddResponse'' @ [CHR 0x22] @ '' '' @ [CHR 0x82, CHR 0xD3, CHR 0xE4, CHR 0x93, CHR 0x02, CHR 0x1A] @ '':'' @ [CHR 0x01] @ ''*'' @ [CHR 0x22, CHR 0x15] @ ''/v1/group/{group}/add'' @ [CHR 0x12] @ ''l'' @ [CHR 0x0A] @
     [CHR 0x08] @ ''BatchAdd'' @ [CHR 0x12, CHR 0x1F] @ ''.cardinality.v1.BatchAddRequest'' @ [CHR 0x1A, CHR 0x1B] @ ''.cardinality.v1.AddResponse'' @ [CHR 0x22, CHR 0x22, CHR 0x82, CHR 0xD3, CHR 0xE4, CHR 0x93, CHR 0x02, CHR 0x1C] @ '':'' @ [CHR 0x01] @ ''*'' @ [CHR 0x22, CHR 0x17] @ ''/v1/group/{group}/batch'' @ [CHR 0x12] @ ''k'' @ [CHR 0x0A] @
     [CHR 0x05] @ ''Query'' @ [CHR 0x12, CHR 0x1C] @ ''.cardinality.v1.QueryRequest'' @ [CHR 0x1A, CHR 0x1D] @ ''.cardinality.v1.QueryResponse'' @ [CHR 0x22] @ ''%'' @ [CHR 0x82, CHR 0xD3, CHR 0xE4, CHR 0x93, CHR 0x02, CHR 0x1F, CHR 0x12, CHR 0x1D] @ ''/v1/group/{group}/cardinalityBXZVgithub.com/BlaCkinkGJ/time-series-cardinality-tracker/gen/cardinality/v1;cardinalityv1b'' @ [CHR 0x06] @ ''proto3'')"

definition file_cardinality_v1_command_proto_rawDesc :: bytes where
  "file_cardinality_v1_command_proto_rawDesc = bytes_of_string (
     [CHR 0x0A] @
     [CHR 0x1C] @ ''cardinality/v1/command.proto'' @ [CHR 0x12, CHR 0x0E] @ ''cardinality.v1'' @ [CHR 0x22] @ ''M'' @ [CHR 0x0A] @
     [CHR 0x07] @ ''Command'' @ [CHR 0x12, CHR 0x12, CHR 0x0A] @
     [CHR 0x04] @ ''type'' @ [CHR 0x18, CHR 0x01] @ '' '' @ [CHR 0x01] @ ''('' @ [CHR 0x09] @ ''R'' @ [CHR 0x04] @ ''type'' @ [CHR 0x12, CHR 0x14, CHR 0x0A] @
     [CHR 0x05] @ ''group'' @ [CHR 0x18, CHR 0x02] @ '' '' @ [CHR 0x01] @ ''('' @ [CHR 0x09] @ ''R'' @ [CHR 0x05] @ ''group'' @ [CHR 0x12, CHR 0x18, CHR 0x0A] @
     [CHR 0x07] @ ''payload'' @ [CHR 0x18, CHR 0x03] @ '' '' @ [CHR 0x01] @ ''('' @ [CHR 0x0C] @ ''R'' @ [CHR 0x07] @ ''payloadBXZVgithub.com/BlaCkinkGJ/time-series-cardinality-tracker/gen/cardinality/v1;cardinalityv1b'' @ [CHR 0x06] @ ''proto3'')"

text \<open>The tables the type builder gets, and registration: a file is built once. The tables are dropped
  afterwards.\<close>

definition file_cardinality_v1_cardinality_proto_goTypes :: "string list" where
  "file_cardinality_v1_cardinality_proto_goTypes =
     [''AddRequest'', ''BatchAddRequest'', ''AddResponse'', ''QueryRequest'', ''QueryResponse'']"

definition file_cardinality_v1_cardinality_proto_depIdxs :: "nat list" where
  "file_cardinality_v1_cardinality_proto_depIdxs = [0, 1, 3, 2, 2, 4, 3, 0, 0, 0, 0]"

definition file_cardinality_v1_command_proto_goTypes :: "string list" where
  "file_cardinality_v1_command_proto_goTypes = [''Command'']"

definition file_cardinality_v1_command_proto_depIdxs :: "nat list" where
  "file_cardinality_v1_command_proto_depIdxs = [0, 0, 0, 0, 0]"

record TypeBuilder =
  tb_RawDescriptor :: bytes
  tb_NumEnums :: nat
  tb_NumMessages :: nat
  tb_NumExtensions :: nat
  tb_NumServices :: nat
  tb_GoTypes :: "string list"
  tb_DependencyIndexes :: "nat list"
  tb_MessageInfos :: nat

text \<open>The package variables of a file: the built descriptor, both tables while they are there, the number
  of message infos, and the compressed descriptor with its \<^verbatim>\<open>sync.Once\<close>.\<close>

record 'f proto_file =
  pf_File :: "'f option"
  pf_goTypes :: "string list"
  pf_depIdxs :: "nat list"
  pf_msgTypes :: nat
  pf_rawDescOnce :: bool
  pf_rawDescData :: bytes

definition cardinality_file_vars :: "'f proto_file" where
  "cardinality_file_vars = \<lparr>pf_File = None, pf_goTypes = file_cardinality_v1_cardinality_proto_goTypes,
     pf_depIdxs = file_cardinality_v1_cardinality_proto_depIdxs, pf_msgTypes = 5, pf_rawDescOnce = False, pf_rawDescData = []\<rparr>"

definition command_file_vars :: "'f proto_file" where
  "command_file_vars = \<lparr>pf_File = None, pf_goTypes = file_cardinality_v1_command_proto_goTypes,
     pf_depIdxs = file_cardinality_v1_command_proto_depIdxs, pf_msgTypes = 1, pf_rawDescOnce = False, pf_rawDescData = []\<rparr>"

definition file_cardinality_v1_cardinality_proto_init :: "(TypeBuilder \<Rightarrow> 'f) \<Rightarrow> 'f proto_file \<Rightarrow> 'f proto_file" where
  "file_cardinality_v1_cardinality_proto_init Build s =
     (if pf_File s \<noteq> None then s
      else let out = Build \<lparr>tb_RawDescriptor = file_cardinality_v1_cardinality_proto_rawDesc, tb_NumEnums = 0,
             tb_NumMessages = 5, tb_NumExtensions = 0, tb_NumServices = 1, tb_GoTypes = pf_goTypes s,
             tb_DependencyIndexes = pf_depIdxs s, tb_MessageInfos = pf_msgTypes s\<rparr>
           in s\<lparr>pf_File := Some out, pf_goTypes := [], pf_depIdxs := []\<rparr>)"

definition file_cardinality_v1_command_proto_init :: "(TypeBuilder \<Rightarrow> 'f) \<Rightarrow> 'f proto_file \<Rightarrow> 'f proto_file" where
  "file_cardinality_v1_command_proto_init Build s =
     (if pf_File s \<noteq> None then s
      else let out = Build \<lparr>tb_RawDescriptor = file_cardinality_v1_command_proto_rawDesc, tb_NumEnums = 0,
             tb_NumMessages = 1, tb_NumExtensions = 0, tb_NumServices = 0, tb_GoTypes = pf_goTypes s,
             tb_DependencyIndexes = pf_depIdxs s, tb_MessageInfos = pf_msgTypes s\<rparr>
           in s\<lparr>pf_File := Some out, pf_goTypes := [], pf_depIdxs := []\<rparr>)"

definition rawDescGZIP :: "(bytes \<Rightarrow> bytes) \<Rightarrow> bytes \<Rightarrow> 'f proto_file \<Rightarrow> 'f proto_file \<times> bytes" where
  "rawDescGZIP CompressGZIP rawDesc s =
     (let s = (if pf_rawDescOnce s then s else s\<lparr>pf_rawDescOnce := True, pf_rawDescData := CompressGZIP rawDesc\<rparr>)
      in (s, pf_rawDescData s))"

definition message_Descriptor ::
    "(bytes \<Rightarrow> bytes) \<Rightarrow> bytes \<Rightarrow> 'm message_type \<Rightarrow> 'f proto_file \<Rightarrow> 'f proto_file \<times> bytes \<times> nat list" where
  "message_Descriptor CompressGZIP rawDesc t s =
     (let (s, b) = rawDescGZIP CompressGZIP rawDesc s in (s, b, [mty_index t]))"

section \<open>File descriptors\<close>

text \<open>A raw descriptor is a serialised \<^verbatim>\<open>FileDescriptorProto\<close>, as far as these two files use it. The field
  numbers are those of the message types of \<^verbatim>\<open>google/protobuf/descriptor.proto\<close> and
  \<^verbatim>\<open>google/api/http.proto\<close>.\<close>

record FieldDescriptorProto =
  fdp_name :: string
  fdp_number :: u64
  fdp_label :: u64
  fdp_type :: u64
  fdp_json_name :: string

record HttpRule =
  hr_verb :: string
  hr_path :: string
  hr_body :: "string option"

record MethodDescriptorProto =
  mdp_name :: string
  mdp_input_type :: string
  mdp_output_type :: string
  mdp_http :: HttpRule

record FileDescriptorProto =
  file_name :: string
  file_package :: string
  file_dependency :: "string list"
  file_message_type :: "(string \<times> FieldDescriptorProto list) list"
  file_service :: "(string \<times> MethodDescriptorProto list) list"
  file_go_package :: string
  file_syntax :: string

definition string_entry :: "u64 \<Rightarrow> string \<Rightarrow> (u64 \<times> wire_value) list" where
  "string_entry f s = [(f, Len (bytes_of_string s))]"

definition message_entry :: "u64 \<Rightarrow> (u64 \<times> wire_value) list \<Rightarrow> (u64 \<times> wire_value) list" where
  "message_entry f fs = [(f, Len (enc_fields fs))]"

definition FieldDescriptorProto_fields :: "FieldDescriptorProto \<Rightarrow> (u64 \<times> wire_value) list" where
  "FieldDescriptorProto_fields d = string_entry 1 (fdp_name d)
     @ [(3, Varint (fdp_number d)), (4, Varint (fdp_label d)), (5, Varint (fdp_type d))] @ string_entry 10 (fdp_json_name d)"

definition DescriptorProto_fields :: "string \<times> FieldDescriptorProto list \<Rightarrow> (u64 \<times> wire_value) list" where
  "DescriptorProto_fields d = string_entry 1 (fst d)
     @ concat (map (\<lambda>f. message_entry 2 (FieldDescriptorProto_fields f)) (snd d))"

definition HttpRule_fields :: "HttpRule \<Rightarrow> (u64 \<times> wire_value) list" where
  "HttpRule_fields r = (case hr_body r of None \<Rightarrow> [] | Some b \<Rightarrow> string_entry 7 b)
     @ string_entry (if hr_verb r = ''GET'' then 2 else 4) (hr_path r)"

definition MethodDescriptorProto_fields :: "MethodDescriptorProto \<Rightarrow> (u64 \<times> wire_value) list" where
  "MethodDescriptorProto_fields d = string_entry 1 (mdp_name d) @ string_entry 2 (mdp_input_type d)
     @ string_entry 3 (mdp_output_type d) @ message_entry 4 (message_entry 72295728 (HttpRule_fields (mdp_http d)))"

definition ServiceDescriptorProto_fields :: "string \<times> MethodDescriptorProto list \<Rightarrow> (u64 \<times> wire_value) list" where
  "ServiceDescriptorProto_fields d = string_entry 1 (fst d)
     @ concat (map (\<lambda>m. message_entry 2 (MethodDescriptorProto_fields m)) (snd d))"

definition FileDescriptorProto_fields :: "FileDescriptorProto \<Rightarrow> (u64 \<times> wire_value) list" where
  "FileDescriptorProto_fields d = string_entry 1 (file_name d) @ string_entry 2 (file_package d)
     @ concat (map (string_entry 3) (file_dependency d))
     @ concat (map (\<lambda>m. message_entry 4 (DescriptorProto_fields m)) (file_message_type d))
     @ concat (map (\<lambda>s. message_entry 6 (ServiceDescriptorProto_fields s)) (file_service d))
     @ message_entry 8 (string_entry 11 (file_go_package d)) @ string_entry 12 (file_syntax d)"

lemmas descriptor_fields = FileDescriptorProto_fields_def ServiceDescriptorProto_fields_def MethodDescriptorProto_fields_def
  HttpRule_fields_def DescriptorProto_fields_def FieldDescriptorProto_fields_def string_entry_def message_entry_def

section \<open>The descriptors that the other code stands for\<close>

text \<open>The descriptor of a struct field: type and label codes by the Go type.\<close>

definition type_code :: "go_type \<Rightarrow> u64" where
  "type_code t = (case t of GoUint64 \<Rightarrow> 4 | GoUint64Slice \<Rightarrow> 4 | GoBool \<Rightarrow> 8 | GoString \<Rightarrow> 9 | GoBytes \<Rightarrow> 12)"

definition field_descriptor :: "struct_field \<Rightarrow> FieldDescriptorProto" where
  "field_descriptor f = \<lparr>fdp_name = sf_name f, fdp_number = sf_number f,
     fdp_label = (if sf_card f = ''opt'' then 1 else 3), fdp_type = type_code (sf_type f),
     fdp_json_name = (case sf_json f of None \<Rightarrow> sf_name f | Some j \<Rightarrow> j)\<rparr>"

definition message_descriptor :: "'m message_type \<Rightarrow> string \<times> FieldDescriptorProto list" where
  "message_descriptor t = (mty_name t, map field_descriptor (mty_fields t))"

text \<open>The types of the \<open>k\<close>-th method: the last five entries of the dependency table say where its sub-lists
  begin, those of the methods' output and input types first.\<close>

definition method_type :: "nat \<Rightarrow> nat \<Rightarrow> string" where
  "method_type which k =
     (let deps = file_cardinality_v1_cardinality_proto_depIdxs;
          start = deps ! (length deps - 5 + which)
      in ''.cardinality.v1.'' @ file_cardinality_v1_cardinality_proto_goTypes ! (deps ! (start + k)))"

definition method_descriptor :: "nat \<times> string \<times> HttpRule \<Rightarrow> MethodDescriptorProto" where
  "method_descriptor = (\<lambda>(k, name, rule). \<lparr>mdp_name = name, mdp_input_type = method_type 1 k, mdp_output_type = method_type 0 k,
     mdp_http = rule\<rparr>)"

definition CardinalityService_rules :: "HttpRule list" where
  "CardinalityService_rules = [
     \<lparr>hr_verb = ''POST'', hr_path = ''/v1/group/{group}/add'', hr_body = Some ''*''\<rparr>,
     \<lparr>hr_verb = ''POST'', hr_path = ''/v1/group/{group}/batch'', hr_body = Some ''*''\<rparr>,
     \<lparr>hr_verb = ''GET'', hr_path = ''/v1/group/{group}/cardinality'', hr_body = None\<rparr>]"

definition go_package :: string where
  "go_package = ''github.com/BlaCkinkGJ/time-series-cardinality-tracker/gen/cardinality/v1;cardinalityv1''"

definition cardinality_file :: "string list \<Rightarrow> HttpRule list \<Rightarrow> FileDescriptorProto" where
  "cardinality_file names rules = \<lparr>file_name = cardinality_proto, file_package = ''cardinality.v1'',
     file_dependency = [''google/api/annotations.proto''],
     file_message_type = [message_descriptor AddRequest_type, message_descriptor BatchAddRequest_type,
       message_descriptor AddResponse_type, message_descriptor QueryRequest_type, message_descriptor QueryResponse_type],
     file_service = [(''CardinalityService'', map method_descriptor (zip [0..<length names] (zip names rules)))],
     file_go_package = go_package, file_syntax = ''proto3''\<rparr>"

definition command_file :: FileDescriptorProto where
  "command_file = \<lparr>file_name = mty_file Command_type, file_package = ''cardinality.v1'', file_dependency = [],
     file_message_type = [message_descriptor Command_type], file_service = [],
     file_go_package = go_package, file_syntax = ''proto3''\<rparr>"

lemmas descriptor_tables = message_descriptor_def field_descriptor_def type_code_def message_types go_package_def

lemma command_rawDesc:
  "file_cardinality_v1_command_proto_rawDesc = enc_fields (FileDescriptorProto_fields command_file)"
  by (simp add: file_cardinality_v1_command_proto_rawDesc_def command_file_def descriptor_tables descriptor_fields
      enc_fields_def bytes_of_string_def AppendUvarint_small)

lemma method_types:
  "method_type (Suc 0) 0 = ''.cardinality.v1.AddRequest''" "method_type (Suc 0) (Suc 0) = ''.cardinality.v1.BatchAddRequest''"
  "method_type (Suc 0) (Suc (Suc 0)) = ''.cardinality.v1.QueryRequest''" "method_type 0 0 = ''.cardinality.v1.AddResponse''"
  "method_type 0 (Suc 0) = ''.cardinality.v1.AddResponse''" "method_type 0 (Suc (Suc 0)) = ''.cardinality.v1.QueryResponse''"
  by (simp_all add: method_type_def file_cardinality_v1_cardinality_proto_depIdxs_def
      file_cardinality_v1_cardinality_proto_goTypes_def)

lemma method_descriptors:
  "map method_descriptor (zip [0..<3] (zip [''Add'', ''BatchAdd'', ''Query''] CardinalityService_rules)) =
    [\<lparr>mdp_name = ''Add'', mdp_input_type = ''.cardinality.v1.AddRequest'', mdp_output_type = ''.cardinality.v1.AddResponse'',
       mdp_http = \<lparr>hr_verb = ''POST'', hr_path = ''/v1/group/{group}/add'', hr_body = Some ''*''\<rparr>\<rparr>,
     \<lparr>mdp_name = ''BatchAdd'', mdp_input_type = ''.cardinality.v1.BatchAddRequest'', mdp_output_type = ''.cardinality.v1.AddResponse'',
       mdp_http = \<lparr>hr_verb = ''POST'', hr_path = ''/v1/group/{group}/batch'', hr_body = Some ''*''\<rparr>\<rparr>,
     \<lparr>mdp_name = ''Query'', mdp_input_type = ''.cardinality.v1.QueryRequest'', mdp_output_type = ''.cardinality.v1.QueryResponse'',
       mdp_http = \<lparr>hr_verb = ''GET'', hr_path = ''/v1/group/{group}/cardinality'', hr_body = None\<rparr>\<rparr>]"
  by (simp add: CardinalityService_rules_def method_descriptor_def method_types upt_rec numeral_3_eq_3)

lemma cardinality_rawDesc:
  "file_cardinality_v1_cardinality_proto_rawDesc
    = enc_fields (FileDescriptorProto_fields (cardinality_file [''Add'', ''BatchAdd'', ''Query''] CardinalityService_rules))"
proof -
  have n: "length [''Add'', ''BatchAdd'', ''Query''] = 3" by simp
  show ?thesis
    unfolding cardinality_file_def n method_descriptors
    by (simp add: file_cardinality_v1_cardinality_proto_rawDesc_def descriptor_tables descriptor_fields
      enc_fields_def bytes_of_string_def AppendUvarint_small AppendUvarint_large)
qed

section \<open>Wire fields\<close>

text \<open>The fields of the responses by their numbers; those of the requests and of the command are given with
  their codecs.\<close>

definition AddResponse_fields :: "AddResponse \<Rightarrow> (u64 \<times> wire_value) list" where
  "AddResponse_fields m = uint_field 1 (if aresp_Ok m then 1 else 0)"

definition QueryResponse_fields :: "QueryResponse \<Rightarrow> (u64 \<times> wire_value) list" where
  "QueryResponse_fields m = bytes_field 1 (bytes_of_string (qresp_Group m)) @ uint_field 2 (qresp_Cardinality m)"

text \<open>Number and wire type of a field, as written and as the struct tag declares them.\<close>

fun wire_kind :: "u64 \<times> wire_value \<Rightarrow> u64 \<times> string" where
  "wire_kind (n, Varint _) = (n, ''varint'')"
| "wire_kind (n, Len _) = (n, ''bytes'')"

definition declared_kind :: "struct_field \<Rightarrow> u64 \<times> string" where
  "declared_kind f = (sf_number f, if sf_card f = ''rep,packed'' then ''bytes'' else sf_wire f)"

definition declares :: "'m message_type \<Rightarrow> (u64 \<times> wire_value) list \<Rightarrow> bool" where
  "declares t fs \<longleftrightarrow> set (map wire_kind fs) \<subseteq> set (map declared_kind (mty_fields t))"

lemma declares_fields:
  "declares AddRequest_type (AddRequest_fields am)" "declares BatchAddRequest_type (BatchAddRequest_fields bm)"
  "declares AddResponse_type (AddResponse_fields ar)" "declares QueryRequest_type (QueryRequest_fields qm)"
  "declares QueryResponse_type (QueryResponse_fields qr)" "declares Command_type (Command_fields cm)"
  by (simp_all add: declares_def declared_kind_def message_types AddRequest_fields_def BatchAddRequest_fields_def
      AddResponse_fields_def QueryRequest_fields_def QueryResponse_fields_def Command_fields_def bytes_field_def uint_field_def)

text \<open>The service description, of which only names matter here.\<close>

definition service_desc :: "unit ServiceDesc" where
  "service_desc = CardinalityService_ServiceDesc"

definition service_names :: "string list" where
  "service_names = map fst (sd_Methods service_desc)"

lemma service_names: "service_names = [''Add'', ''BatchAdd'', ''Query'']"
  by (simp add: service_names_def service_desc_def CardinalityService_ServiceDesc_def)

section \<open>Methods and registration\<close>

text \<open>\<^verbatim>\<open>Reset\<close> leaves a message of its own type whose accessors return zero values, as on a nil pointer;
  reflection never changes the fields.\<close>

lemma Reset_zero:
  assumes "message_Reset t (Some m) = Return m'"
  shows "msg_body m' = mty_zero t" and "message_ProtoReflect t (Some m') = (Some m', type_info t, Some m')"
  using assms by (auto simp: message_Reset_def message_ProtoReflect_def)

lemma nil_accessors:
  "message_Reset AddRequest_type (Some am) = Return am' \<Longrightarrow>
    AddRequest_GetGroup (Some am') = AddRequest_GetGroup None \<and> AddRequest_GetId (Some am') = AddRequest_GetId None"
  "message_Reset BatchAddRequest_type (Some bm) = Return bm' \<Longrightarrow>
    BatchAddRequest_GetGroup (Some bm') = BatchAddRequest_GetGroup None
      \<and> BatchAddRequest_GetIds (Some bm') = BatchAddRequest_GetIds None"
  "message_Reset AddResponse_type (Some om) = Return om' \<Longrightarrow> AddResponse_GetOk (Some om') = AddResponse_GetOk None"
  "message_Reset QueryRequest_type (Some qm) = Return qm' \<Longrightarrow>
    QueryRequest_GetGroup (Some qm') = QueryRequest_GetGroup None \<and> QueryRequest_GetStaleOk (Some qm') = QueryRequest_GetStaleOk None"
  "message_Reset QueryResponse_type (Some rm) = Return rm' \<Longrightarrow>
    QueryResponse_GetGroup (Some rm') = QueryResponse_GetGroup None
      \<and> QueryResponse_GetCardinality (Some rm') = QueryResponse_GetCardinality None"
  "message_Reset Command_type (Some cm) = Return cm' \<Longrightarrow>
    Command_GetType (Some cm') = Command_GetType None \<and> Command_GetGroup (Some cm') = Command_GetGroup None
      \<and> Command_GetPayload (Some cm') = Command_GetPayload None"
  by (auto simp: message_Reset_def message_types AddRequest_GetGroup_def AddRequest_GetId_def BatchAddRequest_GetGroup_def
      BatchAddRequest_GetIds_def AddResponse_GetOk_def QueryRequest_GetGroup_def QueryRequest_GetStaleOk_def
      QueryResponse_GetGroup_def QueryResponse_GetCardinality_def Command_GetType_def Command_GetGroup_def Command_GetPayload_def)

lemma ProtoReflect_idem:
  "message_ProtoReflect t x = (x', i, y) \<Longrightarrow> message_ProtoReflect t x' = (x', i, y) \<and> map_option msg_body x' = map_option msg_body x"
  by (auto simp: message_ProtoReflect_def Let_def split: option.splits)

text \<open>Initialising a file again changes nothing, and the descriptor is compressed once.\<close>

lemma init_idem:
  "file_cardinality_v1_cardinality_proto_init Build (file_cardinality_v1_cardinality_proto_init Build s)
    = file_cardinality_v1_cardinality_proto_init Build s"
  "file_cardinality_v1_command_proto_init Build (file_cardinality_v1_command_proto_init Build s)
    = file_cardinality_v1_command_proto_init Build s"
  by (simp_all add: file_cardinality_v1_cardinality_proto_init_def file_cardinality_v1_command_proto_init_def Let_def)

lemma rawDescGZIP_once:
  assumes "rawDescGZIP gz raw s = (s', b)" and "rawDescGZIP gz' raw s' = (s'', b')"
  shows "s'' = s'" and "b' = b"
  using assms by (auto simp: rawDescGZIP_def Let_def split: if_splits)

section \<open>Properties\<close>


end
